theory Spec2Isabelle
  imports Complex_Main "HOL-Library.Monad_Syntax"
begin

section \<open>Image to Design Tokens: the colour pipeline of \<^verbatim>\<open>assets/js/app.js\<close>\<close>

text \<open>
  The JavaScript works on Numbers. Channel values, populations and indices are integers
  far below \<open>2 ^ 53\<close> and are modelled as \<open>int\<close> and \<open>nat\<close>. Luminance, saturation,
  contrast and distance are IEEE doubles in the source; here they are exact reals
  (\<open>powr\<close>, \<open>sqrt\<close>, \<open>ln\<close>), so a comparison that the source decides within one
  rounding error of its threshold may come out differently. Strings are \<open>char list\<close>s.
  A \<^verbatim>\<open>TypeError\<close> thrown by the source (reading a property of \<^verbatim>\<open>null\<close>) is the
  value \<open>None\<close> of the option monad.
\<close>

subsection \<open>Data\<close>

text \<open>Objects \<^verbatim>\<open>{r, g, b}\<close>, swatches of the palette, and the entries of \<^verbatim>\<open>analyzed\<close>.
  A flag that the source leaves \<^verbatim>\<open>undefined\<close> is \<open>False\<close>.\<close>

record pixel =
  r :: int
  g :: int
  b :: int

record swatch = pixel +
  population :: nat
  isVibrant :: bool
  isBrandColor :: bool

record analyzed = swatch +
  hex :: string
  luminance :: real
  saturation :: real

subsection \<open>Colour utility functions\<close>

text \<open>\<^verbatim>\<open>Number.prototype.toString(16)\<close> on an integer.\<close>

definition hexDigit :: "nat \<Rightarrow> char" where
  "hexDigit n = ''0123456789abcdef'' ! n"

fun toHexNat :: "nat \<Rightarrow> string" where
  "toHexNat n = (if n < 16 then [hexDigit n] else toHexNat (n div 16) @ [hexDigit (n mod 16)])"

declare toHexNat.simps [simp del]

definition toString16 :: "int \<Rightarrow> string" where
  "toString16 x = (if x < 0 then CHR ''-'' # toHexNat (nat (- x)) else toHexNat (nat x))"

text \<open>\<^verbatim>\<open>rgbToHex\<close> (lines 17-22); \<^verbatim>\<open>Math.round\<close> is the identity on an integer.\<close>

definition rgbToHex :: "int \<Rightarrow> int \<Rightarrow> int \<Rightarrow> string" where
  "rgbToHex cr cg cb =
     CHR ''#'' # concat (map (\<lambda>x. let h = toString16 x in
                                   if length h = 1 then CHR ''0'' # h else h) [cr, cg, cb])"

text \<open>The character class \<^verbatim>\<open>[a-f\d]\<close> under the flag \<^verbatim>\<open>i\<close>, with the digit's value.\<close>

definition hexVal :: "char \<Rightarrow> nat option" where
  "hexVal c =
     (let n = of_char c :: nat in
      if 48 \<le> n \<and> n \<le> 57 then Some (n - 48)
      else if 97 \<le> n \<and> n \<le> 102 then Some (n - 87)
      else if 65 \<le> n \<and> n \<le> 70 then Some (n - 55)
      else None)"

text \<open>\<^verbatim>\<open>parseInt(s, 16)\<close> on a capture group of two hex digits.\<close>

definition parseInt16 :: "char \<Rightarrow> char \<Rightarrow> int option" where
  "parseInt16 c d =
     (case (hexVal c, hexVal d) of
        (Some x, Some y) \<Rightarrow> Some (int (16 * x + y))
      | _ \<Rightarrow> None)"

text \<open>\<^verbatim>\<open>hexToRgb\<close> (lines 27-34): the regular expression
  \<^verbatim>\<open>/^#?([a-f\d]{2})([a-f\d]{2})([a-f\d]{2})$/i\<close> accepts an optional \<^verbatim>\<open>#\<close> and then
  exactly six hex digits; \<open>None\<close> is the source's \<^verbatim>\<open>null\<close>.\<close>

definition hexToRgb :: "string \<Rightarrow> pixel option" where
  "hexToRgb h =
     (case (case h of c # cs \<Rightarrow> if c = CHR ''#'' then cs else h | [] \<Rightarrow> h) of
        [c1, c2, c3, c4, c5, c6] \<Rightarrow>
          (case (parseInt16 c1 c2, parseInt16 c3 c4, parseInt16 c5 c6) of
             (Some x, Some y, Some z) \<Rightarrow> Some \<lparr>r = x, g = y, b = z\<rparr>
           | _ \<Rightarrow> None)
      | _ \<Rightarrow> None)"

text \<open>\<^verbatim>\<open>getLuminance\<close> (lines 39-45): WCAG 2.1 relative luminance. \<open>linearize\<close> is the
  callback of the \<^verbatim>\<open>map\<close>; \<^verbatim>\<open>Math.pow(x, 2.4)\<close> on a positive base is \<open>x powr 2.4\<close>.\<close>

definition linearize :: "int \<Rightarrow> real" where
  "linearize c =
     (let c' = real_of_int c / 255 in
      if c' \<le> 0.03928 then c' / 12.92 else ((c' + 0.055) / 1.055) powr 2.4)"

definition getLuminance :: "int \<Rightarrow> int \<Rightarrow> int \<Rightarrow> real" where
  "getLuminance cr cg cb = 0.2126 * linearize cr + 0.7152 * linearize cg + 0.0722 * linearize cb"

text \<open>\<^verbatim>\<open>getContrastRatio\<close> (lines 50-56); it reads only \<^verbatim>\<open>r\<close>, \<^verbatim>\<open>g\<close>, \<^verbatim>\<open>b\<close> of its
  arguments, whatever else they carry.\<close>

definition getContrastRatio :: "'a pixel_scheme \<Rightarrow> 'b pixel_scheme \<Rightarrow> real" where
  "getContrastRatio rgb1 rgb2 =
     (let l1 = getLuminance (r rgb1) (g rgb1) (b rgb1);
          l2 = getLuminance (r rgb2) (g rgb2) (b rgb2);
          lighter = max l1 l2;
          darker = min l1 l2
      in (lighter + 0.05) / (darker + 0.05))"

text \<open>\<^verbatim>\<open>getSaturation\<close> (lines 61-70).\<close>

definition getSaturation :: "int \<Rightarrow> int \<Rightarrow> int \<Rightarrow> real" where
  "getSaturation cr cg cb =
     (let mx = real_of_int (max cr (max cg cb)) / 255;
          mn = real_of_int (min cr (min cg cb)) / 255;
          l' = (mx + mn) / 2
      in if mx = mn then 0
         else let d = mx - mn in
              if l' > 0.5 then d / (2 - mx - mn) else d / (mx + mn))"

text \<open>\<^verbatim>\<open>rgbToHsl\<close> (lines 75-94).\<close>

record hsl =
  h :: real
  s :: real
  l :: real

definition rgbToHsl :: "int \<Rightarrow> int \<Rightarrow> int \<Rightarrow> hsl" where
  "rgbToHsl cr cg cb =
     (let r' = real_of_int cr / 255;
          g' = real_of_int cg / 255;
          b' = real_of_int cb / 255;
          mx = max r' (max g' b');
          mn = min r' (min g' b');
          l' = (mx + mn) / 2
      in if mx = mn then \<lparr>h = 0 * 360, s = 0, l = l'\<rparr>
         else let d = mx - mn;
                  s' = (if l' > 0.5 then d / (2 - mx - mn) else d / (mx + mn));
                  h' = (if mx = r' then ((g' - b') / d + (if g' < b' then 6 else 0)) / 6
                        else if mx = g' then ((b' - r') / d + 2) / 6
                        else ((r' - g') / d + 4) / 6)
              in \<lparr>h = h' * 360, s = s', l = l'\<rparr>)"

text \<open>\<^verbatim>\<open>isSimilarHue\<close> (lines 99-103).\<close>

definition isSimilarHue :: "hsl \<Rightarrow> hsl \<Rightarrow> real \<Rightarrow> bool" where
  "isSimilarHue hsl1 hsl2 threshold =
     (let diff = \<bar>h hsl1 - h hsl2\<bar>;
          diff = (if diff > 180 then 360 - diff else diff)
      in diff < threshold)"

text \<open>\<^verbatim>\<open>colorDistance\<close> (lines 108-119).\<close>

definition colorDistance :: "'a pixel_scheme \<Rightarrow> 'b pixel_scheme \<Rightarrow> real" where
  "colorDistance c1 c2 =
     (let rMean = (real_of_int (r c1) + real_of_int (r c2)) / 2;
          dr = real_of_int (r c1 - r c2);
          dg = real_of_int (g c1 - g c2);
          db = real_of_int (b c1 - b c2)
      in sqrt ((2 + rMean / 256) * dr * dr + 4 * dg * dg + (2 + (255 - rMean) / 256) * db * db))"

subsection \<open>Median cut\<close>

text \<open>The property keys \<^verbatim>\<open>'r'\<close>, \<^verbatim>\<open>'g'\<close>, \<^verbatim>\<open>'b'\<close> that \<^verbatim>\<open>findLargestRange\<close> returns.\<close>

datatype channel = ChR | ChG | ChB

fun getChannel :: "channel \<Rightarrow> 'a pixel_scheme \<Rightarrow> int" where
  "getChannel ChR p = r p"
| "getChannel ChG p = g p"
| "getChannel ChB p = b p"

text \<open>\<^verbatim>\<open>findLargestRange\<close> (lines 237-263): minima start at 255, maxima at 0; a later
  channel wins only with a strictly larger range.\<close>

definition channelRange :: "channel \<Rightarrow> 'a pixel_scheme list \<Rightarrow> int" where
  "channelRange ch pixels =
     fold (\<lambda>p m. max m (getChannel ch p)) pixels 0 - fold (\<lambda>p m. min m (getChannel ch p)) pixels 255"

definition findLargestRange :: "'a pixel_scheme list \<Rightarrow> channel" where
  "findLargestRange pixels =
     snd (fold (\<lambda>ch (maxRange, maxChannel).
                  let range = channelRange ch pixels in
                  if range > maxRange then (range, ch) else (maxRange, maxChannel))
               [ChR, ChG, ChB] (0, ChR))"

text \<open>The \<^verbatim>\<open>forEach\<close> of lines 277-282: index and size of the first largest bucket,
  both starting at 0.\<close>

definition maxBucket :: "'a list list \<Rightarrow> nat \<times> nat" where
  "maxBucket buckets =
     fold (\<lambda>(index, bucket) (maxBucketIndex, maxBucketSize).
             if length bucket > maxBucketSize then (index, length bucket)
             else (maxBucketIndex, maxBucketSize))
          (enumerate 0 buckets) (0, 0)"

text \<open>One pass of the loop body (lines 286-295): sort the chosen bucket by its widest
  channel (\<^verbatim>\<open>Array.prototype.sort\<close> is stable, as \<open>sort_key\<close> is), cut it at
  \<^verbatim>\<open>Math.floor(length / 2)\<close> and splice the two halves in its place.\<close>

definition splitBucket :: "pixel list list \<Rightarrow> nat \<Rightarrow> pixel list list" where
  "splitBucket buckets maxBucketIndex =
     (let bucket = buckets ! maxBucketIndex;
          channel = findLargestRange bucket;
          sorted = sort_key (getChannel channel) bucket;
          median = length sorted div 2;
          bucket1 = take median sorted;
          bucket2 = drop median sorted
      in take maxBucketIndex buckets @ [bucket1, bucket2] @ drop (Suc maxBucketIndex) buckets)"

text \<open>The \<^verbatim>\<open>while\<close> loop of lines 273-296.\<close>

function medianCutLoop :: "pixel list list \<Rightarrow> nat \<Rightarrow> pixel list list" where
  "medianCutLoop buckets targetColors =
     (if length buckets < targetColors then
        (if snd (maxBucket buckets) \<le> 1 then buckets
         else medianCutLoop (splitBucket buckets (fst (maxBucket buckets))) targetColors)
      else buckets)"
  by pat_completeness auto
termination
  by (relation "measure (\<lambda>(buckets, targetColors). targetColors - length buckets)")
     (auto simp: splitBucket_def Let_def)

declare medianCutLoop.simps [simp del]

text \<open>\<^verbatim>\<open>Math.round(x)\<close> is \<open>\<lfloor>x + 1/2\<rfloor>\<close>.\<close>

definition mathRound :: "real \<Rightarrow> int" where
  "mathRound x = \<lfloor>x + 1 / 2\<rfloor>"

text \<open>The bucket-to-colour \<^verbatim>\<open>map\<close> of lines 298-313; \<open>None\<close> is the \<^verbatim>\<open>null\<close> that the
  following \<^verbatim>\<open>filter\<close> drops.\<close>

definition bucketColor :: "pixel list \<Rightarrow> swatch option" where
  "bucketColor bucket =
     (if length bucket = 0 then None
      else let sum = fold (\<lambda>p acc. \<lparr>r = r acc + r p, g = g acc + g p, b = b acc + b p\<rparr>)
                          bucket \<lparr>r = 0, g = 0, b = 0\<rparr>
           in Some \<lparr>r = mathRound (real_of_int (r sum) / real (length bucket)),
                    g = mathRound (real_of_int (g sum) / real (length bucket)),
                    b = mathRound (real_of_int (b sum) / real (length bucket)),
                    population = length bucket, isVibrant = False, isBrandColor = False\<rparr>)"

text \<open>\<^verbatim>\<open>medianCut\<close> (lines 268-316).\<close>

definition medianCut :: "pixel list \<Rightarrow> nat \<Rightarrow> swatch list" where
  "medianCut pixels targetColors =
     (if length pixels = 0 then []
      else List.map_filter bucketColor (medianCutLoop [pixels] targetColors))"

subsection \<open>Removing near-duplicates\<close>

text \<open>The inner \<^verbatim>\<open>forEach\<close> of lines 332-341: \<^verbatim>\<open>minDist\<close> starts at \<^verbatim>\<open>Infinity\<close>
  (\<open>None\<close> here), \<^verbatim>\<open>closestIndex\<close> at 0; a later entry wins only when strictly closer.\<close>

definition closestIndex :: "swatch \<Rightarrow> swatch list \<Rightarrow> nat" where
  "closestIndex color filtered =
     snd (fold (\<lambda>(index, existing) (minDist, closest).
                  let dist = colorDistance color existing in
                  if (case minDist of None \<Rightarrow> True | Some m \<Rightarrow> dist < m)
                  then (Some dist, index) else (minDist, closest))
               (enumerate 0 filtered) (None, 0))"

text \<open>The body of the outer \<^verbatim>\<open>forEach\<close> (lines 324-355).\<close>

definition mergeColor :: "real \<Rightarrow> swatch \<Rightarrow> swatch list \<Rightarrow> swatch list" where
  "mergeColor threshold color filtered =
     (let isDuplicate = list_ex (\<lambda>existing. colorDistance color existing < threshold) filtered in
      if \<not> isDuplicate then filtered @ [color]
      else let closest = closestIndex color filtered;
               existingSat = getSaturation (r (filtered ! closest)) (g (filtered ! closest))
                                           (b (filtered ! closest));
               newSat = getSaturation (r color) (g color) (b color)
           in if newSat > existingSat
              then filtered[closest := color\<lparr>population :=
                                            population (filtered ! closest) + population color\<rparr>]
              else filtered[closest := (filtered ! closest)\<lparr>population :=
                                            population (filtered ! closest) + population color\<rparr>])"

text \<open>\<^verbatim>\<open>removeDuplicates\<close> (lines 321-358). Swatches are values here; the source pushes
  the caller's objects and adds to their populations in place.\<close>

definition removeDuplicates :: "swatch list \<Rightarrow> real \<Rightarrow> swatch list" where
  "removeDuplicates colors threshold = fold (mergeColor threshold) colors []"

text \<open>A property of a swatch list, used to state when a run merges nothing: no swatch is
  nearer than the threshold to one before it (or to one of \<open>filtered\<close>).\<close>

primrec separatedFrom :: "real \<Rightarrow> swatch list \<Rightarrow> swatch list \<Rightarrow> bool" where
  "separatedFrom threshold filtered [] = True"
| "separatedFrom threshold filtered (color # colors) =
     (\<not> list_ex (\<lambda>existing. colorDistance color existing < threshold) filtered
      \<and> separatedFrom threshold (filtered @ [color]) colors)"

definition separated :: "real \<Rightarrow> swatch list \<Rightarrow> bool" where
  "separated threshold colors = separatedFrom threshold [] colors"

text \<open>A swatch as \<^verbatim>\<open>medianCut\<close> makes it, with no flag set.\<close>

abbreviation (input) plainSwatch :: "int \<Rightarrow> int \<Rightarrow> int \<Rightarrow> nat \<Rightarrow> swatch" where
  "plainSwatch x y z n \<equiv>
     \<lparr>r = x, g = y, b = z, population = n, isVibrant = False, isBrandColor = False\<rparr>"

subsection \<open>Accent recovery\<close>

text \<open>The objects \<^verbatim>\<open>{ ...p, hsl, sat }\<close> that both passes collect.\<close>

record hslPixel = pixel +
  hsl :: hsl
  sat :: real

text \<open>The first \<^verbatim>\<open>forEach\<close> of \<^verbatim>\<open>extractVibrantColors\<close> (lines 365-378): 18 hue
  buckets of 20 degrees.\<close>

definition vibrantBuckets :: "pixel list \<Rightarrow> hslPixel list list" where
  "vibrantBuckets pixels =
     fold (\<lambda>p hueBuckets.
             let sat' = getSaturation (r p) (g p) (b p) in
             if sat' < 0.25 then hueBuckets
             else let hsl' = rgbToHsl (r p) (g p) (b p) in
                  if l hsl' < 0.10 \<or> l hsl' > 0.90 then hueBuckets
                  else let bucketIndex = nat (\<lfloor>h hsl' / 20\<rfloor> mod 18) in
                       hueBuckets[bucketIndex := hueBuckets ! bucketIndex @
                          [\<lparr>r = r p, g = g p, b = b p, hsl = hsl', sat = sat'\<rparr>]])
          pixels (replicate 18 [])"

text \<open>Lines 386-397: the average of the most saturated pixels of a bucket
  (\<^verbatim>\<open>sort\<close> by \<^verbatim>\<open>b.sat - a.sat\<close> is a stable descending sort).\<close>

definition vibrantCandidate :: "hslPixel list \<Rightarrow> swatch" where
  "vibrantCandidate bucket =
     (let sorted = sort_key (\<lambda>p. - sat p) bucket;
          topCount = max 5 (nat \<lfloor>real (length bucket) * 0.05\<rfloor>);
          topPixels = take topCount sorted
      in \<lparr>r = mathRound (real_of_int (fold (\<lambda>p acc. acc + r p) topPixels 0) / real (length topPixels)),
          g = mathRound (real_of_int (fold (\<lambda>p acc. acc + g p) topPixels 0) / real (length topPixels)),
          b = mathRound (real_of_int (fold (\<lambda>p acc. acc + b p) topPixels 0) / real (length topPixels)),
          population = length bucket, isVibrant = True, isBrandColor = False\<rparr>)"

text \<open>Lines 399-413: the \<^verbatim>\<open>some\<close> over the existing palette.\<close>

definition vibrantIsDuplicate :: "swatch \<Rightarrow> swatch list \<Rightarrow> bool" where
  "vibrantIsDuplicate avg existingPalette =
     list_ex (\<lambda>existing.
                let dist = colorDistance avg existing in
                if dist < 35 then True
                else let existingHsl = rgbToHsl (r existing) (g existing) (b existing);
                         avgHsl = rgbToHsl (r avg) (g avg) (b avg)
                     in if isSimilarHue existingHsl avgHsl 25
                        then s avgHsl \<le> s existingHsl * 1.15
                        else False)
             existingPalette"

text \<open>\<^verbatim>\<open>extractVibrantColors\<close> (lines 363-422).\<close>

definition extractVibrantColors :: "pixel list \<Rightarrow> swatch list \<Rightarrow> swatch list" where
  "extractVibrantColors pixels existingPalette =
     fold (\<lambda>bucket vibrantColors.
             if length bucket < 5 then vibrantColors
             else let avg = vibrantCandidate bucket in
                  if \<not> vibrantIsDuplicate avg existingPalette
                     \<and> getSaturation (r avg) (g avg) (b avg) > 0.35
                  then vibrantColors @ [avg] else vibrantColors)
          (vibrantBuckets pixels) []"

text \<open>The seven hue ranges of \<^verbatim>\<open>extractBrandColors\<close> (lines 430-438) and the
  \<^verbatim>\<open>forEach\<close> that fills them (lines 441-454); \<^verbatim>\<open>find\<close> takes the first range that
  holds the hue.\<close>

definition hueRanges :: "(real \<times> real) list" where
  "hueRanges = [(0, 30), (30, 60), (60, 90), (90, 180), (180, 270), (270, 330), (330, 360)]"

definition brandBuckets :: "pixel list \<Rightarrow> hslPixel list list" where
  "brandBuckets pixels =
     fold (\<lambda>p ranges.
             let sat' = getSaturation (r p) (g p) (b p) in
             if sat' < 0.45 then ranges
             else let hsl' = rgbToHsl (r p) (g p) (b p) in
                  if l hsl' < 0.12 \<or> l hsl' > 0.88 then ranges
                  else (case find (\<lambda>i. h hsl' \<ge> fst (hueRanges ! i) \<and> h hsl' < snd (hueRanges ! i))
                                  [0..<length hueRanges] of
                          None \<Rightarrow> ranges
                        | Some i \<Rightarrow> ranges[i := ranges ! i @
                             [\<lparr>r = r p, g = g p, b = b p, hsl = hsl', sat = sat'\<rparr>]]))
          pixels (replicate (length hueRanges) [])"

text \<open>Lines 462-473: the average of the three most saturated pixels of a range.\<close>

definition brandCandidate :: "hslPixel list \<Rightarrow> swatch" where
  "brandCandidate rangePixels =
     (let sorted = sort_key (\<lambda>p. - sat p) rangePixels;
          topPixels = take 3 sorted
      in \<lparr>r = mathRound (real_of_int (fold (\<lambda>p acc. acc + r p) topPixels 0) / real (length topPixels)),
          g = mathRound (real_of_int (fold (\<lambda>p acc. acc + g p) topPixels 0) / real (length topPixels)),
          b = mathRound (real_of_int (fold (\<lambda>p acc. acc + b p) topPixels 0) / real (length topPixels)),
          population = length rangePixels, isVibrant = True, isBrandColor = True\<rparr>)"

text \<open>Lines 476-487.\<close>

definition brandIsDuplicate :: "swatch \<Rightarrow> swatch list \<Rightarrow> bool" where
  "brandIsDuplicate avg existingPalette =
     list_ex (\<lambda>existing.
                let dist = colorDistance avg existing in
                if dist < 30 then True
                else let existingHsl = rgbToHsl (r existing) (g existing) (b existing);
                         avgHsl = rgbToHsl (r avg) (g avg) (b avg)
                     in if isSimilarHue existingHsl avgHsl 20
                        then s existingHsl \<ge> s avgHsl
                        else False)
             existingPalette"

text \<open>\<^verbatim>\<open>extractBrandColors\<close> (lines 428-496).\<close>

definition extractBrandColors :: "pixel list \<Rightarrow> swatch list \<Rightarrow> swatch list" where
  "extractBrandColors pixels existingPalette =
     fold (\<lambda>rangePixels brandColors.
             if length rangePixels = 0 then brandColors
             else let avg = brandCandidate rangePixels in
                  if \<not> brandIsDuplicate avg existingPalette
                     \<and> getSaturation (r avg) (g avg) (b avg) > 0.40
                  then brandColors @ [avg] else brandColors)
          (brandBuckets pixels) []"

subsection \<open>Assembling the palette\<close>

text \<open>\<^verbatim>\<open>medianCut\<close> sorts its first bucket in place, and that bucket is the caller's
  array: when the loop runs at all, the caller's pixels come back sorted by their widest
  channel. Later buckets are fresh slices.\<close>

definition pixelsAfterMedianCut :: "pixel list \<Rightarrow> nat \<Rightarrow> pixel list" where
  "pixelsAfterMedianCut pixels targetColors =
     (if length pixels = 0 then pixels
      else if length [pixels] < targetColors \<and> \<not> snd (maxBucket [pixels]) \<le> 1
           then sort_key (getChannel (findLargestRange pixels)) pixels
           else pixels)"

text \<open>The palette computation of \<^verbatim>\<open>processImage\<close> (lines 1894-1919), from the pixels that
  \<^verbatim>\<open>extractPixels\<close> returned.\<close>

definition assemblePalette :: "pixel list \<Rightarrow> swatch list" where
  "assemblePalette originalPixels =
     (let palette = medianCut originalPixels 20;
          pixels = pixelsAfterMedianCut originalPixels 20;
          palette = removeDuplicates palette 30;
          vibrantColors = extractVibrantColors pixels palette;
          palette = (if length vibrantColors > 0
                     then removeDuplicates (palette @ vibrantColors) 45 else palette);
          brandColors = extractBrandColors pixels palette;
          palette = (if length brandColors > 0
                     then removeDuplicates (palette @ brandColors) 40 else palette);
          palette = sort_key (\<lambda>a. - (real (population a) *
                       (if isBrandColor a then 2.5 else if isVibrant a then 2.0 else 1))) palette
      in take 16 palette)"


subsection \<open>Token mapping: helpers of \<^verbatim>\<open>generateTokens\<close>\<close>

text \<open>The eight tokens of one mode, and the result of \<^verbatim>\<open>generateTokens\<close> (its
  \<^verbatim>\<open>warnings\<close> array is never written to).\<close>

record tokens =
  bg :: string
  surface :: string
  border :: string
  heading :: string
  "text" :: string
  mutedText :: string
  primary :: string
  onPrimary :: string

record tokenSets =
  light :: tokens
  dark :: tokens

text \<open>\<^verbatim>\<open>String.prototype.toLowerCase\<close> on the ASCII letters. A character outside ASCII is
  left alone; in the source it never turns into \<^verbatim>\<open>#\<close> or a hex digit either, so a
  comparison with a palette hex comes out the same.\<close>

definition lowerChar :: "char \<Rightarrow> char" where
  "lowerChar c = (let n = of_char c :: nat in if 65 \<le> n \<and> n \<le> 90 then char_of (n + 32) else c)"

definition toLowerCase :: "string \<Rightarrow> string" where
  "toLowerCase str = map lowerChar str"

text \<open>The truthiness test \<^verbatim>\<open>if (locked...)\<close> on an argument that is \<^verbatim>\<open>null\<close> or a
  string: the empty string counts as absent.\<close>

definition isSet :: "string option \<Rightarrow> bool" where
  "isSet locked = (case locked of None \<Rightarrow> False | Some str \<Rightarrow> str \<noteq> [])"

text \<open>The \<^verbatim>\<open>map\<close> of lines 531-536.\<close>

definition analyze :: "swatch \<Rightarrow> analyzed" where
  "analyze c =
     \<lparr>r = r c, g = g c, b = b c, population = population c, isVibrant = isVibrant c,
      isBrandColor = isBrandColor c,
      hex = rgbToHex (r c) (g c) (b c),
      luminance = getLuminance (r c) (g c) (b c),
      saturation = getSaturation (r c) (g c) (b c)\<rparr>"

text \<open>\<^verbatim>\<open>findBest\<close> (lines 538-542) with its default sort key \<^verbatim>\<open>population\<close>:
  the first of the most populous matches.\<close>

definition findBest :: "analyzed list \<Rightarrow> (analyzed \<Rightarrow> bool) \<Rightarrow> analyzed option" where
  "findBest analyzedPalette matching =
     (case sort_key (\<lambda>c. - int (population c)) (filter matching analyzedPalette) of
        [] \<Rightarrow> None
      | c # _ \<Rightarrow> Some c)"

text \<open>\<^verbatim>\<open>useColor\<close> (lines 545-548).\<close>

definition useColor :: "analyzed option \<Rightarrow> string \<Rightarrow> string" where
  "useColor color fallbackHex = (case color of Some c \<Rightarrow> hex c | None \<Rightarrow> fallbackHex)"

text \<open>\<^verbatim>\<open>ensureContrast\<close> (lines 551-569). \<^verbatim>\<open>getContrastRatio\<close> on the \<^verbatim>\<open>null\<close> of a
  string that does not parse throws, which is \<open>None\<close>.\<close>

definition ensureContrast ::
  "string option \<Rightarrow> 'a pixel_scheme \<Rightarrow> real \<Rightarrow> string \<Rightarrow> string \<Rightarrow> string option" where
  "ensureContrast candidateHex backgroundRgb minContrast fallbackLight fallbackDark =
     do {
       passes \<leftarrow> (case candidateHex of
                    None \<Rightarrow> Some False
                  | Some c \<Rightarrow>
                      if c = [] then Some False
                      else do {
                        candidateRgb \<leftarrow> hexToRgb c;
                        Some (getContrastRatio candidateRgb backgroundRgb \<ge> minContrast)
                      });
       if passes then candidateHex
       else do {
         lightRgb \<leftarrow> hexToRgb fallbackLight;
         darkRgb \<leftarrow> hexToRgb fallbackDark;
         let lightContrast = getContrastRatio lightRgb backgroundRgb;
         let darkContrast = getContrastRatio darkRgb backgroundRgb;
         if lightContrast \<ge> minContrast then Some fallbackLight
         else if darkContrast \<ge> minContrast then Some fallbackDark
         else Some (if lightContrast > darkContrast then fallbackLight else fallbackDark)
       }
     }"

text \<open>The resolution of a lock (lines 579-590, 766-777, 933-944, 1119-1130): the palette
  entry with that hex, compared without case, else the parsed string with the lock as its
  \<^verbatim>\<open>hex\<close>, else nothing. The parsed object has no population and no flags.\<close>

definition lockedCandidate :: "analyzed list \<Rightarrow> string \<Rightarrow> analyzed option" where
  "lockedCandidate analyzedPalette locked =
     (case find (\<lambda>c. toLowerCase (hex c) = toLowerCase locked) analyzedPalette of
        Some c \<Rightarrow> Some c
      | None \<Rightarrow>
          (case hexToRgb locked of
             Some rgb \<Rightarrow>
               Some \<lparr>r = r rgb, g = g rgb, b = b rgb, population = 0, isVibrant = False,
                     isBrandColor = False, hex = locked,
                     luminance = getLuminance (r rgb) (g rgb) (b rgb),
                     saturation = getSaturation (r rgb) (g rgb) (b rgb)\<rparr>
           | None \<Rightarrow> None))"

text \<open>\<^verbatim>\<open>getLuminance(...Object.values(hexToRgb(x)))\<close>, which throws when \<^verbatim>\<open>x\<close> does not
  parse.\<close>

definition luminanceOfHex :: "string \<Rightarrow> real option" where
  "luminanceOfHex hx = map_option (\<lambda>rgb. getLuminance (r rgb) (g rgb) (b rgb)) (hexToRgb hx)"

text \<open>\<^verbatim>\<open>arr[0]\<close>, \<^verbatim>\<open>undefined\<close> on an empty array.\<close>

definition first :: "'a list \<Rightarrow> 'a option" where
  "first xs = (case xs of [] \<Rightarrow> None | x # _ \<Rightarrow> Some x)"

text \<open>The objects \<^verbatim>\<open>{ r: 255, g: 255, b: 255 }\<close> and \<^verbatim>\<open>{ r: 0, g: 0, b: 0 }\<close>.\<close>

definition white :: pixel where
  "white = \<lparr>r = 255, g = 255, b = 255\<rparr>"

definition black :: pixel where
  "black = \<lparr>r = 0, g = 0, b = 0\<rparr>"

text \<open>\<^verbatim>\<open>findMostVibrantVariant\<close> (lines 501-519). The result is the colour passed in or
  a palette entry; the colour passed in has no population and no flags.\<close>

definition findMostVibrantVariant :: "pixel \<Rightarrow> swatch list \<Rightarrow> swatch" where
  "findMostVibrantVariant color palette =
     (let colorHsl = rgbToHsl (r color) (g color) (b color) in
      fst (fold (\<lambda>p (bestMatch, bestSaturation).
                   let pHsl = rgbToHsl (r p) (g p) (b p) in
                   if isSimilarHue colorHsl pHsl 35
                      \<and> s pHsl > bestSaturation \<and> l pHsl > 0.25 \<and> l pHsl < 0.75
                   then (p, s pHsl) else (bestMatch, bestSaturation))
                palette
                (\<lparr>r = r color, g = g color, b = b color, population = 0, isVibrant = False,
                  isBrandColor = False\<rparr>, s colorHsl)))"

text \<open>The \<^verbatim>\<open>isVibrant\<close> that the primary scoring looks up (lines 799-801, 1152-1154):
  the flag of the first palette entry with the candidate's hex.\<close>

definition paletteVibrant :: "swatch list \<Rightarrow> analyzed \<Rightarrow> bool" where
  "paletteVibrant palette c =
     (case find (\<lambda>p. toLowerCase (rgbToHex (r p) (g p) (b p)) = toLowerCase (hex c)) palette of
        Some p \<Rightarrow> isVibrant p
      | None \<Rightarrow> False)"

text \<open>\<^verbatim>\<open>x || fallback\<close> on a string: the empty string is falsy.\<close>

definition orElse :: "string \<Rightarrow> string \<Rightarrow> string" where
  "orElse str fallback = (if str = [] then fallback else str)"

text \<open>\<^verbatim>\<open>rgb && getContrastRatio(rgb, bgRgb) < min\<close> for the parsed token \<^verbatim>\<open>rgb\<close>
  (lines 724-731, 747-749 and their dark twins).\<close>

definition tokenFails :: "string \<Rightarrow> 'a pixel_scheme \<Rightarrow> real \<Rightarrow> bool" where
  "tokenFails tokenHex bgRgb minContrast =
     (case hexToRgb tokenHex of
        None \<Rightarrow> False
      | Some rgb \<Rightarrow> getContrastRatio rgb bgRgb < minContrast)"

text \<open>The lock of a background or of the primary: the resolved lock when one is set,
  else \<open>alternative\<close>.\<close>

definition lockOr :: "analyzed list \<Rightarrow> string option \<Rightarrow> analyzed option \<Rightarrow> analyzed option" where
  "lockOr analyzedPalette locked alternative =
     (case locked of
        None \<Rightarrow> alternative
      | Some str \<Rightarrow> if str = [] then alternative else lockedCandidate analyzedPalette str)"

subsection \<open>Token mapping: light mode\<close>

text \<open>Lines 577-594.\<close>

definition lightBgCandidate :: "analyzed list \<Rightarrow> string option \<Rightarrow> analyzed option" where
  "lightBgCandidate analyzedPalette lockedLightBg =
     lockOr analyzedPalette lockedLightBg
       (findBest analyzedPalette (\<lambda>c. luminance c > 0.75 \<and> saturation c < 0.20))"

text \<open>Lines 601-610.\<close>

definition lightSurface :: "analyzed list \<Rightarrow> analyzed option \<Rightarrow> string \<Rightarrow> string" where
  "lightSurface analyzedPalette bgCandidate bgHex =
     (let lightSurfaceCandidate =
            findBest analyzedPalette
              (\<lambda>c. luminance c > 0.85 \<and> saturation c < 0.12
                    \<and> (case bgCandidate of None \<Rightarrow> True | Some bc \<Rightarrow> hex c \<noteq> hex bc));
          surfaceHex = useColor lightSurfaceCandidate ''#ffffff''
      in if surfaceHex = bgHex then ''#ffffff'' else surfaceHex)"

text \<open>Lines 616-624.\<close>

definition lightBorder :: "analyzed list \<Rightarrow> string \<Rightarrow> string \<Rightarrow> real \<Rightarrow> string" where
  "lightBorder analyzedPalette bgHex surfaceHex lightSurfaceLuminance =
     useColor (findBest analyzedPalette
                 (\<lambda>c. luminance c < lightSurfaceLuminance \<and> luminance c > 0.5
                       \<and> luminance c < 0.95 \<and> saturation c < 0.15
                       \<and> hex c \<noteq> bgHex \<and> hex c \<noteq> surfaceHex))
              ''#e0e0e0''"

text \<open>Lines 630-641: the candidates for heading and text, best \<^verbatim>\<open>textScore\<close> first.\<close>

definition lightHeadingCandidates :: "analyzed list \<Rightarrow> pixel option \<Rightarrow> analyzed list" where
  "lightHeadingCandidates analyzedPalette surfaceRgb =
     sort_key (\<lambda>c. - ((1 - luminance c) * 2 - saturation c * 2))
       (filter (\<lambda>c. if saturation c > 0.25 then False
                     else case surfaceRgb of
                            None \<Rightarrow> luminance c < 0.2
                          | Some sr \<Rightarrow> getContrastRatio c sr \<ge> 4.5)
               analyzedPalette)"

text \<open>Lines 643-678: heading and text, each through \<^verbatim>\<open>ensureContrast\<close>, swapped when
  the text is darker than the heading, and replaced by a fixed pair when equal.\<close>

definition lightHeadingText :: "analyzed list \<Rightarrow> pixel option \<Rightarrow> (string \<times> string) option" where
  "lightHeadingText analyzedPalette surfaceRgb =
     do {
       let candidates = lightHeadingCandidates analyzedPalette surfaceRgb;
       let lightHeadingCandidate = first candidates;
       let background = (case surfaceRgb of Some sr \<Rightarrow> sr | None \<Rightarrow> white);
       headingHex \<leftarrow> ensureContrast (map_option hex lightHeadingCandidate) background 4.5
                       ''#1a1a1a'' ''#000000'';
       let lightTextCandidate =
             (case find (\<lambda>c. Some (hex c) \<noteq> map_option hex lightHeadingCandidate) candidates of
                Some c \<Rightarrow> Some c
              | None \<Rightarrow> lightHeadingCandidate);
       textHex \<leftarrow> ensureContrast (map_option hex lightTextCandidate) background 4.5
                    ''#333333'' ''#111111'';
       swapped \<leftarrow> (if textHex \<noteq> [] \<and> headingHex \<noteq> [] then do {
                      textLum \<leftarrow> luminanceOfHex textHex;
                      headingLum \<leftarrow> luminanceOfHex headingHex;
                      Some (if textLum < headingLum then (textHex, headingHex)
                            else (headingHex, textHex))
                    } else Some (headingHex, textHex));
       Some (if fst swapped = snd swapped then (''#1a1a1a'', ''#444444'') else swapped)
     }"

text \<open>Lines 680-709.\<close>

definition lightMutedText ::
  "analyzed list \<Rightarrow> pixel option \<Rightarrow> string \<Rightarrow> string \<Rightarrow> string option" where
  "lightMutedText analyzedPalette surfaceRgb headingHex textHex =
     do {
       textLuminance \<leftarrow> (if textHex \<noteq> [] then luminanceOfHex textHex else Some 0);
       let lightMutedCandidates =
             sort_key (\<lambda>c. - ((1 - \<bar>luminance c - 0.4\<bar>) - saturation c))
               (filter (\<lambda>c. if saturation c > 0.25 then False
                             else case surfaceRgb of
                                    None \<Rightarrow> luminance c > 0.2 \<and> luminance c < 0.5
                                  | Some sr \<Rightarrow>
                                      (let contrast = getContrastRatio c sr in
                                       contrast \<ge> 4 \<and> contrast < 7
                                       \<and> luminance c > textLuminance
                                       \<and> hex c \<noteq> headingHex \<and> hex c \<noteq> textHex))
                       analyzedPalette);
       ensureContrast (map_option hex (first lightMutedCandidates))
         (case surfaceRgb of Some sr \<Rightarrow> sr | None \<Rightarrow> white) 5.5 ''#555555'' ''#444444''
     }"

text \<open>Lines 713-760: the background is replaced when it is not locked and one of the
  text tokens lacks contrast on it.\<close>

definition lightBgValidated ::
  "analyzed list \<Rightarrow> string option \<Rightarrow> string \<Rightarrow> string \<Rightarrow> string \<Rightarrow> string \<Rightarrow> string" where
  "lightBgValidated analyzedPalette lockedLightBg bgHex headingHex textHex mutedHex =
     (let lightBgNeedsReplacement =
            (case hexToRgb bgHex of
               None \<Rightarrow> False
             | Some lightBgRgb \<Rightarrow>
                 \<not> isSet lockedLightBg
                 \<and> (tokenFails headingHex lightBgRgb 4.5 \<or> tokenFails textHex lightBgRgb 4.5
                    \<or> tokenFails mutedHex lightBgRgb 3.0))
      in if lightBgNeedsReplacement then
           (case sort_key (\<lambda>c. - luminance c)
                   (filter (\<lambda>c. if luminance c < 0.65 then False
                                 else \<not> tokenFails headingHex c 4.5 \<and> \<not> tokenFails textHex c 4.5
                                      \<and> \<not> tokenFails mutedHex c 3.0)
                           analyzedPalette) of
              [] \<Rightarrow> ''#f7f7f7''
            | c # _ \<Rightarrow> hex c)
         else bgHex)"

text \<open>Lines 803-819: the score of a primary candidate.\<close>

definition lightPrimaryScore :: "swatch list \<Rightarrow> pixel \<Rightarrow> analyzed \<Rightarrow> real" where
  "lightPrimaryScore palette lightSurfaceForPrimary c =
     (let saturationScore = saturation c * 4;
          vibrantBonus = (if paletteVibrant palette c then 2.5 else 0);
          luminanceScore = 1 - \<bar>luminance c - 0.45\<bar>;
          populationScore = ln (real (population c) + 1) / 12;
          contrastVsSurface = getContrastRatio c lightSurfaceForPrimary;
          contrastBonus = min (contrastVsSurface / 10) 0.5;
          lightPenalty = (if luminance c > 0.85 then 2.0
                          else if luminance c > 0.75 then 0.8
                          else if luminance c > 0.65 then 0.3 else 0);
          darkPenalty = (if luminance c < 0.15 then 3.0
                         else if luminance c < 0.25 then 1.0 else 0)
      in saturationScore + vibrantBonus + luminanceScore + populationScore + contrastBonus
         - lightPenalty - darkPenalty)"

text \<open>The default blue of light mode (lines 863-868).\<close>

definition lightDefaultPrimary :: analyzed where
  "lightDefaultPrimary =
     \<lparr>r = 0, g = 113, b = 227, population = 0, isVibrant = False, isBrandColor = False,
      hex = ''#0071e3'', luminance = getLuminance 0 113 227, saturation = getSaturation 0 113 227\<rparr>"

text \<open>Lines 780-888, the block under \<^verbatim>\<open>if (!lightPrimary)\<close>: scored candidates, two
  relaxed searches, the default blue, and the more vibrant variant. The surface has been
  parsed before (line 613), so \<^verbatim>\<open>lightSurfaceForPrimary\<close> is passed in parsed.\<close>

definition lightPrimarySearch ::
  "analyzed list \<Rightarrow> swatch list \<Rightarrow> pixel \<Rightarrow> string \<Rightarrow> string \<Rightarrow> string \<Rightarrow> analyzed option" where
  "lightPrimarySearch analyzedPalette palette lightSurfaceForPrimary headingHex textHex mutedHex =
     (let usedTextColors = filter (\<lambda>t. t \<noteq> []) [headingHex, textHex, mutedHex];
          primaryCandidates =
            sort_key (\<lambda>c. - lightPrimaryScore palette lightSurfaceForPrimary c)
              (map (\<lambda>c. c\<lparr>isVibrant := paletteVibrant palette c\<rparr>)
                 (filter (\<lambda>c. \<not> saturation c < 0.20 \<and> hex c \<notin> set usedTextColors
                               \<and> \<not> getContrastRatio c lightSurfaceForPrimary < 2.5)
                         analyzedPalette));
          lightPrimary = first primaryCandidates;
          lightPrimary =
            (case lightPrimary of
               Some p \<Rightarrow> Some p
             | None \<Rightarrow>
                 first (sort_key (\<lambda>c. - saturation c)
                   (filter (\<lambda>c. \<not> saturation c < 0.15 \<and> hex c \<notin> set usedTextColors
                                 \<and> \<not> getContrastRatio c lightSurfaceForPrimary < 2.5
                                 \<and> \<not> (luminance c < 0.15 \<or> luminance c > 0.85))
                           analyzedPalette)));
          lightPrimary =
            (case lightPrimary of
               Some p \<Rightarrow> Some p
             | None \<Rightarrow>
                 first (sort_key (\<lambda>c. - saturation c)
                   (filter (\<lambda>c. \<not> saturation c < 0.15 \<and> hex c \<notin> set usedTextColors
                                 \<and> \<not> getContrastRatio c lightSurfaceForPrimary < 2.0
                                 \<and> \<not> (luminance c < 0.15 \<or> luminance c > 0.85))
                           analyzedPalette)));
          lightPrimary = (case lightPrimary of Some p \<Rightarrow> p | None \<Rightarrow> lightDefaultPrimary)
      in if \<not> isVibrant lightPrimary \<and> hex lightPrimary \<noteq> ''#0071e3'' then
           do {
             rgb \<leftarrow> hexToRgb (hex lightPrimary);
             let moreVibrant = findMostVibrantVariant rgb palette;
             Some (if getSaturation (r moreVibrant) (g moreVibrant) (b moreVibrant)
                        > saturation lightPrimary * 1.2
                      \<and> getContrastRatio moreVibrant lightSurfaceForPrimary \<ge> 3
                   then analyze moreVibrant else lightPrimary)
           }
         else Some lightPrimary)"

text \<open>Lines 890-923: the tokens \<^verbatim>\<open>primary\<close> and \<^verbatim>\<open>onPrimary\<close>.\<close>

definition lightPrimaryTokens ::
  "analyzed list \<Rightarrow> string option \<Rightarrow> analyzed option \<Rightarrow> string \<times> string" where
  "lightPrimaryTokens analyzedPalette lockedPrimary lightPrimary =
     (case lightPrimary of
        Some lp \<Rightarrow>
          (let contrastWithWhite = getContrastRatio lp white;
               contrastWithBlack = getContrastRatio lp black
           in if contrastWithWhite \<ge> 4.5 then (hex lp, ''#ffffff'')
              else if contrastWithBlack \<ge> 4.5 then (hex lp, ''#000000'')
              else if \<not> isSet lockedPrimary then
                (case find (\<lambda>c. (getContrastRatio c white \<ge> 4.5 \<or> getContrastRatio c black \<ge> 4.5)
                                 \<and> saturation c > 0.2) analyzedPalette of
                   Some betterPrimary \<Rightarrow>
                     (hex betterPrimary,
                      if getContrastRatio betterPrimary white \<ge> 4.5 then ''#ffffff'' else ''#000000'')
                 | None \<Rightarrow> (''#0071e3'', ''#ffffff''))
              else (hex lp, if contrastWithWhite > contrastWithBlack then ''#ffffff'' else ''#000000''))
      | None \<Rightarrow> (useColor None ''#0071e3'', ''#ffffff''))"

text \<open>Light mode as a whole (lines 574-923). It returns the tokens and the variable
  \<^verbatim>\<open>lightPrimary\<close>, which dark mode reads.\<close>

definition lightMode ::
  "analyzed list \<Rightarrow> swatch list \<Rightarrow> string option \<Rightarrow> string option
   \<Rightarrow> (tokens \<times> analyzed option) option" where
  "lightMode analyzedPalette palette lockedPrimary lockedLightBg =
     do {
       let bgCandidate = lightBgCandidate analyzedPalette lockedLightBg;
       let bgHex = useColor bgCandidate ''#f7f7f7'';
       lightBgLuminance \<leftarrow> (if bgHex \<noteq> [] then luminanceOfHex bgHex else Some 0.95);
       let surfaceHex = lightSurface analyzedPalette bgCandidate bgHex;
       lightSurfaceLuminance \<leftarrow> (if surfaceHex \<noteq> [] then luminanceOfHex surfaceHex else Some 1);
       let borderHex = lightBorder analyzedPalette bgHex surfaceHex lightSurfaceLuminance;
       let surfaceRgb = hexToRgb (orElse surfaceHex ''#ffffff'');
       headingText \<leftarrow> lightHeadingText analyzedPalette surfaceRgb;
       let headingHex = fst headingText;
       let textHex = snd headingText;
       mutedHex \<leftarrow> lightMutedText analyzedPalette surfaceRgb headingHex textHex;
       let bgHex = lightBgValidated analyzedPalette lockedLightBg bgHex headingHex textHex mutedHex;
       let lightPrimary = lockOr analyzedPalette lockedPrimary None;
       lightPrimary \<leftarrow>
         (case lightPrimary of
            Some p \<Rightarrow> Some (Some p)
          | None \<Rightarrow> do {
              lightSurfaceForPrimary \<leftarrow> hexToRgb (orElse surfaceHex ''#ffffff'');
              p \<leftarrow> lightPrimarySearch analyzedPalette palette lightSurfaceForPrimary
                     headingHex textHex mutedHex;
              Some (Some p)
            });
       let primaryTokens = lightPrimaryTokens analyzedPalette lockedPrimary lightPrimary;
       Some (\<lparr>bg = bgHex, surface = surfaceHex, border = borderHex, heading = headingHex,
              text = textHex, mutedText = mutedHex, primary = fst primaryTokens,
              onPrimary = snd primaryTokens\<rparr>, lightPrimary)
     }"

subsection \<open>Token mapping: dark mode\<close>

text \<open>Lines 931-948.\<close>

definition darkBgCandidate :: "analyzed list \<Rightarrow> string option \<Rightarrow> analyzed option" where
  "darkBgCandidate analyzedPalette lockedDarkBg =
     lockOr analyzedPalette lockedDarkBg
       (findBest analyzedPalette (\<lambda>c. luminance c < 0.06 \<and> saturation c < 0.20))"

text \<open>Lines 955-965.\<close>

definition darkSurface :: "analyzed list \<Rightarrow> analyzed option \<Rightarrow> string \<Rightarrow> real \<Rightarrow> string" where
  "darkSurface analyzedPalette bgCandidate bgHex bgLuminance =
     (let darkSurfaceCandidate =
            findBest analyzedPalette
              (\<lambda>c. luminance c > bgLuminance \<and> luminance c < 0.05 \<and> saturation c < 0.15
                    \<and> (case bgCandidate of None \<Rightarrow> True | Some bc \<Rightarrow> hex c \<noteq> hex bc));
          surfaceHex = useColor darkSurfaceCandidate ''#141414''
      in if surfaceHex = bgHex then ''#141414'' else surfaceHex)"

text \<open>Lines 971-978.\<close>

definition darkBorder :: "analyzed list \<Rightarrow> string \<Rightarrow> string \<Rightarrow> real \<Rightarrow> string" where
  "darkBorder analyzedPalette bgHex surfaceHex surfaceLuminance =
     useColor (findBest analyzedPalette
                 (\<lambda>c. luminance c > surfaceLuminance \<and> luminance c < 0.35
                       \<and> saturation c < 0.20 \<and> hex c \<noteq> bgHex \<and> hex c \<noteq> surfaceHex))
              ''#2a2a2a''"

text \<open>Lines 984-995.\<close>

definition darkHeadingCandidates :: "analyzed list \<Rightarrow> pixel option \<Rightarrow> analyzed list" where
  "darkHeadingCandidates analyzedPalette darkSurfaceRgb =
     sort_key (\<lambda>c. - (luminance c * 2 - saturation c * 2))
       (filter (\<lambda>c. if saturation c > 0.25 then False
                     else case darkSurfaceRgb of
                            None \<Rightarrow> luminance c > 0.7
                          | Some sr \<Rightarrow> getContrastRatio c sr \<ge> 4.5)
               analyzedPalette)"

text \<open>The object \<^verbatim>\<open>{ r: 11, g: 11, b: 11 }\<close>.\<close>

definition nearBlack :: pixel where
  "nearBlack = \<lparr>r = 11, g = 11, b = 11\<rparr>"

text \<open>Lines 997-1032.\<close>

definition darkHeadingText :: "analyzed list \<Rightarrow> pixel option \<Rightarrow> (string \<times> string) option" where
  "darkHeadingText analyzedPalette darkSurfaceRgb =
     do {
       let candidates = darkHeadingCandidates analyzedPalette darkSurfaceRgb;
       let darkHeadingCandidate = first candidates;
       let background = (case darkSurfaceRgb of Some sr \<Rightarrow> sr | None \<Rightarrow> nearBlack);
       headingHex \<leftarrow> ensureContrast (map_option hex darkHeadingCandidate) background 4.5
                       ''#ffffff'' ''#e8e8e8'';
       let darkTextCandidate =
             (case find (\<lambda>c. Some (hex c) \<noteq> map_option hex darkHeadingCandidate) candidates of
                Some c \<Rightarrow> Some c
              | None \<Rightarrow> darkHeadingCandidate);
       textHex \<leftarrow> ensureContrast (map_option hex darkTextCandidate) background 4.5
                    ''#f0f0f0'' ''#d4d4d4'';
       swapped \<leftarrow> (if textHex \<noteq> [] \<and> headingHex \<noteq> [] then do {
                      textLum \<leftarrow> luminanceOfHex textHex;
                      headingLum \<leftarrow> luminanceOfHex headingHex;
                      Some (if textLum > headingLum then (textHex, headingHex)
                            else (headingHex, textHex))
                    } else Some (headingHex, textHex));
       Some (if fst swapped = snd swapped then (''#ffffff'', ''#c0c0c0'') else swapped)
     }"

text \<open>Lines 1034-1063.\<close>

definition darkMutedText ::
  "analyzed list \<Rightarrow> pixel option \<Rightarrow> string \<Rightarrow> string \<Rightarrow> string option" where
  "darkMutedText analyzedPalette darkSurfaceRgb headingHex textHex =
     do {
       darkTextLuminance \<leftarrow> (if textHex \<noteq> [] then luminanceOfHex textHex else Some 1);
       let darkMutedCandidates =
             sort_key (\<lambda>c. - ((1 - \<bar>luminance c - 0.5\<bar>) - saturation c))
               (filter (\<lambda>c. if saturation c > 0.25 then False
                             else case darkSurfaceRgb of
                                    None \<Rightarrow> luminance c > 0.3 \<and> luminance c < 0.6
                                  | Some sr \<Rightarrow>
                                      (let contrast = getContrastRatio c sr in
                                       contrast \<ge> 4 \<and> contrast < 10
                                       \<and> luminance c < darkTextLuminance
                                       \<and> hex c \<noteq> headingHex \<and> hex c \<noteq> textHex))
                       analyzedPalette);
       ensureContrast (map_option hex (first darkMutedCandidates))
         (case darkSurfaceRgb of Some sr \<Rightarrow> sr | None \<Rightarrow> nearBlack) 5.5 ''#d0d0d0'' ''#b8b8b8''
     }"

text \<open>Lines 1066-1113.\<close>

definition darkBgValidated ::
  "analyzed list \<Rightarrow> string option \<Rightarrow> string \<Rightarrow> string \<Rightarrow> string \<Rightarrow> string \<Rightarrow> string" where
  "darkBgValidated analyzedPalette lockedDarkBg bgHex headingHex textHex mutedHex =
     (let darkBgNeedsReplacement =
            (case hexToRgb bgHex of
               None \<Rightarrow> False
             | Some darkBgRgb \<Rightarrow>
                 \<not> isSet lockedDarkBg
                 \<and> (tokenFails headingHex darkBgRgb 4.5 \<or> tokenFails textHex darkBgRgb 4.5
                    \<or> tokenFails mutedHex darkBgRgb 3.0))
      in if darkBgNeedsReplacement then
           (case sort_key (\<lambda>c. luminance c)
                   (filter (\<lambda>c. if luminance c > 0.15 then False
                                 else \<not> tokenFails headingHex c 4.5 \<and> \<not> tokenFails textHex c 4.5
                                      \<and> \<not> tokenFails mutedHex c 3.0)
                           analyzedPalette) of
              [] \<Rightarrow> ''#0b0b0b''
            | c # _ \<Rightarrow> hex c)
         else bgHex)"

text \<open>Lines 1156-1174.\<close>

definition darkPrimaryScore :: "swatch list \<Rightarrow> pixel \<Rightarrow> analyzed \<Rightarrow> real" where
  "darkPrimaryScore palette darkSurfaceForPrimary c =
     (let saturationScore = saturation c * 4;
          vibrantBonus = (if paletteVibrant palette c then 2.5 else 0);
          luminanceScore = 1 - \<bar>luminance c - 0.45\<bar>;
          populationScore = ln (real (population c) + 1) / 12;
          contrastVsSurface = getContrastRatio c darkSurfaceForPrimary;
          contrastBonus = min (contrastVsSurface / 10) 0.5;
          darkPenalty = (if luminance c < 0.15 then 1.5
                         else if luminance c < 0.25 then 0.5 else 0);
          lightPenalty = (if luminance c > 0.8 then 1.5
                          else if luminance c > 0.7 then 0.5 else 0)
      in saturationScore + vibrantBonus + luminanceScore + populationScore + contrastBonus
         - darkPenalty - lightPenalty)"

text \<open>The default blue of dark mode (lines 1229-1234).\<close>

definition darkDefaultPrimary :: analyzed where
  "darkDefaultPrimary =
     \<lparr>r = 64, g = 156, b = 255, population = 0, isVibrant = False, isBrandColor = False,
      hex = ''#409cff'', luminance = getLuminance 64 156 255,
      saturation = getSaturation 64 156 255\<rparr>"

text \<open>Lines 1133-1255, the block under \<^verbatim>\<open>if (!darkPrimary)\<close>. After the two relaxed
  searches it tries the variable \<^verbatim>\<open>lightPrimary\<close> of light mode (lines 1217-1225)
  before the default blue.\<close>

definition darkPrimarySearch ::
  "analyzed list \<Rightarrow> swatch list \<Rightarrow> pixel \<Rightarrow> string \<Rightarrow> string \<Rightarrow> string
   \<Rightarrow> analyzed option \<Rightarrow> analyzed option" where
  "darkPrimarySearch analyzedPalette palette darkSurfaceForPrimary headingHex textHex mutedHex
     lightPrimary =
     (let usedTextColors = filter (\<lambda>t. t \<noteq> []) [headingHex, textHex, mutedHex];
          primaryCandidates =
            sort_key (\<lambda>c. - darkPrimaryScore palette darkSurfaceForPrimary c)
              (map (\<lambda>c. c\<lparr>isVibrant := paletteVibrant palette c\<rparr>)
                 (filter (\<lambda>c. \<not> saturation c < 0.20 \<and> hex c \<notin> set usedTextColors
                               \<and> \<not> getContrastRatio c darkSurfaceForPrimary < 2.5)
                         analyzedPalette));
          darkPrimary = first primaryCandidates;
          darkPrimary =
            (case darkPrimary of
               Some p \<Rightarrow> Some p
             | None \<Rightarrow>
                 first (sort_key (\<lambda>c. - saturation c)
                   (filter (\<lambda>c. \<not> saturation c < 0.15 \<and> hex c \<notin> set usedTextColors
                                 \<and> \<not> getContrastRatio c darkSurfaceForPrimary < 2.5
                                 \<and> \<not> (luminance c < 0.2 \<or> luminance c > 0.8))
                           analyzedPalette)));
          darkPrimary =
            (case darkPrimary of
               Some p \<Rightarrow> Some p
             | None \<Rightarrow>
                 first (sort_key (\<lambda>c. - saturation c)
                   (filter (\<lambda>c. \<not> saturation c < 0.15 \<and> hex c \<notin> set usedTextColors
                                 \<and> \<not> getContrastRatio c darkSurfaceForPrimary < 2.0
                                 \<and> \<not> (luminance c < 0.2 \<or> luminance c > 0.8))
                           analyzedPalette)));
          darkPrimary =
            (case (darkPrimary, lightPrimary) of
               (None, Some lp) \<Rightarrow>
                 (case hexToRgb (hex lp) of
                    Some lpRgb \<Rightarrow>
                      if getContrastRatio lpRgb darkSurfaceForPrimary \<ge> 2.5 then Some lp
                      else darkPrimary
                  | None \<Rightarrow> darkPrimary)
             | _ \<Rightarrow> darkPrimary);
          darkPrimary = (case darkPrimary of Some p \<Rightarrow> p | None \<Rightarrow> darkDefaultPrimary)
      in if \<not> isVibrant darkPrimary \<and> hex darkPrimary \<noteq> ''#409cff'' then
           do {
             rgb \<leftarrow> hexToRgb (hex darkPrimary);
             let moreVibrant = findMostVibrantVariant rgb palette;
             Some (if getSaturation (r moreVibrant) (g moreVibrant) (b moreVibrant)
                        > saturation darkPrimary * 1.2
                      \<and> getLuminance (r moreVibrant) (g moreVibrant) (b moreVibrant) > 0.2
                      \<and> getContrastRatio moreVibrant darkSurfaceForPrimary \<ge> 3
                   then analyze moreVibrant else darkPrimary)
           }
         else Some darkPrimary)"

text \<open>Lines 1257-1273.\<close>

definition darkPrimaryTokens :: "analyzed option \<Rightarrow> string \<times> string" where
  "darkPrimaryTokens darkPrimary =
     (case darkPrimary of
        Some dp \<Rightarrow>
          (let contrastWithWhite = getContrastRatio dp white;
               contrastWithBlack = getContrastRatio dp black
           in if contrastWithWhite \<ge> 4.5 then (hex dp, ''#ffffff'')
              else if contrastWithBlack \<ge> 4.5 then (hex dp, ''#000000'')
              else (hex dp, if contrastWithWhite > contrastWithBlack then ''#ffffff'' else ''#000000''))
      | None \<Rightarrow> (useColor None ''#409cff'', ''#000000''))"

text \<open>Dark mode as a whole (lines 928-1273).\<close>

definition darkMode ::
  "analyzed list \<Rightarrow> swatch list \<Rightarrow> string option \<Rightarrow> string option \<Rightarrow> analyzed option
   \<Rightarrow> tokens option" where
  "darkMode analyzedPalette palette lockedPrimary lockedDarkBg lightPrimary =
     do {
       let bgCandidate = darkBgCandidate analyzedPalette lockedDarkBg;
       let bgHex = useColor bgCandidate ''#0b0b0b'';
       bgLuminance \<leftarrow> (if bgHex \<noteq> [] then luminanceOfHex bgHex else Some 0.01);
       let surfaceHex = darkSurface analyzedPalette bgCandidate bgHex bgLuminance;
       surfaceLuminance \<leftarrow> (if surfaceHex \<noteq> [] then luminanceOfHex surfaceHex else Some 0.02);
       let borderHex = darkBorder analyzedPalette bgHex surfaceHex surfaceLuminance;
       let darkSurfaceRgb = hexToRgb (orElse surfaceHex ''#141414'');
       headingText \<leftarrow> darkHeadingText analyzedPalette darkSurfaceRgb;
       let headingHex = fst headingText;
       let textHex = snd headingText;
       mutedHex \<leftarrow> darkMutedText analyzedPalette darkSurfaceRgb headingHex textHex;
       let bgHex = darkBgValidated analyzedPalette lockedDarkBg bgHex headingHex textHex mutedHex;
       let darkPrimary = lockOr analyzedPalette lockedPrimary None;
       darkPrimary \<leftarrow>
         (case darkPrimary of
            Some p \<Rightarrow> Some (Some p)
          | None \<Rightarrow> do {
              darkSurfaceForPrimary \<leftarrow> hexToRgb (orElse surfaceHex ''#141414'');
              p \<leftarrow> darkPrimarySearch analyzedPalette palette darkSurfaceForPrimary
                     headingHex textHex mutedHex lightPrimary;
              Some (Some p)
            });
       let primaryTokens = darkPrimaryTokens darkPrimary;
       Some \<lparr>bg = bgHex, surface = surfaceHex, border = borderHex, heading = headingHex,
             text = textHex, mutedText = mutedHex, primary = fst primaryTokens,
             onPrimary = snd primaryTokens\<rparr>
     }"

subsection \<open>\<^verbatim>\<open>generateTokens\<close>\<close>

text \<open>\<^verbatim>\<open>generateTokens\<close> (lines 528-1276). \<open>None\<close> in place of a lock is \<^verbatim>\<open>null\<close>;
  the result \<open>None\<close> is a thrown \<^verbatim>\<open>TypeError\<close>.\<close>

definition generateTokens ::
  "swatch list \<Rightarrow> string option \<Rightarrow> string option \<Rightarrow> string option \<Rightarrow> tokenSets option" where
  "generateTokens palette lockedPrimary lockedLightBg lockedDarkBg =
     do {
       let analyzedPalette = map analyze palette;
       lightResult \<leftarrow> lightMode analyzedPalette palette lockedPrimary lockedLightBg;
       darkTokens \<leftarrow> darkMode analyzedPalette palette lockedPrimary lockedDarkBg (snd lightResult);
       Some \<lparr>light = fst lightResult, dark = darkTokens\<rparr>
     }"

text \<open>The palettes that the pipeline produces and that \<^verbatim>\<open>generateTokens\<close> is meant for:
  every channel an integer from 0 to 255.\<close>

definition validChannel :: "int \<Rightarrow> bool" where
  "validChannel x = (0 \<le> x \<and> x \<le> 255)"

definition validPalette :: "swatch list \<Rightarrow> bool" where
  "validPalette palette =
     list_all (\<lambda>c. validChannel (r c) \<and> validChannel (g c) \<and> validChannel (b c)) palette"

text \<open>A string that \<^verbatim>\<open>hexToRgb\<close> accepts: six hex digits after an optional \<^verbatim>\<open>#\<close>.\<close>

definition validHex :: "string \<Rightarrow> bool" where
  "validHex hx = (hexToRgb hx \<noteq> None)"

definition validTokens :: "tokens \<Rightarrow> bool" where
  "validTokens t =
     (validHex (bg t) \<and> validHex (surface t) \<and> validHex (border t) \<and> validHex (text t)
      \<and> validHex (heading t) \<and> validHex (mutedText t) \<and> validHex (primary t)
      \<and> validHex (onPrimary t))"

text \<open>An entry of \<^verbatim>\<open>analyzed\<close>, or an object built like one, whose fields agree: valid
  channels, a \<^verbatim>\<open>hex\<close> that parses to them, and their luminance and saturation.\<close>

definition coherent :: "analyzed \<Rightarrow> bool" where
  "coherent c =
     (validChannel (r c) \<and> validChannel (g c) \<and> validChannel (b c)
      \<and> hexToRgb (hex c) = Some \<lparr>r = r c, g = g c, b = b c\<rparr>
      \<and> luminance c = getLuminance (r c) (g c) (b c)
      \<and> saturation c = getSaturation (r c) (g c) (b c))"

text \<open>The token \<open>tokenHex\<close> parses and has a contrast ratio of at least \<open>minContrast\<close>
  against the colour \<open>bgRgb\<close>.\<close>

definition hasContrast :: "string \<Rightarrow> 'a pixel_scheme \<Rightarrow> real \<Rightarrow> bool" where
  "hasContrast tokenHex bgRgb minContrast =
     (case hexToRgb tokenHex of
        None \<Rightarrow> False
      | Some rgb \<Rightarrow> getContrastRatio rgb bgRgb \<ge> minContrast)"

text \<open>\<^verbatim>\<open>contrastRatio\<close> of two tokens: both parse and their colours have a contrast ratio
  of at least \<open>minContrast\<close>.\<close>

definition contrastAtLeast :: "string \<Rightarrow> string \<Rightarrow> real \<Rightarrow> bool" where
  "contrastAtLeast tokenHex againstHex minContrast =
     (case hexToRgb againstHex of
        None \<Rightarrow> False
      | Some rgb \<Rightarrow> hasContrast tokenHex rgb minContrast)"

text \<open>The contrast ratio of two luminances: the last line of \<^verbatim>\<open>getContrastRatio\<close>.\<close>

definition luminanceContrast :: "real \<Rightarrow> real \<Rightarrow> real" where
  "luminanceContrast l1 l2 = (max l1 l2 + 0.05) / (min l1 l2 + 0.05)"

text \<open>The entry of \<^verbatim>\<open>analyzed\<close> for a swatch of the gray (128, 128, 128) with population
  \<open>n\<close>.\<close>

abbreviation (input) analyzedGray :: "nat \<Rightarrow> analyzed" where
  "analyzedGray n \<equiv> \<lparr>r = 128, g = 128, b = 128, population = n, isVibrant = False,
     isBrandColor = False, hex = ''#808080'', luminance = linearize 128, saturation = 0\<rparr>"

section \<open>Properties\<close>

subsection \<open>Hex strings\<close>

lemma hexVal_hexDigit: "n < 16 \<Longrightarrow> hexVal (hexDigit n) = Some n"
proof -
  assume "n < 16"
  then have "n \<in> set [0..<16]" by simp
  then show ?thesis
    unfolding upt_conv_Cons_Cons
    by (auto simp: hexVal_def hexDigit_def numeral_eq_Suc)
qed

lemma hexDigit_0: "hexDigit 0 = CHR ''0''"
  by (simp add: hexDigit_def)

lemma pad2_hex:
  assumes "0 \<le> x" "x \<le> 255"
  shows "(let hx = toString16 x in if length hx = 1 then CHR ''0'' # hx else hx)
         = [hexDigit (nat x div 16), hexDigit (nat x mod 16)]"
proof (cases "nat x < 16")
  case True
  then show ?thesis using assms
    by (simp add: toString16_def toHexNat.simps [of "nat x"] hexDigit_0)
next
  case False
  moreover from assms have "nat x div 16 < 16" by linarith
  ultimately show ?thesis using assms
    by (simp add: toString16_def toHexNat.simps [of "nat x"] toHexNat.simps [of "nat x div 16"])
qed

lemma parseInt16_pad2:
  assumes "0 \<le> x" "x \<le> 255"
  shows "parseInt16 (hexDigit (nat x div 16)) (hexDigit (nat x mod 16)) = Some x"
proof -
  from assms have "nat x div 16 < 16" "nat x mod 16 < 16" by linarith+
  then show ?thesis using assms
    by (simp add: parseInt16_def hexVal_hexDigit)
qed

lemma rgbToHex_shape:
  assumes "0 \<le> x" "x \<le> 255" "0 \<le> y" "y \<le> 255" "0 \<le> z" "z \<le> 255"
  shows "rgbToHex x y z = [CHR ''#'', hexDigit (nat x div 16), hexDigit (nat x mod 16),
           hexDigit (nat y div 16), hexDigit (nat y mod 16),
           hexDigit (nat z div 16), hexDigit (nat z mod 16)]"
  using pad2_hex [OF assms(1,2)] pad2_hex [OF assms(3,4)] pad2_hex [OF assms(5,6)]
  by (simp add: rgbToHex_def)

text \<open>
  Claim C10 (hex round trip). For integers \<open>x\<close>, \<open>y\<close>, \<open>z\<close> in \<open>[0, 255]\<close>, \<^verbatim>\<open>rgbToHex\<close>
  yields a string of \<^verbatim>\<open>#\<close> and six hex digits that \<^verbatim>\<open>hexToRgb\<close> parses (the result is
  not \<^verbatim>\<open>null\<close>) back to exactly the triple it was made from.
\<close>

theorem hex_roundtrip:
  assumes "0 \<le> x" "x \<le> 255" "0 \<le> y" "y \<le> 255" "0 \<le> z" "z \<le> 255"
  shows "length (rgbToHex x y z) = 7 \<and> hd (rgbToHex x y z) = CHR ''#''
       \<and> hexToRgb (rgbToHex x y z) = Some \<lparr>r = x, g = y, b = z\<rparr>"
  using parseInt16_pad2 [OF assms(1,2)] parseInt16_pad2 [OF assms(3,4)] parseInt16_pad2 [OF assms(5,6)]
  by (simp add: rgbToHex_shape [OF assms] hexToRgb_def)

theorem hex_roundtrip_witness:
  "(0::int) \<le> 255 \<and> (255::int) \<le> 255 \<and> (0::int) \<le> 0 \<and> (0::int) \<le> 255
   \<and> (0::int) \<le> 10 \<and> (10::int) \<le> 255
   \<and> length (rgbToHex 255 0 10) = 7 \<and> hd (rgbToHex 255 0 10) = CHR ''#''
   \<and> hexToRgb (rgbToHex 255 0 10) = Some \<lparr>r = 255, g = 0, b = 10\<rparr>"
  using hex_roundtrip [of 255 0 10] by simp

subsection \<open>Median cut\<close>

lemma maxBucket_fold:
  "fold (\<lambda>(index, bucket) (maxBucketIndex, maxBucketSize).
             if length bucket > maxBucketSize then (index, length bucket)
             else (maxBucketIndex, maxBucketSize)) (enumerate n xs) (i0, s0) = (i, sz)
   \<Longrightarrow> (i, sz) = (i0, s0) \<or> (n \<le> i \<and> i < n + length xs \<and> length (xs ! (i - n)) = sz)"
proof (induction xs arbitrary: n i0 s0)
  case Nil
  then show ?case by simp
next
  case (Cons x xs)
  show ?case
  proof (cases "length x > s0")
    case True
    with Cons.prems have "fold (\<lambda>(index, bucket) (maxBucketIndex, maxBucketSize).
             if length bucket > maxBucketSize then (index, length bucket)
             else (maxBucketIndex, maxBucketSize)) (enumerate (Suc n) xs) (n, length x) = (i, sz)"
      by simp
    from Cons.IH [OF this] show ?thesis
      by (auto simp: nth_Cons')
  next
    case False
    with Cons.prems have "fold (\<lambda>(index, bucket) (maxBucketIndex, maxBucketSize).
             if length bucket > maxBucketSize then (index, length bucket)
             else (maxBucketIndex, maxBucketSize)) (enumerate (Suc n) xs) (i0, s0) = (i, sz)"
      by simp
    from Cons.IH [OF this] show ?thesis
      by (auto simp: nth_Cons')
  qed
qed

lemma maxBucket_valid:
  assumes "0 < snd (maxBucket buckets)"
  shows "fst (maxBucket buckets) < length buckets"
    and "length (buckets ! fst (maxBucket buckets)) = snd (maxBucket buckets)"
proof -
  obtain i sz where eq: "maxBucket buckets = (i, sz)" by (cases "maxBucket buckets")
  from eq [unfolded maxBucket_def] have
    "(i, sz) = (0, 0) \<or> (0 \<le> i \<and> i < 0 + length buckets \<and> length (buckets ! (i - 0)) = sz)"
    by (rule maxBucket_fold)
  with assms eq show "fst (maxBucket buckets) < length buckets"
    and "length (buckets ! fst (maxBucket buckets)) = snd (maxBucket buckets)"
    by auto
qed

lemma splitBucket_pixels:
  assumes "i < length buckets"
  shows "sum_list (map length (splitBucket buckets i)) = sum_list (map length buckets)"
proof -
  have "sum_list (map length buckets)
        = sum_list (map length (take i buckets @ [buckets ! i] @ drop (Suc i) buckets))"
    using assms by (simp add: id_take_nth_drop [symmetric])
  then show ?thesis
    by (simp add: splitBucket_def Let_def)
qed

lemma splitBucket_length:
  assumes "i < length buckets"
  shows "length (splitBucket buckets i) = Suc (length buckets)"
  using assms by (simp add: splitBucket_def Let_def)

lemma medianCutLoop_pixels:
  "sum_list (map length (medianCutLoop buckets targetColors)) = sum_list (map length buckets)"
proof (induction buckets targetColors rule: medianCutLoop.induct)
  case (1 buckets targetColors)
  show ?case
  proof (cases "length buckets < targetColors \<and> \<not> snd (maxBucket buckets) \<le> 1")
    case True
    then have "fst (maxBucket buckets) < length buckets"
      using maxBucket_valid(1) [of buckets] by simp
    with True 1 show ?thesis
      by (simp add: medianCutLoop.simps [of buckets] splitBucket_pixels)
  next
    case False
    then show ?thesis
      by (auto simp: medianCutLoop.simps [of buckets])
  qed
qed

lemma medianCutLoop_length:
  "length buckets \<le> targetColors \<Longrightarrow> length (medianCutLoop buckets targetColors) \<le> targetColors"
proof (induction buckets targetColors rule: medianCutLoop.induct)
  case (1 buckets targetColors)
  show ?case
  proof (cases "length buckets < targetColors \<and> \<not> snd (maxBucket buckets) \<le> 1")
    case True
    then have "fst (maxBucket buckets) < length buckets"
      using maxBucket_valid(1) [of buckets] by simp
    with True 1 show ?thesis
      by (simp add: medianCutLoop.simps [of buckets] splitBucket_length)
  next
    case False
    with "1.prems" show ?thesis
      by (auto simp: medianCutLoop.simps [of buckets])
  qed
qed

lemma bucketColor_population:
  "sum_list (map population (List.map_filter bucketColor buckets)) = sum_list (map length buckets)"
  by (induction buckets) (auto simp: List.map_filter_simps bucketColor_def Let_def)

lemma bucketColor_length: "length (List.map_filter bucketColor buckets) \<le> length buckets"
  by (induction buckets) (auto simp: List.map_filter_simps split: option.splits)

text \<open>
  Claim C7 (quantizer). For a non-empty pixel list and a target count of at least 1,
  \<^verbatim>\<open>medianCut\<close> returns at least 1 and at most \<open>targetColors\<close> swatches, and their
  populations add up to the number of pixels.
\<close>

theorem medianCut_count_and_population:
  assumes "pixels \<noteq> []" and "1 \<le> targetColors"
  shows "1 \<le> length (medianCut pixels targetColors)
       \<and> length (medianCut pixels targetColors) \<le> targetColors
       \<and> sum_list (map population (medianCut pixels targetColors)) = length pixels"
proof -
  let ?bs = "medianCutLoop [pixels] targetColors"
  have pop: "sum_list (map population (medianCut pixels targetColors)) = length pixels"
    using assms by (simp add: medianCut_def bucketColor_population medianCutLoop_pixels)
  have "length (medianCut pixels targetColors) \<le> length ?bs"
    using assms by (simp add: medianCut_def bucketColor_length)
  also have "\<dots> \<le> targetColors"
    using assms by (intro medianCutLoop_length) simp
  finally have le: "length (medianCut pixels targetColors) \<le> targetColors" .
  have "medianCut pixels targetColors \<noteq> []"
  proof
    assume "medianCut pixels targetColors = []"
    with pop assms show False by simp
  qed
  then have "1 \<le> length (medianCut pixels targetColors)"
    by (cases "medianCut pixels targetColors") simp_all
  with le pop show ?thesis by simp
qed

theorem medianCut_count_and_population_witness:
  "[\<lparr>r = 10, g = 20, b = 30\<rparr>, \<lparr>r = 200, g = 20, b = 30\<rparr>, \<lparr>r = 90, g = 40, b = 50\<rparr>] \<noteq> []
   \<and> (1::nat) \<le> 2
   \<and> 1 \<le> length (medianCut [\<lparr>r = 10, g = 20, b = 30\<rparr>, \<lparr>r = 200, g = 20, b = 30\<rparr>,
                               \<lparr>r = 90, g = 40, b = 50\<rparr>] 2)
   \<and> length (medianCut [\<lparr>r = 10, g = 20, b = 30\<rparr>, \<lparr>r = 200, g = 20, b = 30\<rparr>,
                          \<lparr>r = 90, g = 40, b = 50\<rparr>] 2) \<le> 2
   \<and> sum_list (map population (medianCut [\<lparr>r = 10, g = 20, b = 30\<rparr>,
        \<lparr>r = 200, g = 20, b = 30\<rparr>, \<lparr>r = 90, g = 40, b = 50\<rparr>] 2)) = 3"
  using medianCut_count_and_population
    [of "[\<lparr>r = 10, g = 20, b = 30\<rparr>, \<lparr>r = 200, g = 20, b = 30\<rparr>, \<lparr>r = 90, g = 40, b = 50\<rparr>]" 2]
  by simp

subsection \<open>Removing near-duplicates\<close>

lemma mergeColor_length:
  "length (mergeColor t c acc) =
     (if list_ex (\<lambda>e. colorDistance c e < t) acc then length acc else Suc (length acc))"
  by (simp add: mergeColor_def Let_def)

lemma fold_mergeColor_length:
  "length (fold (mergeColor t) cs acc) \<le> length acc + length cs"
proof (induction cs arbitrary: acc)
  case Nil
  then show ?case by simp
next
  case (Cons c cs)
  have "length (fold (mergeColor t) cs (mergeColor t c acc)) \<le> length (mergeColor t c acc) + length cs"
    by (rule Cons.IH)
  also have "\<dots> \<le> Suc (length acc) + length cs"
    by (simp add: mergeColor_length)
  finally show ?case by simp
qed

text \<open>A run that starts from \<open>acc\<close> returns \<open>acc @ cs\<close> exactly when every swatch of
  \<open>cs\<close> is pushed, that is when none is a duplicate of what is there on its turn.\<close>

lemma fold_mergeColor_fixed:
  "fold (mergeColor t) cs acc = acc @ cs \<longleftrightarrow> separatedFrom t acc cs"
proof (induction cs arbitrary: acc)
  case Nil
  then show ?case by simp
next
  case (Cons c cs)
  show ?case
  proof (cases "list_ex (\<lambda>e. colorDistance c e < t) acc")
    case True
    have "length (fold (mergeColor t) cs (mergeColor t c acc)) \<le> length (mergeColor t c acc) + length cs"
      by (rule fold_mergeColor_length)
    with True have "length (fold (mergeColor t) (c # cs) acc) < length (acc @ c # cs)"
      by (simp add: mergeColor_length)
    then have "fold (mergeColor t) (c # cs) acc \<noteq> acc @ c # cs"
      by auto
    with True show ?thesis by simp
  next
    case False
    then have "mergeColor t c acc = acc @ [c]"
      by (simp add: mergeColor_def)
    with False Cons.IH [of "acc @ [c]"] show ?thesis by simp
  qed
qed

lemma sqrt_less_numeral [simp]: "sqrt x < numeral n \<longleftrightarrow> x < (numeral n)\<^sup>2"
  by (metis real_sqrt_less_iff real_sqrt_abs abs_numeral)

lemma removeDuplicates_first_run:
  "removeDuplicates [plainSwatch 100 100 100 4, plainSwatch 100 120 100 3, plainSwatch 100 110 100 2] 30
   = [plainSwatch 100 110 100 6, plainSwatch 100 120 100 3]"
  by (simp add: removeDuplicates_def mergeColor_def closestIndex_def colorDistance_def
      getSaturation_def Let_def enumerate_eq_zip)

lemma removeDuplicates_second_run:
  "removeDuplicates [plainSwatch 100 110 100 6, plainSwatch 100 120 100 3] 30
   = [plainSwatch 100 120 100 9]"
  by (simp add: removeDuplicates_def mergeColor_def closestIndex_def colorDistance_def
      getSaturation_def Let_def enumerate_eq_zip)

text \<open>
  Claim C4 (dedup idempotence), as stated: a second run of \<^verbatim>\<open>removeDuplicates\<close> with the
  same threshold on its own output returns that output. It fails. With threshold 30 the
  swatches (100,100,100), (100,120,100), (100,110,100) give first
  [(100,110,100) with the population of both, (100,120,100)]: the third swatch is a duplicate of the
  first and, being more saturated, takes its place. It lies at distance 20 from the second,
  so the second run merges the two into one swatch (100,120,100).
\<close>

theorem removeDuplicates_not_idempotent:
  "removeDuplicates (removeDuplicates
       [plainSwatch 100 100 100 4, plainSwatch 100 120 100 3, plainSwatch 100 110 100 2] 30) 30
   \<noteq> removeDuplicates
       [plainSwatch 100 100 100 4, plainSwatch 100 120 100 3, plainSwatch 100 110 100 2] 30"
  by (simp add: removeDuplicates_first_run removeDuplicates_second_run)

text \<open>
  Claim C4, amended: a second run of \<^verbatim>\<open>removeDuplicates\<close> with the same threshold returns
  the output of the first unchanged exactly when no swatch of that output is nearer than
  the threshold to a swatch before it; otherwise the second run merges again.
\<close>

theorem removeDuplicates_fixed_iff_separated:
  "removeDuplicates (removeDuplicates colors threshold) threshold = removeDuplicates colors threshold
   \<longleftrightarrow> separated threshold (removeDuplicates colors threshold)"
  using fold_mergeColor_fixed [of threshold "removeDuplicates colors threshold" "[]"]
  by (simp add: separated_def removeDuplicates_def [of "removeDuplicates colors threshold"])

theorem removeDuplicates_fixed_iff_separated_witness:
  "separated 30 (removeDuplicates [plainSwatch 100 100 100 4, plainSwatch 100 120 100 3] 30)
   \<and> removeDuplicates (removeDuplicates [plainSwatch 100 100 100 4, plainSwatch 100 120 100 3] 30) 30
     = removeDuplicates [plainSwatch 100 100 100 4, plainSwatch 100 120 100 3] 30"
proof -
  have run: "removeDuplicates [plainSwatch 100 100 100 4, plainSwatch 100 120 100 3] 30
             = [plainSwatch 100 100 100 4, plainSwatch 100 120 100 3]"
    by (simp add: removeDuplicates_def mergeColor_def colorDistance_def Let_def)
  have sep: "separated 30 (removeDuplicates [plainSwatch 100 100 100 4, plainSwatch 100 120 100 3] 30)"
    by (simp add: run separated_def colorDistance_def)
  with removeDuplicates_fixed_iff_separated
         [of "[plainSwatch 100 100 100 4, plainSwatch 100 120 100 3]" 30]
  show ?thesis by simp
qed

subsection \<open>The Vibrant pass\<close>











lemma extractVibrant_fold_empty:
  "fold (\<lambda>bucket vibrantColors.
             if length bucket < 5 then vibrantColors
             else let avg = vibrantCandidate bucket in
                  if \<not> vibrantIsDuplicate avg existingPalette
                     \<and> getSaturation (r avg) (g avg) (b avg) > 0.35
                  then vibrantColors @ [avg] else vibrantColors) (replicate n []) acc = acc"
  by (induction n) simp_all








subsection \<open>Parsing and validity\<close>

lemma hexVal_bound: "hexVal c = Some n \<Longrightarrow> n < 16"
  by (auto simp: hexVal_def Let_def split: if_splits)

lemma parseInt16_valid: "parseInt16 c d = Some x \<Longrightarrow> validChannel x"
  by (auto simp: parseInt16_def validChannel_def split: option.splits dest!: hexVal_bound)

lemma hexToRgb_valid:
  assumes "hexToRgb hx = Some rgb"
  shows "validChannel (r rgb) \<and> validChannel (g rgb) \<and> validChannel (b rgb)"
  using assms
  by (auto simp: hexToRgb_def split: list.splits option.splits if_splits dest: parseInt16_valid)

lemma analyze_coherent:
  assumes "validChannel (r c)" "validChannel (g c)" "validChannel (b c)"
  shows "coherent (analyze c)"
  using assms hex_roundtrip [of "r c" "g c" "b c"]
  by (simp add: coherent_def analyze_def validChannel_def)

lemma analyzed_coherent:
  "validPalette palette \<Longrightarrow> c \<in> set (map analyze palette) \<Longrightarrow> coherent c"
  by (auto simp: validPalette_def list_all_iff analyze_coherent)

lemma coherent_validHex: "coherent c \<Longrightarrow> validHex (hex c)"
  by (simp add: coherent_def validHex_def)

lemma coherent_isVibrant_update [simp]: "coherent (c\<lparr>isVibrant := v\<rparr>) = coherent c"
  by (simp add: coherent_def)

lemma first_mem: "first xs = Some x \<Longrightarrow> x \<in> set xs"
  by (cases xs) (simp_all add: first_def)

lemma first_sort_key_mem: "first (sort_key f xs) = Some x \<Longrightarrow> x \<in> set xs"
  using first_mem [of "sort_key f xs" x] by simp

lemma findBest_Some: "findBest xs P = Some c \<Longrightarrow> c \<in> set xs \<and> P c"
proof -
  assume "findBest xs P = Some c"
  then have "first (sort_key (\<lambda>c. - int (population c)) (filter P xs)) = Some c"
    by (simp add: findBest_def first_def)
  then have "c \<in> set (filter P xs)" by (rule first_sort_key_mem)
  then show ?thesis by simp
qed

lemma lockedCandidate_coherent:
  assumes "\<forall>c \<in> set xs. coherent c" and "lockedCandidate xs str = Some c"
  shows "coherent c"
proof (cases "find (\<lambda>c. toLowerCase (hex c) = toLowerCase str) xs")
  case (Some d)
  with assms(2) have "c = d" by (simp add: lockedCandidate_def)
  moreover from Some have "d \<in> set xs" by (auto simp: find_Some_iff)
  ultimately show ?thesis using assms(1) by simp
next
  case None
  with assms(2) obtain rgb where rgb: "hexToRgb str = Some rgb"
    and c: "c = \<lparr>r = r rgb, g = g rgb, b = b rgb, population = 0, isVibrant = False,
                     isBrandColor = False, hex = str,
                     luminance = getLuminance (r rgb) (g rgb) (b rgb),
                     saturation = getSaturation (r rgb) (g rgb) (b rgb)\<rparr>"
    by (auto simp: lockedCandidate_def split: option.splits)
  from hexToRgb_valid [OF rgb] rgb show ?thesis
    by (simp add: coherent_def c)
qed

lemma lockOr_coherent:
  assumes "\<forall>c \<in> set xs. coherent c" and "alt = Some c \<Longrightarrow> coherent c"
    and "lockOr xs locked alt = Some c"
  shows "coherent c"
  using assms
  by (auto simp: lockOr_def split: option.splits if_splits dest: lockedCandidate_coherent)

subsection \<open>Luminance and contrast\<close>

lemma powr_24_power5:
  assumes "0 \<le> (x::real)"
  shows "(x powr 2.4) ^ 5 = x ^ 12"
proof -
  have "(x powr 2.4) ^ 5 = (x powr 2.4) powr 5" by simp
  also have "\<dots> = x powr (2.4 * 5)" by (rule powr_powr)
  also have "\<dots> = x powr 12" by simp
  also have "\<dots> = x ^ 12" using assms by simp
  finally show ?thesis .
qed

lemma powr_24_le:
  assumes "0 \<le> (x::real)" "0 \<le> y" "x ^ 12 \<le> y ^ 5"
  shows "x powr 2.4 \<le> y"
proof -
  have "(x powr 2.4) ^ 5 \<le> y ^ 5"
    using assms(3) by (simp only: powr_24_power5 [OF assms(1)])
  then show ?thesis
    using assms(2) by (rule power_le_imp_le_base [where n = 4, simplified])
qed

lemma powr_24_ge:
  assumes "0 \<le> (x::real)" "y ^ 5 \<le> x ^ 12"
  shows "y \<le> x powr 2.4"
proof -
  have "y ^ 5 \<le> (x powr 2.4) ^ 5"
    using assms(2) by (simp only: powr_24_power5 [OF assms(1)])
  then show ?thesis
    by (rule power_le_imp_le_base [where n = 4, simplified]) simp
qed

lemma linearize_nonneg: "0 \<le> c \<Longrightarrow> 0 \<le> linearize c"
  by (simp add: linearize_def Let_def)

lemma linearize_le_1:
  assumes "0 \<le> c" "c \<le> 255"
  shows "linearize c \<le> 1"
proof -
  have *: "real_of_int c / 255 \<le> 1" using assms by simp
  have "((real_of_int c / 255 + 0.055) / 1.055) ^ 12 \<le> 1"
    using assms * by (intro power_le_one) simp_all
  then have "((real_of_int c / 255 + 0.055) / 1.055) powr 2.4 \<le> 1"
    using assms by (intro powr_24_le) simp_all
  moreover have "real_of_int c / 255 / 12.92 \<le> 1" using * assms by simp
  ultimately show ?thesis
    by (simp add: linearize_def Let_def)
qed

lemma linearize_0 [simp]: "linearize 0 = 0"
  by (simp add: linearize_def)

lemma linearize_255 [simp]: "linearize 255 = 1"
  by (simp add: linearize_def)

lemma getLuminance_gray: "getLuminance v v v = linearize v"
  by (simp add: getLuminance_def algebra_simps)

lemma getLuminance_nonneg:
  "validChannel x \<Longrightarrow> validChannel y \<Longrightarrow> validChannel z \<Longrightarrow> 0 \<le> getLuminance x y z"
  by (simp add: getLuminance_def validChannel_def linearize_nonneg)

lemma getLuminance_le_1:
  assumes "validChannel x" "validChannel y" "validChannel z"
  shows "getLuminance x y z \<le> 1"
proof -
  from assms have "linearize x \<le> 1" "linearize y \<le> 1" "linearize z \<le> 1"
    by (simp_all add: validChannel_def linearize_le_1)
  then show ?thesis by (simp add: getLuminance_def)
qed

text \<open>Upper bounds for the dark grays and lower bounds for the light grays among the
  fallback constants.\<close>

lemma linearize_upper:
  assumes "0 \<le> c" "c \<le> 255" "((real_of_int c / 255 + 0.055) / 1.055) ^ 12 \<le> y ^ 5"
    "real_of_int c / 255 / 12.92 \<le> y" "0 \<le> y"
  shows "linearize c \<le> y"
proof (cases "real_of_int c / 255 \<le> 0.03928")
  case True
  with assms show ?thesis by (simp add: linearize_def Let_def)
next
  case False
  moreover have "((real_of_int c / 255 + 0.055) / 1.055) powr 2.4 \<le> y"
    using assms by (intro powr_24_le) simp_all
  ultimately show ?thesis by (simp add: linearize_def Let_def)
qed

lemma linearize_lower:
  assumes "0.03928 < real_of_int c / 255" "y ^ 5 \<le> ((real_of_int c / 255 + 0.055) / 1.055) ^ 12"
  shows "y \<le> linearize c"
proof -
  have "0 \<le> real_of_int c" using assms(1) by simp
  then have "y \<le> ((real_of_int c / 255 + 0.055) / 1.055) powr 2.4"
    using assms by (intro powr_24_ge) simp_all
  with assms(1) show ?thesis by (simp add: linearize_def Let_def)
qed

lemma lin_11: "linearize 11 \<le> 0.0034" and lin_11': "0.0033 \<le> linearize 11"
  by (rule linearize_upper; simp add: power_divide) (rule linearize_lower; simp add: power_divide)

lemma lin_20: "linearize 20 \<le> 0.0071" and lin_20': "0.0069 \<le> linearize 20"
  by (rule linearize_upper; simp add: power_divide) (rule linearize_lower; simp add: power_divide)

lemma lin_128: "linearize 128 \<le> 0.2159" and lin_128': "0.2158 \<le> linearize 128"
  by (rule linearize_upper; simp add: power_divide) (rule linearize_lower; simp add: power_divide)

lemma getContrastRatio_eq:
  "getContrastRatio x y =
     (max (getLuminance (r x) (g x) (b x)) (getLuminance (r y) (g y) (b y)) + 0.05)
     / (min (getLuminance (r x) (g x) (b x)) (getLuminance (r y) (g y) (b y)) + 0.05)"
  by (simp add: getContrastRatio_def Let_def)

lemma contrast_dark_on_light:
  assumes "0 \<le> getLuminance (r x) (g x) (b x)" "getLuminance (r x) (g x) (b x) \<le> 0.15"
    and "0.85 \<le> getLuminance (r y) (g y) (b y)"
  shows "4.5 \<le> getContrastRatio x y"
  using assms by (simp add: getContrastRatio_eq max_def min_def field_simps)

lemma contrast_light_on_dark:
  assumes "0.5 \<le> getLuminance (r x) (g x) (b x)"
    and "0 \<le> getLuminance (r y) (g y) (b y)" "getLuminance (r y) (g y) (b y) \<le> 0.05"
  shows "4.5 \<le> getContrastRatio x y"
  using assms by (simp add: getContrastRatio_eq max_def min_def field_simps)

lemma luminance_white [simp]: "getLuminance 255 255 255 = 1"
  by (simp add: getLuminance_gray)

lemma luminance_black [simp]: "getLuminance 0 0 0 = 0"
  by (simp add: getLuminance_gray)

lemma white_or_black:
  assumes "0 \<le> getLuminance (r x) (g x) (b x)"
  shows "4.5 \<le> getContrastRatio x white \<or> 4.5 \<le> getContrastRatio x black"
  using assms
  by (simp add: getContrastRatio_eq white_def black_def max_def min_def field_simps) argo

lemma ensureContrast_result:
  assumes fl: "hexToRgb fl = Some lrgb" and fd: "hexToRgb fd = Some drgb"
    and cand: "\<And>c. cand = Some c \<Longrightarrow> validHex c"
  obtains res where "ensureContrast cand bgRgb m fl fd = Some res"
    and "res = fl \<or> res = fd \<or> cand = Some res"
    and "hasContrast res bgRgb m
         \<or> (getContrastRatio lrgb bgRgb < m \<and> getContrastRatio drgb bgRgb < m)"
proof (cases "\<exists>c rgb. cand = Some c \<and> c \<noteq> [] \<and> hexToRgb c = Some rgb
                 \<and> getContrastRatio rgb bgRgb \<ge> m")
  case True
  then obtain c rgb where c: "cand = Some c" "c \<noteq> []" "hexToRgb c = Some rgb"
    "getContrastRatio rgb bgRgb \<ge> m" by blast
  then have "ensureContrast cand bgRgb m fl fd = Some c"
    by (simp add: ensureContrast_def)
  moreover have "hasContrast c bgRgb m" using c by (simp add: hasContrast_def)
  ultimately show ?thesis using c(1) that by blast
next
  case False
  have passes: "(case cand of
                    None \<Rightarrow> Some False
                  | Some c \<Rightarrow>
                      if c = [] then Some False
                      else do {
                        candidateRgb \<leftarrow> hexToRgb c;
                        Some (getContrastRatio candidateRgb bgRgb \<ge> m)
                      }) = Some False"
  proof (cases cand)
    case None
    then show ?thesis by simp
  next
    case (Some c)
    with cand obtain rgb where "hexToRgb c = Some rgb" by (auto simp: validHex_def)
    with Some False show ?thesis by auto
  qed
  let ?res = "if getContrastRatio lrgb bgRgb \<ge> m then fl
              else if getContrastRatio drgb bgRgb \<ge> m then fd
              else if getContrastRatio lrgb bgRgb > getContrastRatio drgb bgRgb then fl else fd"
  have "ensureContrast cand bgRgb m fl fd = Some ?res"
    unfolding ensureContrast_def passes by (simp add: fl fd Let_def)
  moreover have "?res = fl \<or> ?res = fd" by simp
  moreover have "hasContrast ?res bgRgb m
         \<or> (getContrastRatio lrgb bgRgb < m \<and> getContrastRatio drgb bgRgb < m)"
    by (auto simp: hasContrast_def fl fd)
  ultimately show ?thesis using that by blast
qed

subsection \<open>The fallback constants\<close>

lemma parse_gray:
  "hexToRgb ''#1a1a1a'' = Some \<lparr>r = 26, g = 26, b = 26\<rparr>"
  "hexToRgb ''#000000'' = Some \<lparr>r = 0, g = 0, b = 0\<rparr>"
  "hexToRgb ''#333333'' = Some \<lparr>r = 51, g = 51, b = 51\<rparr>"
  "hexToRgb ''#111111'' = Some \<lparr>r = 17, g = 17, b = 17\<rparr>"
  "hexToRgb ''#444444'' = Some \<lparr>r = 68, g = 68, b = 68\<rparr>"
  "hexToRgb ''#555555'' = Some \<lparr>r = 85, g = 85, b = 85\<rparr>"
  "hexToRgb ''#ffffff'' = Some \<lparr>r = 255, g = 255, b = 255\<rparr>"
  "hexToRgb ''#e8e8e8'' = Some \<lparr>r = 232, g = 232, b = 232\<rparr>"
  "hexToRgb ''#f0f0f0'' = Some \<lparr>r = 240, g = 240, b = 240\<rparr>"
  "hexToRgb ''#d4d4d4'' = Some \<lparr>r = 212, g = 212, b = 212\<rparr>"
  "hexToRgb ''#c0c0c0'' = Some \<lparr>r = 192, g = 192, b = 192\<rparr>"
  "hexToRgb ''#d0d0d0'' = Some \<lparr>r = 208, g = 208, b = 208\<rparr>"
  "hexToRgb ''#b8b8b8'' = Some \<lparr>r = 184, g = 184, b = 184\<rparr>"
  "hexToRgb ''#f7f7f7'' = Some \<lparr>r = 247, g = 247, b = 247\<rparr>"
  "hexToRgb ''#e0e0e0'' = Some \<lparr>r = 224, g = 224, b = 224\<rparr>"
  "hexToRgb ''#0b0b0b'' = Some \<lparr>r = 11, g = 11, b = 11\<rparr>"
  "hexToRgb ''#141414'' = Some \<lparr>r = 20, g = 20, b = 20\<rparr>"
  "hexToRgb ''#2a2a2a'' = Some \<lparr>r = 42, g = 42, b = 42\<rparr>"
  "hexToRgb ''#0071e3'' = Some \<lparr>r = 0, g = 113, b = 227\<rparr>"
  "hexToRgb ''#409cff'' = Some \<lparr>r = 64, g = 156, b = 255\<rparr>"
  by (simp_all add: hexToRgb_def parseInt16_def hexVal_def)

lemma valid_constants:
  "validHex ''#1a1a1a''" "validHex ''#000000''" "validHex ''#333333''" "validHex ''#111111''"
  "validHex ''#444444''" "validHex ''#555555''" "validHex ''#ffffff''" "validHex ''#e8e8e8''"
  "validHex ''#f0f0f0''" "validHex ''#d4d4d4''" "validHex ''#c0c0c0''" "validHex ''#d0d0d0''"
  "validHex ''#b8b8b8''" "validHex ''#f7f7f7''" "validHex ''#e0e0e0''" "validHex ''#0b0b0b''"
  "validHex ''#141414''" "validHex ''#2a2a2a''" "validHex ''#0071e3''" "validHex ''#409cff''"
  by (simp_all add: validHex_def parse_gray)

lemma dark_gray_luminance:
  "linearize 26 \<le> 0.15" "linearize 51 \<le> 0.15" "linearize 68 \<le> 0.15"
  by (rule linearize_upper; simp add: power_divide)+

lemma light_gray_luminance:
  "0.5 \<le> linearize 240" "0.5 \<le> linearize 192"
  by (rule linearize_lower; simp add: power_divide)+

lemma dark_gray_on_light:
  assumes "0.85 \<le> getLuminance (r sr) (g sr) (b sr)" and "0 \<le> v" and "linearize v \<le> 0.15"
  shows "4.5 \<le> getContrastRatio \<lparr>r = v, g = v, b = v\<rparr> sr"
  by (rule contrast_dark_on_light) (use assms in \<open>simp_all add: getLuminance_gray linearize_nonneg\<close>)

lemma dark_fallbacks_on_light:
  assumes "0.85 \<le> getLuminance (r sr) (g sr) (b sr)"
  shows "hasContrast ''#1a1a1a'' sr 4.5" "hasContrast ''#333333'' sr 4.5"
    "hasContrast ''#444444'' sr 4.5"
  using dark_gray_on_light [OF assms _ dark_gray_luminance(1)]
    dark_gray_on_light [OF assms _ dark_gray_luminance(2)]
    dark_gray_on_light [OF assms _ dark_gray_luminance(3)]
  by (simp_all add: hasContrast_def parse_gray)

lemma light_gray_on_dark:
  assumes "0 \<le> getLuminance (r sr) (g sr) (b sr)" "getLuminance (r sr) (g sr) (b sr) \<le> 0.05"
    and "0.5 \<le> linearize v"
  shows "4.5 \<le> getContrastRatio \<lparr>r = v, g = v, b = v\<rparr> sr"
  by (rule contrast_light_on_dark) (use assms in \<open>simp_all add: getLuminance_gray\<close>)

lemma light_fallbacks_on_dark:
  assumes "0 \<le> getLuminance (r sr) (g sr) (b sr)" "getLuminance (r sr) (g sr) (b sr) \<le> 0.05"
  shows "hasContrast ''#ffffff'' sr 4.5" "hasContrast ''#f0f0f0'' sr 4.5"
    "hasContrast ''#c0c0c0'' sr 4.5"
  using light_gray_on_dark [OF assms, of 255] light_gray_on_dark [OF assms light_gray_luminance(1)]
    light_gray_on_dark [OF assms light_gray_luminance(2)]
  by (simp_all add: hasContrast_def parse_gray)

subsection \<open>Heading and text\<close>

lemma validHex_nonempty: "validHex hx \<Longrightarrow> hx \<noteq> []"
  by (auto simp: validHex_def hexToRgb_def)

lemma luminanceOfHex_valid: "validHex hx \<Longrightarrow> \<exists>lum. luminanceOfHex hx = Some lum"
  by (auto simp: validHex_def luminanceOfHex_def)

lemma candidate_hex_valid:
  assumes "\<forall>c \<in> set xs. coherent c" and "set cands \<subseteq> set xs"
    and "map_option hex (first cands) = Some hx"
  shows "validHex hx"
proof -
  from assms(3) obtain c where "first cands = Some c" "hx = hex c" by auto
  with assms(1,2) first_mem [of cands c] show ?thesis
    by (auto intro: coherent_validHex)
qed

lemma text_candidate_hex_valid:
  assumes "\<forall>c \<in> set xs. coherent c" and "set cands \<subseteq> set xs"
    and "map_option hex (case find P cands of Some c \<Rightarrow> Some c | None \<Rightarrow> first cands) = Some hx"
  shows "validHex hx"
proof (cases "find P cands")
  case None
  with assms show ?thesis by (auto intro: candidate_hex_valid)
next
  case (Some c)
  then have "c \<in> set cands" by (auto simp: find_Some_iff)
  with Some assms show ?thesis by (auto intro: coherent_validHex)
qed

lemma ensureContrast_ex:
  assumes "hexToRgb fl = Some lrgb" and "hexToRgb fd = Some drgb"
    and "\<And>c. cand = Some c \<Longrightarrow> validHex c"
  shows "\<exists>res. ensureContrast cand bgRgb m fl fd = Some res
     \<and> (res = fl \<or> res = fd \<or> cand = Some res)
     \<and> (hasContrast res bgRgb m
         \<or> (getContrastRatio lrgb bgRgb < m \<and> getContrastRatio drgb bgRgb < m))"
proof (rule ensureContrast_result [where bgRgb = bgRgb and m = m, OF assms])
  fix res
  assume "ensureContrast cand bgRgb m fl fd = Some res"
    and "res = fl \<or> res = fd \<or> cand = Some res"
    and "hasContrast res bgRgb m
         \<or> (getContrastRatio lrgb bgRgb < m \<and> getContrastRatio drgb bgRgb < m)"
  then show ?thesis by (intro exI [of _ res]) simp
qed

lemma lightHeadingText_result:
  assumes coh: "\<forall>c \<in> set xs. coherent c"
  obtains hd tx where "lightHeadingText xs surfaceRgb = Some (hd, tx)"
    and "validHex hd" and "validHex tx" and "hd \<noteq> tx"
    and "\<And>sr. surfaceRgb = Some sr \<Longrightarrow> 0.85 \<le> getLuminance (r sr) (g sr) (b sr)
           \<Longrightarrow> hasContrast hd sr 4.5 \<and> hasContrast tx sr 4.5"
proof -
  let ?cands = "lightHeadingCandidates xs surfaceRgb"
  let ?bgr = "case surfaceRgb of Some sr \<Rightarrow> sr | None \<Rightarrow> white"
  let ?hc = "map_option hex (first ?cands)"
  let ?tc = "map_option hex (case find (\<lambda>c. Some (hex c) \<noteq> ?hc) ?cands of
                               Some c \<Rightarrow> Some c | None \<Rightarrow> first ?cands)"
  have sub: "set ?cands \<subseteq> set xs"
    by (auto simp: lightHeadingCandidates_def)
  from ensureContrast_ex [where cand = "?hc" and bgRgb = "?bgr" and m = "4.5",
      OF parse_gray(1) parse_gray(2) candidate_hex_valid [OF coh sub]]
  obtain h1 where h1all: "ensureContrast ?hc ?bgr 4.5 ''#1a1a1a'' ''#000000'' = Some h1
    \<and> (h1 = ''#1a1a1a'' \<or> h1 = ''#000000'' \<or> ?hc = Some h1)
    \<and> (hasContrast h1 ?bgr 4.5
              \<or> (getContrastRatio \<lparr>r = 26, g = 26, b = 26\<rparr> ?bgr < 4.5
                 \<and> getContrastRatio \<lparr>r = 0, g = 0, b = 0\<rparr> ?bgr < 4.5))" ..
  note h1 = h1all [THEN conjunct1] and h1c = h1all [THEN conjunct2, THEN conjunct1]
    and h1p = h1all [THEN conjunct2, THEN conjunct2]
  from ensureContrast_ex [where cand = "?tc" and bgRgb = "?bgr" and m = "4.5",
      OF parse_gray(3) parse_gray(4) text_candidate_hex_valid [OF coh sub]]
  obtain t1 where t1all: "ensureContrast ?tc ?bgr 4.5 ''#333333'' ''#111111'' = Some t1
    \<and> (t1 = ''#333333'' \<or> t1 = ''#111111'' \<or> ?tc = Some t1)
    \<and> (hasContrast t1 ?bgr 4.5
              \<or> (getContrastRatio \<lparr>r = 51, g = 51, b = 51\<rparr> ?bgr < 4.5
                 \<and> getContrastRatio \<lparr>r = 17, g = 17, b = 17\<rparr> ?bgr < 4.5))" ..
  note t1 = t1all [THEN conjunct1] and t1c = t1all [THEN conjunct2, THEN conjunct1]
    and t1p = t1all [THEN conjunct2, THEN conjunct2]
  have vh: "validHex h1"
    using h1c candidate_hex_valid [OF coh sub] valid_constants by blast
  have vt: "validHex t1"
    using t1c text_candidate_hex_valid [OF coh sub] valid_constants by blast
  from vh vt obtain lh lt where lum: "luminanceOfHex h1 = Some lh" "luminanceOfHex t1 = Some lt"
    using luminanceOfHex_valid by blast
  let ?sw = "if lt < lh then (t1, h1) else (h1, t1)"
  let ?res = "if fst ?sw = snd ?sw then (''#1a1a1a'', ''#444444'') else ?sw"
  have run: "lightHeadingText xs surfaceRgb = Some ?res"
    unfolding lightHeadingText_def Let_def h1 t1
    using validHex_nonempty [OF vh] validHex_nonempty [OF vt]
    by (simp add: lum)
  have contrast: "hasContrast (fst ?res) sr 4.5 \<and> hasContrast (snd ?res) sr 4.5"
    if sr: "surfaceRgb = Some sr" and hi: "0.85 \<le> getLuminance (r sr) (g sr) (b sr)" for sr
  proof -
    from h1p sr dark_gray_on_light [OF hi _ dark_gray_luminance(1)]
    have "hasContrast h1 sr 4.5" by auto
    moreover from t1p sr dark_gray_on_light [OF hi _ dark_gray_luminance(2)]
    have "hasContrast t1 sr 4.5" by auto
    ultimately show ?thesis
      using dark_fallbacks_on_light [OF hi] by auto
  qed
  show ?thesis
  proof (rule that [of "fst ?res" "snd ?res"])
    show "lightHeadingText xs surfaceRgb = Some (fst ?res, snd ?res)"
      using run by simp
    show "validHex (fst ?res)" "validHex (snd ?res)"
      using vh vt valid_constants by auto
    show "fst ?res \<noteq> snd ?res" by auto
    show "hasContrast (fst ?res) sr 4.5 \<and> hasContrast (snd ?res) sr 4.5"
      if "surfaceRgb = Some sr" "0.85 \<le> getLuminance (r sr) (g sr) (b sr)" for sr
      using contrast [OF that] .
  qed
qed

lemma darkHeadingText_result:
  assumes coh: "\<forall>c \<in> set xs. coherent c"
  obtains hd tx where "darkHeadingText xs surfaceRgb = Some (hd, tx)"
    and "validHex hd" and "validHex tx" and "hd \<noteq> tx"
    and "\<And>sr. surfaceRgb = Some sr \<Longrightarrow> 0 \<le> getLuminance (r sr) (g sr) (b sr)
           \<Longrightarrow> getLuminance (r sr) (g sr) (b sr) \<le> 0.05
           \<Longrightarrow> hasContrast hd sr 4.5 \<and> hasContrast tx sr 4.5"
proof -
  let ?cands = "darkHeadingCandidates xs surfaceRgb"
  let ?bgr = "case surfaceRgb of Some sr \<Rightarrow> sr | None \<Rightarrow> nearBlack"
  let ?hc = "map_option hex (first ?cands)"
  let ?tc = "map_option hex (case find (\<lambda>c. Some (hex c) \<noteq> ?hc) ?cands of
                               Some c \<Rightarrow> Some c | None \<Rightarrow> first ?cands)"
  have sub: "set ?cands \<subseteq> set xs"
    by (auto simp: darkHeadingCandidates_def)
  from ensureContrast_ex [where cand = "?hc" and bgRgb = "?bgr" and m = "4.5",
      OF parse_gray(7) parse_gray(8) candidate_hex_valid [OF coh sub]]
  obtain h1 where h1all: "ensureContrast ?hc ?bgr 4.5 ''#ffffff'' ''#e8e8e8'' = Some h1
    \<and> (h1 = ''#ffffff'' \<or> h1 = ''#e8e8e8'' \<or> ?hc = Some h1)
    \<and> (hasContrast h1 ?bgr 4.5
              \<or> (getContrastRatio \<lparr>r = 255, g = 255, b = 255\<rparr> ?bgr < 4.5
                 \<and> getContrastRatio \<lparr>r = 232, g = 232, b = 232\<rparr> ?bgr < 4.5))" ..
  note h1 = h1all [THEN conjunct1] and h1c = h1all [THEN conjunct2, THEN conjunct1]
    and h1p = h1all [THEN conjunct2, THEN conjunct2]
  from ensureContrast_ex [where cand = "?tc" and bgRgb = "?bgr" and m = "4.5",
      OF parse_gray(9) parse_gray(10) text_candidate_hex_valid [OF coh sub]]
  obtain t1 where t1all: "ensureContrast ?tc ?bgr 4.5 ''#f0f0f0'' ''#d4d4d4'' = Some t1
    \<and> (t1 = ''#f0f0f0'' \<or> t1 = ''#d4d4d4'' \<or> ?tc = Some t1)
    \<and> (hasContrast t1 ?bgr 4.5
              \<or> (getContrastRatio \<lparr>r = 240, g = 240, b = 240\<rparr> ?bgr < 4.5
                 \<and> getContrastRatio \<lparr>r = 212, g = 212, b = 212\<rparr> ?bgr < 4.5))" ..
  note t1 = t1all [THEN conjunct1] and t1c = t1all [THEN conjunct2, THEN conjunct1]
    and t1p = t1all [THEN conjunct2, THEN conjunct2]
  have vh: "validHex h1"
    using h1c candidate_hex_valid [OF coh sub] valid_constants by blast
  have vt: "validHex t1"
    using t1c text_candidate_hex_valid [OF coh sub] valid_constants by blast
  from vh vt obtain lh lt where lum: "luminanceOfHex h1 = Some lh" "luminanceOfHex t1 = Some lt"
    using luminanceOfHex_valid by blast
  let ?sw = "if lt > lh then (t1, h1) else (h1, t1)"
  let ?res = "if fst ?sw = snd ?sw then (''#ffffff'', ''#c0c0c0'') else ?sw"
  have run: "darkHeadingText xs surfaceRgb = Some ?res"
    unfolding darkHeadingText_def Let_def h1 t1
    using validHex_nonempty [OF vh] validHex_nonempty [OF vt]
    by (simp add: lum)
  have contrast: "hasContrast (fst ?res) sr 4.5 \<and> hasContrast (snd ?res) sr 4.5"
    if sr: "surfaceRgb = Some sr" and lo: "0 \<le> getLuminance (r sr) (g sr) (b sr)"
      "getLuminance (r sr) (g sr) (b sr) \<le> 0.05" for sr
  proof -
    from h1p sr light_gray_on_dark [OF lo, of 255]
    have "hasContrast h1 sr 4.5" by auto
    moreover from t1p sr light_gray_on_dark [OF lo light_gray_luminance(1)]
    have "hasContrast t1 sr 4.5" by auto
    ultimately show ?thesis
      using light_fallbacks_on_dark [OF lo] by auto
  qed
  show ?thesis
  proof (rule that [of "fst ?res" "snd ?res"])
    show "darkHeadingText xs surfaceRgb = Some (fst ?res, snd ?res)"
      using run by simp
    show "validHex (fst ?res)" "validHex (snd ?res)"
      using vh vt valid_constants by auto
    show "fst ?res \<noteq> snd ?res" by auto
    show "hasContrast (fst ?res) sr 4.5 \<and> hasContrast (snd ?res) sr 4.5"
      if "surfaceRgb = Some sr" "0 \<le> getLuminance (r sr) (g sr) (b sr)"
        "getLuminance (r sr) (g sr) (b sr) \<le> 0.05" for sr
      using contrast [OF that] .
  qed
qed

subsection \<open>Muted text and the validated background\<close>

lemma lightMutedText_result:
  assumes coh: "\<forall>c \<in> set xs. coherent c" and tx: "validHex tx"
  obtains mt where "lightMutedText xs surfaceRgb hdg tx = Some mt" and "validHex mt"
proof -
  from tx obtain lt where lt: "luminanceOfHex tx = Some lt"
    using luminanceOfHex_valid by blast
  let ?cands = "sort_key (\<lambda>c. - ((1 - \<bar>luminance c - 0.4\<bar>) - saturation c))
               (filter (\<lambda>c. if saturation c > 0.25 then False
                             else case surfaceRgb of
                                    None \<Rightarrow> luminance c > 0.2 \<and> luminance c < 0.5
                                  | Some sr \<Rightarrow>
                                      (let contrast = getContrastRatio c sr in
                                       contrast \<ge> 4 \<and> contrast < 7
                                       \<and> luminance c > lt
                                       \<and> hex c \<noteq> hdg \<and> hex c \<noteq> tx))
                       xs)"
  let ?bgr = "case surfaceRgb of Some sr \<Rightarrow> sr | None \<Rightarrow> white"
  have sub: "set ?cands \<subseteq> set xs" by auto
  from ensureContrast_ex [where cand = "map_option hex (first ?cands)" and bgRgb = "?bgr"
      and m = "5.5", OF parse_gray(6) parse_gray(5) candidate_hex_valid [OF coh sub]]
  obtain mt where mtall: "ensureContrast (map_option hex (first ?cands)) ?bgr 5.5
       ''#555555'' ''#444444'' = Some mt
    \<and> (mt = ''#555555'' \<or> mt = ''#444444'' \<or> map_option hex (first ?cands) = Some mt)
    \<and> (hasContrast mt ?bgr 5.5
              \<or> (getContrastRatio \<lparr>r = 85, g = 85, b = 85\<rparr> ?bgr < 5.5
                 \<and> getContrastRatio \<lparr>r = 68, g = 68, b = 68\<rparr> ?bgr < 5.5))" ..
  have "lightMutedText xs surfaceRgb hdg tx = Some mt"
    unfolding lightMutedText_def
    using validHex_nonempty [OF tx] mtall [THEN conjunct1]
    by (simp add: lt)
  moreover have "validHex mt"
    using mtall [THEN conjunct2, THEN conjunct1] candidate_hex_valid [OF coh sub] valid_constants
    by blast
  ultimately show ?thesis using that by blast
qed

lemma darkMutedText_result:
  assumes coh: "\<forall>c \<in> set xs. coherent c" and tx: "validHex tx"
  obtains mt where "darkMutedText xs surfaceRgb hdg tx = Some mt" and "validHex mt"
proof -
  from tx obtain lt where lt: "luminanceOfHex tx = Some lt"
    using luminanceOfHex_valid by blast
  let ?cands = "sort_key (\<lambda>c. - ((1 - \<bar>luminance c - 0.5\<bar>) - saturation c))
               (filter (\<lambda>c. if saturation c > 0.25 then False
                             else case surfaceRgb of
                                    None \<Rightarrow> luminance c > 0.3 \<and> luminance c < 0.6
                                  | Some sr \<Rightarrow>
                                      (let contrast = getContrastRatio c sr in
                                       contrast \<ge> 4 \<and> contrast < 10
                                       \<and> luminance c < lt
                                       \<and> hex c \<noteq> hdg \<and> hex c \<noteq> tx))
                       xs)"
  let ?bgr = "case surfaceRgb of Some sr \<Rightarrow> sr | None \<Rightarrow> nearBlack"
  have sub: "set ?cands \<subseteq> set xs" by auto
  from ensureContrast_ex [where cand = "map_option hex (first ?cands)" and bgRgb = "?bgr"
      and m = "5.5", OF parse_gray(12) parse_gray(13) candidate_hex_valid [OF coh sub]]
  obtain mt where mtall: "ensureContrast (map_option hex (first ?cands)) ?bgr 5.5
       ''#d0d0d0'' ''#b8b8b8'' = Some mt
    \<and> (mt = ''#d0d0d0'' \<or> mt = ''#b8b8b8'' \<or> map_option hex (first ?cands) = Some mt)
    \<and> (hasContrast mt ?bgr 5.5
              \<or> (getContrastRatio \<lparr>r = 208, g = 208, b = 208\<rparr> ?bgr < 5.5
                 \<and> getContrastRatio \<lparr>r = 184, g = 184, b = 184\<rparr> ?bgr < 5.5))" ..
  have "darkMutedText xs surfaceRgb hdg tx = Some mt"
    unfolding darkMutedText_def
    using validHex_nonempty [OF tx] mtall [THEN conjunct1]
    by (simp add: lt)
  moreover have "validHex mt"
    using mtall [THEN conjunct2, THEN conjunct1] candidate_hex_valid [OF coh sub] valid_constants
    by blast
  ultimately show ?thesis using that by blast
qed

lemma sorted_head_valid:
  assumes "\<forall>c \<in> set xs. coherent c"
  shows "validHex (case sort_key f (filter P xs) of [] \<Rightarrow> fallback | c # _ \<Rightarrow> hex c)
         \<or> (case sort_key f (filter P xs) of [] \<Rightarrow> fallback | c # _ \<Rightarrow> hex c) = fallback"
proof (cases "sort_key f (filter P xs)")
  case Nil
  then show ?thesis by simp
next
  case (Cons c cs)
  then have "c \<in> set (sort_key f (filter P xs))" by simp
  then have "c \<in> set xs" by simp
  with assms Cons show ?thesis by (simp add: coherent_validHex)
qed

lemma sorted_head_valid':
  assumes "\<forall>c \<in> set xs. coherent c" and "validHex fallback"
  shows "validHex (case sort_key f (filter P xs) of [] \<Rightarrow> fallback | c # _ \<Rightarrow> hex c)"
  using sorted_head_valid [OF assms(1), where f = f and P = P and fallback = fallback] assms(2)
  by auto

lemma lightBgValidated_valid:
  assumes "\<forall>c \<in> set xs. coherent c" and "validHex bgHex"
  shows "validHex (lightBgValidated xs locked bgHex hdg tx mt)"
  unfolding lightBgValidated_def Let_def
  by (simp only: sorted_head_valid' [OF assms(1) valid_constants(14)] assms(2) if_split) simp

lemma darkBgValidated_valid:
  assumes "\<forall>c \<in> set xs. coherent c" and "validHex bgHex"
  shows "validHex (darkBgValidated xs locked bgHex hdg tx mt)"
  unfolding darkBgValidated_def Let_def
  by (simp only: sorted_head_valid' [OF assms(1) valid_constants(16)] assms(2) if_split) simp

lemma useColor_valid:
  assumes "\<And>c. cand = Some c \<Longrightarrow> coherent c" and "validHex fallback"
  shows "validHex (useColor cand fallback)"
  using assms by (cases cand) (simp_all add: useColor_def coherent_validHex)

lemma findBest_coherent:
  "\<forall>c \<in> set xs. coherent c \<Longrightarrow> findBest xs P = Some c \<Longrightarrow> coherent c"
  by (auto dest: findBest_Some)

subsection \<open>The primary\<close>

lemma findMostVibrantVariant_fold:
  "fst (fold (\<lambda>p (bestMatch, bestSaturation).
                   if isSimilarHue colorHsl (rgbToHsl (r p) (g p) (b p)) 35
                      \<and> s (rgbToHsl (r p) (g p) (b p)) > bestSaturation
                      \<and> l (rgbToHsl (r p) (g p) (b p)) > 0.25
                      \<and> l (rgbToHsl (r p) (g p) (b p)) < 0.75
                   then (p, s (rgbToHsl (r p) (g p) (b p))) else (bestMatch, bestSaturation))
             palette (m0, s0))
   \<in> insert m0 (set palette)"
  by (induction palette arbitrary: m0 s0) auto

lemma findMostVibrantVariant_valid:
  assumes "validPalette palette"
    and "validChannel (r color)" "validChannel (g color)" "validChannel (b color)"
  shows "validChannel (r (findMostVibrantVariant color palette))
       \<and> validChannel (g (findMostVibrantVariant color palette))
       \<and> validChannel (b (findMostVibrantVariant color palette))"
proof -
  let ?base = "\<lparr>r = r color, g = g color, b = b color, population = 0, isVibrant = False,
                  isBrandColor = False\<rparr>"
  have "findMostVibrantVariant color palette \<in> insert ?base (set palette)"
    unfolding findMostVibrantVariant_def Let_def by (rule findMostVibrantVariant_fold)
  with assms show ?thesis
    by (auto simp: validPalette_def list_all_iff)
qed

lemma coherent_lightDefaultPrimary: "coherent lightDefaultPrimary"
  by (simp add: coherent_def lightDefaultPrimary_def validChannel_def parse_gray)

lemma coherent_darkDefaultPrimary: "coherent darkDefaultPrimary"
  by (simp add: coherent_def darkDefaultPrimary_def validChannel_def parse_gray)

lemma first_sorted_filter_coherent:
  assumes "\<forall>c \<in> set xs. coherent c" and "first (sort_key f (filter P xs)) = Some c"
  shows "coherent c"
  using assms first_sort_key_mem [of f "filter P xs" c] by auto

lemma first_sorted_map_coherent:
  assumes "\<forall>c \<in> set xs. coherent c"
    and "first (sort_key f (map (\<lambda>c. c\<lparr>isVibrant := v c\<rparr>) (filter P xs))) = Some c"
  shows "coherent c"
  using assms first_sort_key_mem [of f "map (\<lambda>c. c\<lparr>isVibrant := v c\<rparr>) (filter P xs)" c] by auto

lemma variant_step:
  assumes pal: "validPalette palette" and p: "coherent p"
  shows "\<exists>q. (if G then
           do {
             rgb \<leftarrow> hexToRgb (hex p);
             Some (if cond rgb then analyze (findMostVibrantVariant rgb palette) else p)
           }
         else Some p) = Some q \<and> coherent q"
proof -
  from p have rgb: "hexToRgb (hex p) = Some \<lparr>r = r p, g = g p, b = b p\<rparr>"
    by (simp add: coherent_def)
  from p have "validChannel (r p)" "validChannel (g p)" "validChannel (b p)"
    by (simp_all add: coherent_def)
  then have "coherent (analyze (findMostVibrantVariant \<lparr>r = r p, g = g p, b = b p\<rparr> palette))"
    using findMostVibrantVariant_valid [OF pal, of "\<lparr>r = r p, g = g p, b = b p\<rparr>"]
    by (intro analyze_coherent) simp_all
  with p rgb show ?thesis by simp
qed

lemma cascade_coherent:
  assumes "\<And>c. t1 = Some c \<Longrightarrow> coherent c" and "\<And>c. t2 = Some c \<Longrightarrow> coherent c"
    and "\<And>c. t3 = Some c \<Longrightarrow> coherent c" and "coherent d"
  shows "coherent (case (case (case t1 of Some p \<Rightarrow> Some p | None \<Rightarrow> t2) of
                           Some p \<Rightarrow> Some p | None \<Rightarrow> t3) of
                     Some p \<Rightarrow> p | None \<Rightarrow> d)"
  using assms by (auto split: option.splits)

lemma lightPrimarySearch_result:
  assumes coh: "\<forall>c \<in> set xs. coherent c" and pal: "validPalette palette"
  shows "\<exists>p. lightPrimarySearch xs palette sr hdg tx mt = Some p \<and> coherent p"
  unfolding lightPrimarySearch_def Let_def
proof (rule variant_step [OF pal], rule cascade_coherent)
  show "coherent lightDefaultPrimary" by (rule coherent_lightDefaultPrimary)
qed (erule first_sorted_map_coherent [OF coh] first_sorted_filter_coherent [OF coh])+

lemma tiers_coherent:
  assumes "\<And>c. t1 = Some c \<Longrightarrow> coherent c" and "\<And>c. t2 = Some c \<Longrightarrow> coherent c"
    and "\<And>c. t3 = Some c \<Longrightarrow> coherent c"
    and "(case (case t1 of Some p \<Rightarrow> Some p | None \<Rightarrow> t2) of
            Some p \<Rightarrow> Some p | None \<Rightarrow> t3) = Some c"
  shows "coherent c"
  using assms by (auto split: option.splits)

lemma cascade_dark_coherent:
  assumes "\<And>c. t = Some c \<Longrightarrow> coherent c" and "\<And>c. lp = Some c \<Longrightarrow> coherent c"
    and "coherent d"
  shows "coherent (case (case (t, lp) of
               (None, Some lp') \<Rightarrow>
                 (case hexToRgb (hex lp') of
                    Some lpRgb \<Rightarrow> if cond lpRgb then Some lp' else t
                  | None \<Rightarrow> t)
             | _ \<Rightarrow> t) of
                     Some p \<Rightarrow> p | None \<Rightarrow> d)"
  using assms by (auto split: option.splits if_splits)

lemma darkPrimarySearch_result:
  assumes coh: "\<forall>c \<in> set xs. coherent c" and pal: "validPalette palette"
    and lp: "\<And>c. lightPrimary = Some c \<Longrightarrow> coherent c"
  shows "\<exists>p. darkPrimarySearch xs palette sr hdg tx mt lightPrimary = Some p \<and> coherent p"
  unfolding darkPrimarySearch_def Let_def
proof (rule variant_step [OF pal], rule cascade_dark_coherent)
  show "coherent darkDefaultPrimary" by (rule coherent_darkDefaultPrimary)
  show "\<And>c. lightPrimary = Some c \<Longrightarrow> coherent c" by (rule lp)
qed (erule tiers_coherent [rotated 3];
     erule first_sorted_map_coherent [OF coh] first_sorted_filter_coherent [OF coh])

lemma coherent_luminance_nonneg: "coherent c \<Longrightarrow> 0 \<le> getLuminance (r c) (g c) (b c)"
  by (simp add: coherent_def getLuminance_nonneg)

lemma lightPrimaryTokens_coherent:
  assumes "coherent lp"
  shows "lightPrimaryTokens xs locked (Some lp)
         = (hex lp, if getContrastRatio lp white \<ge> 4.5 then ''#ffffff'' else ''#000000'')"
  using white_or_black [OF coherent_luminance_nonneg [OF assms]]
  by (auto simp: lightPrimaryTokens_def Let_def)

lemma darkPrimaryTokens_coherent:
  assumes "coherent dp"
  shows "darkPrimaryTokens (Some dp)
         = (hex dp, if getContrastRatio dp white \<ge> 4.5 then ''#ffffff'' else ''#000000'')"
  using white_or_black [OF coherent_luminance_nonneg [OF assms]]
  by (auto simp: darkPrimaryTokens_def Let_def)

lemma lightSurface_result:
  assumes coh: "\<forall>c \<in> set xs. coherent c"
  shows "\<exists>sr. hexToRgb (lightSurface xs bgc bgH) = Some sr
            \<and> 0.85 \<le> getLuminance (r sr) (g sr) (b sr)"
proof -
  let ?cand = "findBest xs (\<lambda>c. luminance c > 0.85 \<and> saturation c < 0.12
                    \<and> (case bgc of None \<Rightarrow> True | Some bc \<Rightarrow> hex c \<noteq> hex bc))"
  have white: "\<exists>sr. hexToRgb ''#ffffff'' = Some sr \<and> 0.85 \<le> getLuminance (r sr) (g sr) (b sr)"
    by (simp add: parse_gray)
  show ?thesis
  proof (cases ?cand)
    case None
    with white show ?thesis by (simp add: lightSurface_def useColor_def)
  next
    case (Some c)
    from findBest_Some [OF Some] coh have "coherent c" "luminance c > 0.85" by auto
    then have "\<exists>sr. hexToRgb (hex c) = Some sr \<and> 0.85 \<le> getLuminance (r sr) (g sr) (b sr)"
      by (simp add: coherent_def)
    with white Some show ?thesis by (auto simp: lightSurface_def useColor_def Let_def)
  qed
qed

lemma darkSurface_result:
  assumes coh: "\<forall>c \<in> set xs. coherent c"
  shows "\<exists>sr. hexToRgb (darkSurface xs bgc bgH bgLum) = Some sr
            \<and> 0 \<le> getLuminance (r sr) (g sr) (b sr)
            \<and> getLuminance (r sr) (g sr) (b sr) \<le> 0.05"
proof -
  let ?cand = "findBest xs (\<lambda>c. luminance c > bgLum \<and> luminance c < 0.05 \<and> saturation c < 0.15
                    \<and> (case bgc of None \<Rightarrow> True | Some bc \<Rightarrow> hex c \<noteq> hex bc))"
  have "linearize 20 \<le> 0.05" using lin_20 by simp
  then have dflt: "\<exists>sr. hexToRgb ''#141414'' = Some sr \<and> 0 \<le> getLuminance (r sr) (g sr) (b sr)
            \<and> getLuminance (r sr) (g sr) (b sr) \<le> 0.05"
    by (simp add: parse_gray getLuminance_gray linearize_nonneg)
  show ?thesis
  proof (cases ?cand)
    case None
    with dflt show ?thesis by (simp add: darkSurface_def useColor_def)
  next
    case (Some c)
    from findBest_Some [OF Some] coh have "coherent c" "luminance c < 0.05" by auto
    then have "\<exists>sr. hexToRgb (hex c) = Some sr \<and> 0 \<le> getLuminance (r sr) (g sr) (b sr)
            \<and> getLuminance (r sr) (g sr) (b sr) \<le> 0.05"
      using coherent_luminance_nonneg [of c] by (simp add: coherent_def)
    with dflt Some show ?thesis by (auto simp: darkSurface_def useColor_def Let_def)
  qed
qed

lemma lightBgCandidate_coherent:
  "\<forall>c \<in> set xs. coherent c \<Longrightarrow> lightBgCandidate xs locked = Some c \<Longrightarrow> coherent c"
  unfolding lightBgCandidate_def
  by (erule lockOr_coherent [rotated 2]) (auto dest: findBest_Some)

lemma darkBgCandidate_coherent:
  "\<forall>c \<in> set xs. coherent c \<Longrightarrow> darkBgCandidate xs locked = Some c \<Longrightarrow> coherent c"
  unfolding darkBgCandidate_def
  by (erule lockOr_coherent [rotated 2]) (auto dest: findBest_Some)

lemma lightBorder_valid:
  "\<forall>c \<in> set xs. coherent c \<Longrightarrow> validHex (lightBorder xs bgH sfH lum)"
  unfolding lightBorder_def
  by (rule useColor_valid) (auto dest: findBest_Some simp: valid_constants)

lemma darkBorder_valid:
  "\<forall>c \<in> set xs. coherent c \<Longrightarrow> validHex (darkBorder xs bgH sfH lum)"
  unfolding darkBorder_def
  by (rule useColor_valid) (auto dest: findBest_Some simp: valid_constants)

lemma hasContrast_contrastAtLeast:
  "hexToRgb sfH = Some sr \<Longrightarrow> hasContrast hx sr m \<Longrightarrow> contrastAtLeast hx sfH m"
  by (simp add: contrastAtLeast_def)

subsection \<open>Light mode and dark mode as a whole\<close>

lemma lightHeadingText_ex:
  assumes coh: "\<forall>c \<in> set xs. coherent c"
    and sr: "0.85 \<le> getLuminance (r sr) (g sr) (b sr)"
  shows "\<exists>hdg tx. lightHeadingText xs (Some sr) = Some (hdg, tx) \<and> validHex hdg \<and> validHex tx
     \<and> hdg \<noteq> tx \<and> hasContrast hdg sr 4.5 \<and> hasContrast tx sr 4.5"
proof (rule lightHeadingText_result [OF coh, of "Some sr"])
  fix hdg tx
  assume "lightHeadingText xs (Some sr) = Some (hdg, tx)" "validHex hdg" "validHex tx" "hdg \<noteq> tx"
    and "\<And>sr'. Some sr = Some sr' \<Longrightarrow> 0.85 \<le> getLuminance (r sr') (g sr') (b sr')
           \<Longrightarrow> hasContrast hdg sr' 4.5 \<and> hasContrast tx sr' 4.5"
  with sr show ?thesis by (intro exI [of _ hdg] exI [of _ tx]) simp
qed

lemma darkHeadingText_ex:
  assumes coh: "\<forall>c \<in> set xs. coherent c"
    and sr: "0 \<le> getLuminance (r sr) (g sr) (b sr)" "getLuminance (r sr) (g sr) (b sr) \<le> 0.05"
  shows "\<exists>hdg tx. darkHeadingText xs (Some sr) = Some (hdg, tx) \<and> validHex hdg \<and> validHex tx
     \<and> hdg \<noteq> tx \<and> hasContrast hdg sr 4.5 \<and> hasContrast tx sr 4.5"
proof (rule darkHeadingText_result [OF coh, of "Some sr"])
  fix hdg tx
  assume "darkHeadingText xs (Some sr) = Some (hdg, tx)" "validHex hdg" "validHex tx" "hdg \<noteq> tx"
    and "\<And>sr'. Some sr = Some sr' \<Longrightarrow> 0 \<le> getLuminance (r sr') (g sr') (b sr')
           \<Longrightarrow> getLuminance (r sr') (g sr') (b sr') \<le> 0.05
           \<Longrightarrow> hasContrast hdg sr' 4.5 \<and> hasContrast tx sr' 4.5"
  with sr show ?thesis by (intro exI [of _ hdg] exI [of _ tx]) simp
qed

lemma lightMode_result:
  assumes coh: "\<forall>c \<in> set xs. coherent c" and pal: "validPalette palette"
  shows "\<exists>t lp. lightMode xs palette lockedPrimary lockedLightBg = Some (t, Some lp)
      \<and> coherent lp \<and> validTokens t \<and> heading t \<noteq> text t
      \<and> contrastAtLeast (heading t) (surface t) 4.5 \<and> contrastAtLeast (text t) (surface t) 4.5
      \<and> primary t = hex lp
      \<and> (\<forall>c. lockOr xs lockedPrimary None = Some c \<longrightarrow> lp = c)"
proof -
  let ?bgc = "lightBgCandidate xs lockedLightBg"
  let ?bgH = "useColor ?bgc ''#f7f7f7''"
  let ?sf = "lightSurface xs ?bgc ?bgH"
  have bgv: "validHex ?bgH"
    by (rule useColor_valid) (auto intro: lightBgCandidate_coherent [OF coh] simp: valid_constants)
  then obtain lb where lb: "luminanceOfHex ?bgH = Some lb"
    using luminanceOfHex_valid by blast
  note bgne = validHex_nonempty [OF bgv]
  from lightSurface_result [OF coh] obtain sr where sr: "hexToRgb ?sf = Some sr"
    and srl: "0.85 \<le> getLuminance (r sr) (g sr) (b sr)" by blast
  from sr have sfv: "validHex ?sf" by (simp add: validHex_def)
  note sfne = validHex_nonempty [OF sfv]
  from sr have ls: "luminanceOfHex ?sf = Some (getLuminance (r sr) (g sr) (b sr))"
    by (simp add: luminanceOfHex_def)
  from sfne have oe: "orElse ?sf ''#ffffff'' = ?sf" by (simp add: orElse_def)
  obtain hdg tx where ht: "lightHeadingText xs (Some sr) = Some (hdg, tx)"
    and hv: "validHex hdg" and tv: "validHex tx" and ne: "hdg \<noteq> tx"
    and hc: "hasContrast hdg sr 4.5 \<and> hasContrast tx sr 4.5"
    using lightHeadingText_ex [OF coh srl] by blast
  obtain mt where mt: "lightMutedText xs (Some sr) hdg tx = Some mt" and mv: "validHex mt"
    by (rule lightMutedText_result [OF coh tv])
  let ?bd = "lightBorder xs ?bgH ?sf (getLuminance (r sr) (g sr) (b sr))"
  let ?bg2 = "lightBgValidated xs lockedLightBg ?bgH hdg tx mt"
  have "\<exists>lp. coherent lp
      \<and> (lockOr xs lockedPrimary None = Some lp
          \<or> (lockOr xs lockedPrimary None = None
              \<and> lightPrimarySearch xs palette sr hdg tx mt = Some lp))"
  proof (cases "lockOr xs lockedPrimary None")
    case None
    with lightPrimarySearch_result [OF coh pal, of sr hdg tx mt] show ?thesis by auto
  next
    case (Some p)
    then have "coherent p" by (rule lockOr_coherent [OF coh, rotated]) simp
    with Some show ?thesis by auto
  qed
  then obtain lp where lpc: "coherent lp"
    and lpd: "lockOr xs lockedPrimary None = Some lp
          \<or> (lockOr xs lockedPrimary None = None
              \<and> lightPrimarySearch xs palette sr hdg tx mt = Some lp)" by blast
  let ?t = "\<lparr>bg = ?bg2, surface = ?sf, border = ?bd, heading = hdg, text = tx, mutedText = mt,
            primary = hex lp,
            onPrimary = (if getContrastRatio lp white \<ge> 4.5 then ''#ffffff'' else ''#000000'')\<rparr>"
  have run: "lightMode xs palette lockedPrimary lockedLightBg = Some (?t, Some lp)"
    using lpd unfolding lightMode_def Let_def
    by (elim disjE conjE)
       (simp_all add: lb bgne sfne ls oe sr ht mt lightPrimaryTokens_coherent [OF lpc])
  have "validTokens ?t"
    using bgv sfv hv tv mv lightBgValidated_valid [OF coh bgv] lightBorder_valid [OF coh]
      coherent_validHex [OF lpc]
    by (simp add: validTokens_def valid_constants)
  moreover have "contrastAtLeast (heading ?t) (surface ?t) 4.5"
    "contrastAtLeast (text ?t) (surface ?t) 4.5"
    using hc sr by (simp_all add: contrastAtLeast_def)
  moreover have "\<forall>c. lockOr xs lockedPrimary None = Some c \<longrightarrow> lp = c"
    using lpd by auto
  ultimately show ?thesis
    using run lpc ne by (intro exI [of _ ?t] exI [of _ lp]) simp
qed

lemma darkMode_result:
  assumes coh: "\<forall>c \<in> set xs. coherent c" and pal: "validPalette palette"
    and lightp: "\<And>c. lightPrimary = Some c \<Longrightarrow> coherent c"
  shows "\<exists>t. darkMode xs palette lockedPrimary lockedDarkBg lightPrimary = Some t
      \<and> validTokens t \<and> heading t \<noteq> text t
      \<and> contrastAtLeast (heading t) (surface t) 4.5 \<and> contrastAtLeast (text t) (surface t) 4.5
      \<and> (\<forall>c. lockOr xs lockedPrimary None = Some c \<longrightarrow> primary t = hex c)"
proof -
  let ?bgc = "darkBgCandidate xs lockedDarkBg"
  let ?bgH = "useColor ?bgc ''#0b0b0b''"
  have bgv: "validHex ?bgH"
    by (rule useColor_valid) (auto intro: darkBgCandidate_coherent [OF coh] simp: valid_constants)
  then obtain lb where lb: "luminanceOfHex ?bgH = Some lb"
    using luminanceOfHex_valid by blast
  let ?sf = "darkSurface xs ?bgc ?bgH lb"
  note bgne = validHex_nonempty [OF bgv]
  from darkSurface_result [OF coh] obtain sr where sr: "hexToRgb ?sf = Some sr"
    and srl: "0 \<le> getLuminance (r sr) (g sr) (b sr)" "getLuminance (r sr) (g sr) (b sr) \<le> 0.05"
    by blast
  from sr have sfv: "validHex ?sf" by (simp add: validHex_def)
  note sfne = validHex_nonempty [OF sfv]
  from sr have ls: "luminanceOfHex ?sf = Some (getLuminance (r sr) (g sr) (b sr))"
    by (simp add: luminanceOfHex_def)
  from sfne have oe: "orElse ?sf ''#141414'' = ?sf" by (simp add: orElse_def)
  obtain hdg tx where ht: "darkHeadingText xs (Some sr) = Some (hdg, tx)"
    and hv: "validHex hdg" and tv: "validHex tx" and ne: "hdg \<noteq> tx"
    and hc: "hasContrast hdg sr 4.5 \<and> hasContrast tx sr 4.5"
    using darkHeadingText_ex [OF coh srl] by blast
  obtain mt where mt: "darkMutedText xs (Some sr) hdg tx = Some mt" and mv: "validHex mt"
    by (rule darkMutedText_result [OF coh tv])
  let ?bd = "darkBorder xs ?bgH ?sf (getLuminance (r sr) (g sr) (b sr))"
  let ?bg2 = "darkBgValidated xs lockedDarkBg ?bgH hdg tx mt"
  have "\<exists>dp. coherent dp
      \<and> (lockOr xs lockedPrimary None = Some dp
          \<or> (lockOr xs lockedPrimary None = None
              \<and> darkPrimarySearch xs palette sr hdg tx mt lightPrimary = Some dp))"
  proof (cases "lockOr xs lockedPrimary None")
    case None
    with darkPrimarySearch_result [OF coh pal lightp, of lightPrimary sr hdg tx mt]
    show ?thesis by auto
  next
    case (Some p)
    then have "coherent p" by (rule lockOr_coherent [OF coh, rotated]) simp
    with Some show ?thesis by auto
  qed
  then obtain dp where dpc: "coherent dp"
    and dpd: "lockOr xs lockedPrimary None = Some dp
          \<or> (lockOr xs lockedPrimary None = None
              \<and> darkPrimarySearch xs palette sr hdg tx mt lightPrimary = Some dp)" by blast
  let ?t = "\<lparr>bg = ?bg2, surface = ?sf, border = ?bd, heading = hdg, text = tx, mutedText = mt,
            primary = hex dp,
            onPrimary = (if getContrastRatio dp white \<ge> 4.5 then ''#ffffff'' else ''#000000'')\<rparr>"
  have run: "darkMode xs palette lockedPrimary lockedDarkBg lightPrimary = Some ?t"
    using dpd unfolding darkMode_def Let_def
    by (elim disjE conjE)
       (simp_all add: lb bgne sfne ls oe sr ht mt darkPrimaryTokens_coherent [OF dpc])
  have "validTokens ?t"
    using bgv sfv hv tv mv darkBgValidated_valid [OF coh bgv] darkBorder_valid [OF coh]
      coherent_validHex [OF dpc]
    by (simp add: validTokens_def valid_constants)
  moreover have "contrastAtLeast (heading ?t) (surface ?t) 4.5"
    "contrastAtLeast (text ?t) (surface ?t) 4.5"
    using hc sr by (simp_all add: contrastAtLeast_def)
  moreover have "\<forall>c. lockOr xs lockedPrimary None = Some c \<longrightarrow> primary ?t = hex c"
    using dpd by auto
  ultimately show ?thesis
    using run ne by (intro exI [of _ ?t]) simp
qed

lemma generateTokens_result:
  assumes pal: "validPalette palette"
  shows "\<exists>ts. generateTokens palette lockedPrimary lockedLightBg lockedDarkBg = Some ts
      \<and> validTokens (light ts) \<and> validTokens (dark ts)
      \<and> heading (light ts) \<noteq> text (light ts) \<and> heading (dark ts) \<noteq> text (dark ts)
      \<and> contrastAtLeast (heading (light ts)) (surface (light ts)) 4.5
      \<and> contrastAtLeast (text (light ts)) (surface (light ts)) 4.5
      \<and> contrastAtLeast (heading (dark ts)) (surface (dark ts)) 4.5
      \<and> contrastAtLeast (text (dark ts)) (surface (dark ts)) 4.5
      \<and> (\<forall>c. lockOr (map analyze palette) lockedPrimary None = Some c
            \<longrightarrow> primary (light ts) = hex c \<and> primary (dark ts) = hex c)"
proof -
  let ?xs = "map analyze palette"
  have coh: "\<forall>c \<in> set ?xs. coherent c"
    using analyzed_coherent [OF pal] by blast
  from lightMode_result [OF coh pal, of lockedPrimary lockedLightBg]
  obtain lt lp where lm: "lightMode ?xs palette lockedPrimary lockedLightBg = Some (lt, Some lp)"
    and lpc: "coherent lp" and lprops: "validTokens lt" "heading lt \<noteq> text lt"
      "contrastAtLeast (heading lt) (surface lt) 4.5" "contrastAtLeast (text lt) (surface lt) 4.5"
      "primary lt = hex lp" "\<forall>c. lockOr ?xs lockedPrimary None = Some c \<longrightarrow> lp = c"
    by blast
  from darkMode_result [OF coh pal, of "Some lp" lockedPrimary lockedDarkBg] lpc
  obtain dt where dm: "darkMode ?xs palette lockedPrimary lockedDarkBg (Some lp) = Some dt"
    and dprops: "validTokens dt" "heading dt \<noteq> text dt"
      "contrastAtLeast (heading dt) (surface dt) 4.5" "contrastAtLeast (text dt) (surface dt) 4.5"
      "\<forall>c. lockOr ?xs lockedPrimary None = Some c \<longrightarrow> primary dt = hex c"
    by auto
  have "generateTokens palette lockedPrimary lockedLightBg lockedDarkBg
        = Some \<lparr>light = lt, dark = dt\<rparr>"
    by (simp add: generateTokens_def lm dm)
  with lprops dprops show ?thesis by auto
qed

subsection \<open>Claims about every derived token set\<close>

text \<open>
  Claim C1 (token set completeness). For every palette of swatches with channels in
  \<open>[0, 255]\<close>, the empty and the one-swatch palette among them, and every combination of
  the three lock arguments (absent, or any string), \<^verbatim>\<open>generateTokens\<close> returns, and all
  eight fields of the light and of the dark token set are hex colour strings: strings that
  \<^verbatim>\<open>hexToRgb\<close> accepts.
\<close>

theorem generateTokens_complete:
  assumes "validPalette palette"
  shows "\<exists>ts. generateTokens palette lockedPrimary lockedLightBg lockedDarkBg = Some ts
      \<and> validTokens (light ts) \<and> validTokens (dark ts)"
  using generateTokens_result [OF assms, of lockedPrimary lockedLightBg lockedDarkBg] by blast

theorem generateTokens_complete_witness:
  "validPalette [plainSwatch 128 128 128 7]
   \<and> (\<exists>ts. generateTokens [plainSwatch 128 128 128 7] (Some ''#ff0000'') None (Some ''banana'')
               = Some ts
          \<and> validTokens (light ts) \<and> validTokens (dark ts))"
proof -
  have valid: "validPalette [plainSwatch 128 128 128 7]"
    by (simp add: validPalette_def validChannel_def)
  from generateTokens_complete [OF valid] valid show ?thesis by blast
qed

text \<open>
  Claim C2 (contrast guarantee). For every such palette and every combination of locks,
  in light and in dark mode, heading and text each have a contrast ratio of at least 4.5
  against the surface.
\<close>

theorem generateTokens_contrast:
  assumes "validPalette palette"
  shows "\<exists>ts. generateTokens palette lockedPrimary lockedLightBg lockedDarkBg = Some ts
      \<and> contrastAtLeast (heading (light ts)) (surface (light ts)) 4.5
      \<and> contrastAtLeast (text (light ts)) (surface (light ts)) 4.5
      \<and> contrastAtLeast (heading (dark ts)) (surface (dark ts)) 4.5
      \<and> contrastAtLeast (text (dark ts)) (surface (dark ts)) 4.5"
  using generateTokens_result [OF assms, of lockedPrimary lockedLightBg lockedDarkBg] by blast

theorem generateTokens_contrast_witness:
  "validPalette [plainSwatch 128 128 128 7, plainSwatch 250 250 250 3]
   \<and> (\<exists>ts. generateTokens [plainSwatch 128 128 128 7, plainSwatch 250 250 250 3]
               None (Some ''#808080'') None = Some ts
      \<and> contrastAtLeast (heading (light ts)) (surface (light ts)) 4.5
      \<and> contrastAtLeast (text (light ts)) (surface (light ts)) 4.5
      \<and> contrastAtLeast (heading (dark ts)) (surface (dark ts)) 4.5
      \<and> contrastAtLeast (text (dark ts)) (surface (dark ts)) 4.5)"
proof -
  have valid: "validPalette [plainSwatch 128 128 128 7, plainSwatch 250 250 250 3]"
    by (simp add: validPalette_def validChannel_def)
  from generateTokens_contrast [OF valid] valid show ?thesis by blast
qed

text \<open>
  Claim C9 (heading/text distinctness). For every such palette and every combination of
  locks, in light and in dark mode, the heading token differs from the text token.
\<close>

theorem generateTokens_heading_text_distinct:
  assumes "validPalette palette"
  shows "\<exists>ts. generateTokens palette lockedPrimary lockedLightBg lockedDarkBg = Some ts
      \<and> heading (light ts) \<noteq> text (light ts) \<and> heading (dark ts) \<noteq> text (dark ts)"
  using generateTokens_result [OF assms, of lockedPrimary lockedLightBg lockedDarkBg] by blast

theorem generateTokens_heading_text_distinct_witness:
  "validPalette [plainSwatch 20 20 20 7, plainSwatch 20 20 20 3]
   \<and> (\<exists>ts. generateTokens [plainSwatch 20 20 20 7, plainSwatch 20 20 20 3] None None None = Some ts
      \<and> heading (light ts) \<noteq> text (light ts) \<and> heading (dark ts) \<noteq> text (dark ts))"
proof -
  have valid: "validPalette [plainSwatch 20 20 20 7, plainSwatch 20 20 20 3]"
    by (simp add: validPalette_def validChannel_def)
  from generateTokens_heading_text_distinct [OF valid] valid show ?thesis by blast
qed

subsection \<open>Locks\<close>

lemma of_char_hexDigit:
  assumes "n < 16"
  shows "(of_char (hexDigit n) :: nat) = (if n < 10 then 48 + n else 87 + n)"
proof -
  from assms have "n \<in> set [0..<16]" by simp
  then show ?thesis
    unfolding upt_conv_Cons_Cons
    by (auto simp: hexDigit_def numeral_eq_Suc)
qed

lemma length_toLowerCase [simp]: "length (toLowerCase str) = length str"
  by (simp add: toLowerCase_def)

lemma lowerChar_hexDigit: "n < 16 \<Longrightarrow> lowerChar (hexDigit n) = hexDigit n"
  by (simp add: lowerChar_def of_char_hexDigit)

lemma lowerChar_eq_hexDigit:
  assumes "n < 16" and "lowerChar c = hexDigit n"
  shows "hexVal c \<noteq> None"
proof (cases "65 \<le> (of_char c :: nat) \<and> (of_char c :: nat) \<le> 90")
  case False
  with assms show ?thesis by (simp add: lowerChar_def hexVal_hexDigit)
next
  case True
  with assms(2) have "char_of (of_char c + 32 :: nat) = hexDigit n"
    by (simp add: lowerChar_def)
  then have "(of_char (char_of (of_char c + 32 :: nat) :: char) :: nat) = of_char (hexDigit n)"
    by simp
  with True assms(1) have "(of_char c :: nat) + 32 = (if n < 10 then 48 + n else 87 + n)"
    by (simp add: of_char_hexDigit)
  with True assms(1) have "65 \<le> (of_char c :: nat) \<and> (of_char c :: nat) \<le> 70"
    by (auto split: if_splits)
  then show ?thesis by (auto simp: hexVal_def Let_def)
qed

lemma lowerChar_eq_hash:
  assumes "lowerChar c = CHR ''#''"
  shows "c = CHR ''#''"
proof (cases "65 \<le> (of_char c :: nat) \<and> (of_char c :: nat) \<le> 90")
  case False
  with assms show ?thesis by (simp add: lowerChar_def)
next
  case True
  with assms have "char_of (of_char c + 32 :: nat) = CHR ''#''" by (simp add: lowerChar_def)
  then have "(of_char (char_of (of_char c + 32 :: nat) :: char) :: nat) = of_char CHR ''#''"
    by simp
  with True show ?thesis by simp
qed

lemma toLowerCase_rgbToHex:
  assumes "validChannel x" "validChannel y" "validChannel z"
  shows "toLowerCase (rgbToHex x y z) = rgbToHex x y z"
proof -
  from assms have v: "0 \<le> x" "x \<le> 255" "0 \<le> y" "y \<le> 255" "0 \<le> z" "z \<le> 255"
    by (simp_all add: validChannel_def)
  then have "nat x div 16 < 16" "nat x mod 16 < 16" "nat y div 16 < 16" "nat y mod 16 < 16"
    "nat z div 16 < 16" "nat z mod 16 < 16" by linarith+
  moreover have "lowerChar CHR ''#'' = CHR ''#''" by (simp add: lowerChar_def)
  ultimately show ?thesis
    unfolding rgbToHex_shape [OF v]
    by (simp add: toLowerCase_def lowerChar_hexDigit)
qed

lemma parses_if_lower_matches:
  assumes "validChannel x" "validChannel y" "validChannel z"
    and "rgbToHex x y z = toLowerCase locked"
  shows "hexToRgb locked \<noteq> None"
proof -
  from assms have v: "0 \<le> x" "x \<le> 255" "0 \<le> y" "y \<le> 255" "0 \<le> z" "z \<le> 255"
    by (simp_all add: validChannel_def)
  then have d: "nat x div 16 < 16" "nat x mod 16 < 16" "nat y div 16 < 16" "nat y mod 16 < 16"
    "nat z div 16 < 16" "nat z mod 16 < 16" by linarith+
  from assms(4) have "length locked = 7"
    by (metis length_toLowerCase hex_roundtrip v)
  then obtain c0 c1 c2 c3 c4 c5 c6 where l: "locked = [c0, c1, c2, c3, c4, c5, c6]"
    by (auto simp: length_Suc_conv numeral_eq_Suc)
  from assms(4) have eqs: "lowerChar c0 = CHR ''#''"
    "lowerChar c1 = hexDigit (nat x div 16)" "lowerChar c2 = hexDigit (nat x mod 16)"
    "lowerChar c3 = hexDigit (nat y div 16)" "lowerChar c4 = hexDigit (nat y mod 16)"
    "lowerChar c5 = hexDigit (nat z div 16)" "lowerChar c6 = hexDigit (nat z mod 16)"
    unfolding rgbToHex_shape [OF v] l toLowerCase_def by simp_all
  have "c0 = CHR ''#''" by (rule lowerChar_eq_hash [OF eqs(1)])
  moreover note lowerChar_eq_hexDigit [OF d(1) eqs(2)] lowerChar_eq_hexDigit [OF d(2) eqs(3)]
    lowerChar_eq_hexDigit [OF d(3) eqs(4)] lowerChar_eq_hexDigit [OF d(4) eqs(5)]
    lowerChar_eq_hexDigit [OF d(5) eqs(6)] lowerChar_eq_hexDigit [OF d(6) eqs(7)]
  ultimately show ?thesis
    by (auto simp: l hexToRgb_def parseInt16_def)
qed

lemma hex_analyze [simp]: "hex (analyze p) = rgbToHex (r p) (g p) (b p)"
  by (simp add: analyze_def)

lemma find_Some_mem: "find P xs = Some x \<Longrightarrow> x \<in> set xs \<and> P x"
  by (induction xs) (auto split: if_splits)

lemma lockedCandidate_hex:
  assumes pal: "validPalette palette" and parse: "hexToRgb locked \<noteq> None"
  shows "\<exists>c. lockedCandidate (map analyze palette) locked = Some c
     \<and> hex c = (if \<exists>p \<in> set palette. rgbToHex (r p) (g p) (b p) = toLowerCase locked
                then toLowerCase locked else locked)"
proof (cases "find (\<lambda>c. toLowerCase (hex c) = toLowerCase locked) (map analyze palette)")
  case None
  then have "\<forall>p \<in> set palette. toLowerCase (rgbToHex (r p) (g p) (b p)) \<noteq> toLowerCase locked"
    by (auto simp: find_None_iff)
  moreover have "\<forall>p \<in> set palette.
      toLowerCase (rgbToHex (r p) (g p) (b p)) = rgbToHex (r p) (g p) (b p)"
    using pal by (auto simp: validPalette_def list_all_iff toLowerCase_rgbToHex)
  ultimately have "\<not> (\<exists>p \<in> set palette. rgbToHex (r p) (g p) (b p) = toLowerCase locked)"
    by auto
  with None parse show ?thesis
    by (auto simp: lockedCandidate_def)
next
  case (Some c)
  from find_Some_mem [OF Some] have "c \<in> set (map analyze palette)"
    and eq: "toLowerCase (hex c) = toLowerCase locked" by simp_all
  then obtain p where p: "p \<in> set palette" "c = analyze p"
    by auto
  from pal p(1) have "toLowerCase (rgbToHex (r p) (g p) (b p)) = rgbToHex (r p) (g p) (b p)"
    by (auto simp: validPalette_def list_all_iff toLowerCase_rgbToHex)
  with eq p have "rgbToHex (r p) (g p) (b p) = toLowerCase locked" by simp
  with p Some show ?thesis
    by (auto simp: lockedCandidate_def)
qed

lemma lockedCandidate_unparseable:
  assumes pal: "validPalette palette" and parse: "hexToRgb locked = None"
  shows "lockedCandidate (map analyze palette) locked = None"
proof (cases "find (\<lambda>c. toLowerCase (hex c) = toLowerCase locked) (map analyze palette)")
  case None
  with parse show ?thesis by (simp add: lockedCandidate_def)
next
  case (Some c)
  from find_Some_mem [OF Some] have "c \<in> set (map analyze palette)"
    and eq: "toLowerCase (hex c) = toLowerCase locked" by simp_all
  then obtain p where p: "p \<in> set palette" "c = analyze p"
    by auto
  from pal p(1) have v: "validChannel (r p)" "validChannel (g p)" "validChannel (b p)"
    by (auto simp: validPalette_def list_all_iff)
  with eq p have "rgbToHex (r p) (g p) (b p) = toLowerCase locked"
    by (simp add: toLowerCase_rgbToHex)
  from parses_if_lower_matches [OF v this] parse show ?thesis by simp
qed

lemma hexToRgb_Nil [simp]: "hexToRgb [] = None"
  by (simp add: hexToRgb_def)

lemma lockOr_unparseable:
  assumes "validPalette palette" and "hexToRgb locked = None"
  shows "lockOr (map analyze palette) (Some locked) None = None"
  using lockedCandidate_unparseable [OF assms] by (simp add: lockOr_def)

text \<open>The primary of both modes under a lock that parses.\<close>

lemma locked_primary_resolved:
  assumes pal: "validPalette palette" and parse: "hexToRgb locked \<noteq> None"
  shows "\<exists>ts. generateTokens palette (Some locked) lockedLightBg lockedDarkBg = Some ts
     \<and> primary (light ts) =
         (if \<exists>p \<in> set palette. rgbToHex (r p) (g p) (b p) = toLowerCase locked
          then toLowerCase locked else locked)
     \<and> primary (dark ts) =
         (if \<exists>p \<in> set palette. rgbToHex (r p) (g p) (b p) = toLowerCase locked
          then toLowerCase locked else locked)"
proof -
  from lockedCandidate_hex [OF assms] obtain c
    where c: "lockedCandidate (map analyze palette) locked = Some c"
      and hc: "hex c = (if \<exists>p \<in> set palette. rgbToHex (r p) (g p) (b p) = toLowerCase locked
                then toLowerCase locked else locked)" by blast
  from parse have "locked \<noteq> []" by auto
  with c have "lockOr (map analyze palette) (Some locked) None = Some c"
    by (simp add: lockOr_def)
  with generateTokens_result [OF pal, of "Some locked" lockedLightBg lockedDarkBg] hc
  show ?thesis by auto
qed

lemma rgbToHex_red: "rgbToHex 255 0 0 = ''#ff0000''"
  by (simp add: rgbToHex_def toString16_def toHexNat.simps hexDigit_def)

lemma toLowerCase_RED: "toLowerCase ''#FF0000'' = ''#ff0000''"
  by code_simp

lemma lightPrimarySearch_coherent:
  assumes "\<forall>c \<in> set xs. coherent c" and "validPalette palette"
    and "lightPrimarySearch xs palette sr hdg tx mt = Some p"
  shows "coherent p"
  using lightPrimarySearch_result [OF assms(1,2), of sr hdg tx mt] assms(3) by auto

lemma lightPrimaryTokens_lock_irrelevant:
  assumes "coherent p"
  shows "lightPrimaryTokens xs lockA (Some p) = lightPrimaryTokens xs lockB (Some p)"
  by (simp add: lightPrimaryTokens_coherent [OF assms])

lemma lightMode_lock_irrelevant:
  assumes coh: "\<forall>c \<in> set xs. coherent c" and pal: "validPalette palette"
    and "lockOr xs lockA None = None" and "lockOr xs lockB None = None"
  shows "lightMode xs palette lockA lockedLightBg = lightMode xs palette lockB lockedLightBg"
  unfolding lightMode_def Let_def assms(3,4) option.case
  by (intro Option.bind_cong refl)
     (auto simp: bind_eq_Some_conv lightPrimaryTokens_coherent
           dest!: lightPrimarySearch_coherent [OF coh pal])

lemma darkMode_lock_irrelevant:
  assumes "lockOr xs lockA None = None" and "lockOr xs lockB None = None"
  shows "darkMode xs palette lockA lockedDarkBg lp = darkMode xs palette lockB lockedDarkBg lp"
  unfolding darkMode_def Let_def assms option.case ..

lemma unparseable_lock_as_absent:
  assumes pal: "validPalette palette" and parse: "hexToRgb locked = None"
  shows "generateTokens palette (Some locked) lockedLightBg lockedDarkBg
         = generateTokens palette None lockedLightBg lockedDarkBg"
proof -
  let ?xs = "map analyze palette"
  have coh: "\<forall>c \<in> set ?xs. coherent c"
    using analyzed_coherent [OF pal] by blast
  have a: "lockOr ?xs (Some locked) None = None"
    by (rule lockOr_unparseable [OF pal parse])
  have b: "lockOr ?xs None None = None"
    by (simp add: lockOr_def)
  show ?thesis
    unfolding generateTokens_def Let_def
      lightMode_lock_irrelevant [OF coh pal a b] darkMode_lock_irrelevant [OF a b] ..
qed

text \<open>
  Claim C5 (unparseable lock). For every such palette and every \<^verbatim>\<open>lockedPrimary\<close> that
  \<^verbatim>\<open>hexToRgb\<close> rejects, \<^verbatim>\<open>generateTokens\<close> returns exactly the light and dark token sets
  that it returns with \<^verbatim>\<open>lockedPrimary\<close> absent.
\<close>

theorem unparseable_lock_ignored:
  assumes "validPalette palette" and "hexToRgb lockedPrimary = None"
  shows "\<exists>ts. generateTokens palette (Some lockedPrimary) lockedLightBg lockedDarkBg = Some ts
           \<and> generateTokens palette None lockedLightBg lockedDarkBg = Some ts"
  using generateTokens_result [OF assms(1), of None lockedLightBg lockedDarkBg]
    unparseable_lock_as_absent [OF assms, of lockedLightBg lockedDarkBg]
  by auto

theorem unparseable_lock_ignored_witness:
  "validPalette [plainSwatch 200 30 30 9, plainSwatch 128 128 128 7]
   \<and> hexToRgb ''banana'' = None
   \<and> (\<exists>ts. generateTokens [plainSwatch 200 30 30 9, plainSwatch 128 128 128 7]
               (Some ''banana'') None None = Some ts
           \<and> generateTokens [plainSwatch 200 30 30 9, plainSwatch 128 128 128 7]
               None None None = Some ts)"
proof -
  have valid: "validPalette [plainSwatch 200 30 30 9, plainSwatch 128 128 128 7]"
    by (simp add: validPalette_def validChannel_def)
  have bad: "hexToRgb ''banana'' = None"
    by (simp add: hexToRgb_def parseInt16_def hexVal_def)
  from unparseable_lock_ignored [OF valid bad] valid bad show ?thesis by blast
qed

text \<open>
  Claim C6 (lock honouring), as stated: a \<^verbatim>\<open>lockedPrimary\<close> that parses is the primary of
  both modes verbatim. It fails when the lock names a palette colour in another letter
  case: the lookup compares without case and takes the palette entry, whose hex is
  lowercase. With the palette [(255,0,0)] and the lock \<^verbatim>\<open>#FF0000\<close> the primary is
  \<^verbatim>\<open>#ff0000\<close>.
\<close>

theorem locked_primary_not_verbatim:
  "generateTokens [plainSwatch 255 0 0 5] (Some ''#FF0000'') None None \<noteq> None
   \<and> primary (light (the (generateTokens [plainSwatch 255 0 0 5] (Some ''#FF0000'') None None)))
       = ''#ff0000''
   \<and> primary (dark (the (generateTokens [plainSwatch 255 0 0 5] (Some ''#FF0000'') None None)))
       = ''#ff0000''"
proof -
  have valid: "validPalette [plainSwatch 255 0 0 5]"
    by (simp add: validPalette_def validChannel_def)
  have parses: "hexToRgb ''#FF0000'' \<noteq> None"
    by (simp add: hexToRgb_def parseInt16_def hexVal_def)
  from locked_primary_resolved [OF valid parses, of None None] show ?thesis
    by (auto simp: rgbToHex_red toLowerCase_RED)
qed

text \<open>
  Claim C6, amended: a \<^verbatim>\<open>lockedPrimary\<close> that parses is the primary of both modes
  verbatim, unless a palette colour has that hex up to letter case; then the primary of
  both modes is that palette colour's hex, which is the lock in lowercase. Candidate
  scoring and the substitution driven by \<^verbatim>\<open>onPrimary\<close> are bypassed either way.
\<close>

theorem locked_primary_honoured:
  assumes "validPalette palette" and "hexToRgb lockedPrimary \<noteq> None"
  shows "\<exists>ts. generateTokens palette (Some lockedPrimary) lockedLightBg lockedDarkBg = Some ts
     \<and> primary (light ts) =
         (if \<exists>p \<in> set palette. rgbToHex (r p) (g p) (b p) = toLowerCase lockedPrimary
          then toLowerCase lockedPrimary else lockedPrimary)
     \<and> primary (dark ts) =
         (if \<exists>p \<in> set palette. rgbToHex (r p) (g p) (b p) = toLowerCase lockedPrimary
          then toLowerCase lockedPrimary else lockedPrimary)"
  by (rule locked_primary_resolved [OF assms])

theorem locked_primary_honoured_witness:
  "validPalette [plainSwatch 128 128 128 7]
   \<and> hexToRgb ''#ff0000'' \<noteq> None
   \<and> (\<exists>ts. generateTokens [plainSwatch 128 128 128 7] (Some ''#ff0000'') None None = Some ts
          \<and> primary (light ts) = ''#ff0000'' \<and> primary (dark ts) = ''#ff0000'')"
proof -
  have valid: "validPalette [plainSwatch 128 128 128 7]"
    by (simp add: validPalette_def validChannel_def)
  have parses: "hexToRgb ''#ff0000'' \<noteq> None"
    by (simp add: hexToRgb_def parseInt16_def hexVal_def)
  have lower: "toLowerCase ''#ff0000'' = ''#ff0000''"
    by code_simp
  from locked_primary_honoured [OF valid parses, of None None] valid parses show ?thesis
    by (auto simp: lower split: if_splits)
qed

subsection \<open>The exact number of swatches of median cut\<close>

lemma maxBucket_fold_ge:
  "fold (\<lambda>(index, bucket) (maxBucketIndex, maxBucketSize).
             if length bucket > maxBucketSize then (index, length bucket)
             else (maxBucketIndex, maxBucketSize)) (enumerate n xs) (i0, s0) = (i, sz)
   \<Longrightarrow> s0 \<le> sz \<and> (\<forall>x \<in> set xs. length x \<le> sz)"
proof (induction xs arbitrary: n i0 s0)
  case Nil
  then show ?case by simp
next
  case (Cons x xs)
  show ?case
  proof (cases "length x > s0")
    case True
    with Cons.prems have "fold (\<lambda>(index, bucket) (maxBucketIndex, maxBucketSize).
             if length bucket > maxBucketSize then (index, length bucket)
             else (maxBucketIndex, maxBucketSize)) (enumerate (Suc n) xs) (n, length x) = (i, sz)"
      by simp
    from Cons.IH [OF this] True show ?thesis by auto
  next
    case False
    with Cons.prems have "fold (\<lambda>(index, bucket) (maxBucketIndex, maxBucketSize).
             if length bucket > maxBucketSize then (index, length bucket)
             else (maxBucketIndex, maxBucketSize)) (enumerate (Suc n) xs) (i0, s0) = (i, sz)"
      by simp
    from Cons.IH [OF this] False show ?thesis by auto
  qed
qed

lemma maxBucket_ge: "bk \<in> set buckets \<Longrightarrow> length bk \<le> snd (maxBucket buckets)"
proof -
  assume bk: "bk \<in> set buckets"
  obtain i sz where eq: "maxBucket buckets = (i, sz)" by (cases "maxBucket buckets")
  from maxBucket_fold_ge [OF eq [unfolded maxBucket_def]] bk eq show ?thesis by simp
qed

lemma take_half_nonempty: "1 < length xs \<Longrightarrow> take (length xs div 2) xs \<noteq> []"
  by (auto simp: take_eq_Nil)

lemma drop_half_nonempty: "1 < length xs \<Longrightarrow> drop (length xs div 2) xs \<noteq> []"
  by simp

lemma splitBucket_nonempty:
  assumes "\<forall>bk \<in> set buckets. bk \<noteq> []" and "i < length buckets" and "1 < length (buckets ! i)"
  shows "\<forall>bk \<in> set (splitBucket buckets i). bk \<noteq> []"
proof
  let ?sorted = "sort_key (getChannel (findLargestRange (buckets ! i))) (buckets ! i)"
  let ?b1 = "take (length ?sorted div 2) ?sorted"
  let ?b2 = "drop (length ?sorted div 2) ?sorted"
  fix bk
  assume "bk \<in> set (splitBucket buckets i)"
  then consider "bk \<in> set (take i buckets)" | "bk = ?b1" | "bk = ?b2"
    | "bk \<in> set (drop (Suc i) buckets)"
    by (auto simp: splitBucket_def Let_def)
  then show "bk \<noteq> []"
  proof cases
    case 1
    then have "bk \<in> set buckets" by (rule in_set_takeD)
    with assms(1) show ?thesis by simp
  next
    case 2
    have "length ?sorted = length (buckets ! i)" by simp
    with assms(3) have "1 < length ?sorted" by simp
    then have "?b1 \<noteq> []" by (rule take_half_nonempty)
    with 2 show ?thesis by simp
  next
    case 3
    have "length ?sorted = length (buckets ! i)" by simp
    with assms(3) have "1 < length ?sorted" by simp
    then have "?b2 \<noteq> []" by (rule drop_half_nonempty)
    with 3 show ?thesis by simp
  next
    case 4
    then have "bk \<in> set buckets" by (rule in_set_dropD)
    with assms(1) show ?thesis by simp
  qed
qed

lemma splitBucket_subset:
  assumes "i < length buckets"
  shows "set (concat (splitBucket buckets i)) \<subseteq> set (concat buckets)"
proof
  let ?sorted = "sort_key (getChannel (findLargestRange (buckets ! i))) (buckets ! i)"
  let ?b1 = "take (length ?sorted div 2) ?sorted"
  let ?b2 = "drop (length ?sorted div 2) ?sorted"
  fix p
  assume "p \<in> set (concat (splitBucket buckets i))"
  then consider bk where "bk \<in> set (take i buckets)" "p \<in> set bk" | "p \<in> set ?b1"
    | "p \<in> set ?b2" | bk where "bk \<in> set (drop (Suc i) buckets)" "p \<in> set bk"
    by (auto simp: splitBucket_def Let_def)
  then show "p \<in> set (concat buckets)"
  proof cases
    case 1
    from in_set_takeD [OF 1(1)] 1(2) show ?thesis by auto
  next
    case 2
    then have "p \<in> set ?sorted" by (rule in_set_takeD)
    then have "p \<in> set (buckets ! i)" by simp
    with assms show ?thesis by (auto intro: nth_mem)
  next
    case 3
    then have "p \<in> set ?sorted" by (rule in_set_dropD)
    then have "p \<in> set (buckets ! i)" by simp
    with assms show ?thesis by (auto intro: nth_mem)
  next
    case 4
    from in_set_dropD [OF 4(1)] 4(2) show ?thesis by auto
  qed
qed

lemma medianCutLoop_step:
  assumes "length buckets < targetColors" and "\<not> snd (maxBucket buckets) \<le> 1"
  shows "medianCutLoop buckets targetColors
         = medianCutLoop (splitBucket buckets (fst (maxBucket buckets))) targetColors"
  using assms by (simp add: medianCutLoop.simps [of buckets])

lemma medianCutLoop_stop:
  assumes "\<not> (length buckets < targetColors \<and> \<not> snd (maxBucket buckets) \<le> 1)"
  shows "medianCutLoop buckets targetColors = buckets"
  using assms by (auto simp: medianCutLoop.simps [of buckets])

lemma medianCutLoop_nonempty:
  assumes "\<forall>bk \<in> set buckets. bk \<noteq> []"
  shows "\<forall>bk \<in> set (medianCutLoop buckets targetColors). bk \<noteq> []"
  using assms
proof (induction buckets targetColors rule: medianCutLoop.induct)
  case (1 buckets targetColors)
  show ?case
  proof (cases "length buckets < targetColors \<and> \<not> snd (maxBucket buckets) \<le> 1")
    case True
    then have pos: "0 < snd (maxBucket buckets)" by simp
    note idx = maxBucket_valid [OF pos]
    have "\<forall>bk \<in> set (splitBucket buckets (fst (maxBucket buckets))). bk \<noteq> []"
      using True idx by (intro splitBucket_nonempty "1.prems") simp_all
    with True "1.IH" have
      "\<forall>bk \<in> set (medianCutLoop (splitBucket buckets (fst (maxBucket buckets))) targetColors).
         bk \<noteq> []" by blast
    then show ?thesis
      unfolding medianCutLoop_step [OF True [THEN conjunct1] True [THEN conjunct2]] .
  next
    case False
    from "1.prems" show ?thesis
      unfolding medianCutLoop_stop [OF False] .
  qed
qed

lemma medianCutLoop_subset:
  "set (concat (medianCutLoop buckets targetColors)) \<subseteq> set (concat buckets)"
proof (induction buckets targetColors rule: medianCutLoop.induct)
  case (1 buckets targetColors)
  show ?case
  proof (cases "length buckets < targetColors \<and> \<not> snd (maxBucket buckets) \<le> 1")
    case True
    then have pos: "0 < snd (maxBucket buckets)" by simp
    note idx = maxBucket_valid [OF pos]
    from True "1.IH" have
      "set (concat (medianCutLoop (splitBucket buckets (fst (maxBucket buckets))) targetColors))
       \<subseteq> set (concat (splitBucket buckets (fst (maxBucket buckets))))" by blast
    also note splitBucket_subset [OF idx(1)]
    finally show ?thesis
      unfolding medianCutLoop_step [OF True [THEN conjunct1] True [THEN conjunct2]] .
  next
    case False
    show ?thesis
      unfolding medianCutLoop_stop [OF False] by simp
  qed
qed

lemma medianCutLoop_final:
  "\<not> length (medianCutLoop buckets targetColors) < targetColors
   \<or> snd (maxBucket (medianCutLoop buckets targetColors)) \<le> 1"
proof (induction buckets targetColors rule: medianCutLoop.induct)
  case (1 buckets targetColors)
  show ?case
  proof (cases "length buckets < targetColors \<and> \<not> snd (maxBucket buckets) \<le> 1")
    case True
    with "1.IH" show ?thesis
      unfolding medianCutLoop_step [OF True [THEN conjunct1] True [THEN conjunct2]] by blast
  next
    case False
    then show ?thesis
      unfolding medianCutLoop_stop [OF False] by blast
  qed
qed

lemma bucketColor_nonempty_length:
  "\<forall>bk \<in> set buckets. bk \<noteq> [] \<Longrightarrow> length (List.map_filter bucketColor buckets) = length buckets"
proof (induction buckets)
  case Nil
  then show ?case by (simp add: List.map_filter_simps)
next
  case (Cons x xs)
  then have "x \<noteq> []" by simp
  then obtain c where "bucketColor x = Some c"
    by (simp add: bucketColor_def Let_def)
  with Cons show ?case by (simp add: List.map_filter_simps)
qed

lemma sum_lengths_ge:
  "\<forall>bk \<in> set bs. bk \<noteq> [] \<Longrightarrow> length bs \<le> sum_list (map length bs)"
proof (induction bs)
  case Nil
  then show ?case by simp
next
  case (Cons x xs)
  then have "1 \<le> length x" by (cases x) simp_all
  with Cons show ?case by simp
qed

lemma sum_lengths_ones:
  "\<forall>bk \<in> set bs. length bk = 1 \<Longrightarrow> sum_list (map length bs) = length bs"
  by (induction bs) simp_all

lemma medianCut_length:
  assumes "pixels \<noteq> []" and "1 \<le> targetColors"
  shows "length (medianCut pixels targetColors) = min (length pixels) targetColors"
proof -
  define bs where "bs = medianCutLoop [pixels] targetColors"
  have "\<forall>bk \<in> set [pixels]. bk \<noteq> []" using assms(1) by simp
  then have ne: "\<forall>bk \<in> set bs. bk \<noteq> []"
    unfolding bs_def by (rule medianCutLoop_nonempty)
  have fin: "\<not> length bs < targetColors \<or> snd (maxBucket bs) \<le> 1"
    unfolding bs_def by (rule medianCutLoop_final)
  have "medianCut pixels targetColors = List.map_filter bucketColor bs"
    using assms(1) by (simp add: medianCut_def bs_def)
  then have len: "length (medianCut pixels targetColors) = length bs"
    using bucketColor_nonempty_length [OF ne] by simp
  have "length [pixels] \<le> targetColors" using assms(2) by simp
  then have le: "length bs \<le> targetColors"
    unfolding bs_def by (rule medianCutLoop_length)
  have total: "sum_list (map length bs) = length pixels"
    unfolding bs_def by (simp add: medianCutLoop_pixels)
  have ge1: "length bs \<le> sum_list (map length bs)"
    using ne by (rule sum_lengths_ge)
  show ?thesis
  proof (cases "snd (maxBucket bs) \<le> 1")
    case True
    have "\<forall>bk \<in> set bs. length bk = 1"
    proof
      fix bk assume bk: "bk \<in> set bs"
      from maxBucket_ge [OF bk] True have "length bk \<le> 1" by simp
      moreover from ne bk have "bk \<noteq> []" by simp
      ultimately show "length bk = 1" by (cases bk) simp_all
    qed
    then have "sum_list (map length bs) = length bs"
      by (rule sum_lengths_ones)
    with total le len show ?thesis by simp
  next
    case False
    with fin le have "length bs = targetColors" by simp
    with total ge1 len show ?thesis by simp
  qed
qed

subsection \<open>The pipeline on pixels of one gray\<close>

lemma fold_sum_gray:
  "\<forall>p \<in> set bk. p = \<lparr>r = 128, g = 128, b = 128\<rparr> \<Longrightarrow>
   fold (\<lambda>p acc. \<lparr>r = r acc + r p, g = g acc + g p, b = b acc + b p\<rparr>) bk \<lparr>r = x, g = y, b = z\<rparr>
   = \<lparr>r = x + 128 * int (length bk), g = y + 128 * int (length bk),
      b = z + 128 * int (length bk)\<rparr>"
  by (induction bk arbitrary: x y z) (simp_all add: algebra_simps)

lemma bucketColor_gray:
  assumes "bk \<noteq> []" and "\<forall>p \<in> set bk. p = \<lparr>r = 128, g = 128, b = 128\<rparr>"
  shows "bucketColor bk = Some (plainSwatch 128 128 128 (length bk))"
  using assms(1) by (simp add: bucketColor_def fold_sum_gray [OF assms(2)] mathRound_def)

lemma map_filter_bucketColor_gray:
  assumes "\<forall>bk \<in> set bs. bk \<noteq> []"
    and "\<forall>bk \<in> set bs. \<forall>p \<in> set bk. p = \<lparr>r = 128, g = 128, b = 128\<rparr>"
  shows "List.map_filter bucketColor bs = map (\<lambda>bk. plainSwatch 128 128 128 (length bk)) bs"
  using assms
proof (induction bs)
  case Nil
  then show ?case by (simp add: List.map_filter_simps)
next
  case (Cons x xs)
  then have "bucketColor x = Some (plainSwatch 128 128 128 (length x))"
    by (intro bucketColor_gray) simp_all
  with Cons show ?case by (simp add: List.map_filter_simps)
qed

lemma mergeColor_gray:
  "mergeColor 30 (plainSwatch 128 128 128 k) [plainSwatch 128 128 128 n]
   = [plainSwatch 128 128 128 (n + k)]"
  by (simp add: mergeColor_def closestIndex_def colorDistance_def getSaturation_def Let_def
      enumerate_eq_zip)

lemma fold_mergeColor_gray:
  "fold (mergeColor 30) (map (\<lambda>k. plainSwatch 128 128 128 k) ks) [plainSwatch 128 128 128 n]
   = [plainSwatch 128 128 128 (n + sum_list ks)]"
  by (induction ks arbitrary: n) (simp_all add: mergeColor_gray add.assoc)

lemma removeDuplicates_gray:
  assumes "ks \<noteq> []"
  shows "removeDuplicates (map (\<lambda>k. plainSwatch 128 128 128 k) ks) 30
         = [plainSwatch 128 128 128 (sum_list ks)]"
proof -
  from assms obtain k ks' where ks: "ks = k # ks'" by (cases ks) auto
  have "mergeColor 30 (plainSwatch 128 128 128 k) [] = [plainSwatch 128 128 128 k]"
    by (simp add: mergeColor_def)
  then show ?thesis
    by (simp add: removeDuplicates_def ks fold_mergeColor_gray)
qed

lemma vibrantBuckets_dull:
  assumes "\<forall>p \<in> set pixels. getSaturation (r p) (g p) (b p) < 0.25"
  shows "vibrantBuckets pixels = replicate 18 []"
proof -
  have "fold (\<lambda>p hueBuckets.
             let sat' = getSaturation (r p) (g p) (b p) in
             if sat' < 0.25 then hueBuckets
             else let hsl' = rgbToHsl (r p) (g p) (b p) in
                  if l hsl' < 0.10 \<or> l hsl' > 0.90 then hueBuckets
                  else let bucketIndex = nat (\<lfloor>h hsl' / 20\<rfloor> mod 18) in
                       hueBuckets[bucketIndex := hueBuckets ! bucketIndex @
                          [\<lparr>r = r p, g = g p, b = b p, hsl = hsl', sat = sat'\<rparr>]])
          pixels acc = acc" for acc
    using assms by (induction pixels arbitrary: acc) (simp_all add: Let_def)
  then show ?thesis by (simp add: vibrantBuckets_def)
qed

lemma extractVibrantColors_dull:
  assumes "\<forall>p \<in> set pixels. getSaturation (r p) (g p) (b p) < 0.25"
  shows "extractVibrantColors pixels existingPalette = []"
  unfolding extractVibrantColors_def vibrantBuckets_dull [OF assms]
  by (rule extractVibrant_fold_empty)

lemma brandBuckets_dull:
  assumes "\<forall>p \<in> set pixels. getSaturation (r p) (g p) (b p) < 0.45"
  shows "brandBuckets pixels = replicate (length hueRanges) []"
proof -
  have "fold (\<lambda>p ranges.
             let sat' = getSaturation (r p) (g p) (b p) in
             if sat' < 0.45 then ranges
             else let hsl' = rgbToHsl (r p) (g p) (b p) in
                  if l hsl' < 0.12 \<or> l hsl' > 0.88 then ranges
                  else (case find (\<lambda>i. h hsl' \<ge> fst (hueRanges ! i) \<and> h hsl' < snd (hueRanges ! i))
                                  [0..<length hueRanges] of
                          None \<Rightarrow> ranges
                        | Some i \<Rightarrow> ranges[i := ranges ! i @
                             [\<lparr>r = r p, g = g p, b = b p, hsl = hsl', sat = sat'\<rparr>]]))
          pixels acc = acc" for acc
    using assms by (induction pixels arbitrary: acc) (simp_all add: Let_def)
  then show ?thesis by (simp add: brandBuckets_def)
qed

lemma extractBrand_fold_empty:
  "fold (\<lambda>rangePixels brandColors.
             if length rangePixels = 0 then brandColors
             else let avg = brandCandidate rangePixels in
                  if \<not> brandIsDuplicate avg existingPalette
                     \<and> getSaturation (r avg) (g avg) (b avg) > 0.40
                  then brandColors @ [avg] else brandColors) (replicate n []) acc = acc"
  by (induction n) simp_all

lemma extractBrandColors_dull:
  assumes "\<forall>p \<in> set pixels. getSaturation (r p) (g p) (b p) < 0.45"
  shows "extractBrandColors pixels existingPalette = []"
  unfolding extractBrandColors_def brandBuckets_dull [OF assms]
  by (rule extractBrand_fold_empty)

lemma set_pixelsAfterMedianCut: "set (pixelsAfterMedianCut pixels k) = set pixels"
  by (simp add: pixelsAfterMedianCut_def)

lemma saturation_gray: "getSaturation 128 128 128 = 0"
  by (simp add: getSaturation_def)

lemma medianCut_gray:
  assumes "1 \<le> n"
  shows "\<exists>ks. ks \<noteq> [] \<and> sum_list ks = n
     \<and> medianCut (replicate n \<lparr>r = 128, g = 128, b = 128\<rparr>) 20
         = map (\<lambda>k. plainSwatch 128 128 128 k) ks"
proof -
  define bs where "bs = medianCutLoop [replicate n \<lparr>r = 128, g = 128, b = 128\<rparr>] 20"
  from assms have nonempty: "replicate n \<lparr>r = 128, g = 128, b = 128\<rparr> \<noteq> []" by auto
  then have "\<forall>bk \<in> set [replicate n \<lparr>r = 128, g = 128, b = 128\<rparr>]. bk \<noteq> []" by simp
  then have ne: "\<forall>bk \<in> set bs. bk \<noteq> []"
    unfolding bs_def by (rule medianCutLoop_nonempty)
  have "set (concat bs) \<subseteq> set (concat [replicate n \<lparr>r = 128, g = 128, b = 128\<rparr>])"
    unfolding bs_def by (rule medianCutLoop_subset)
  then have gray: "\<forall>bk \<in> set bs. \<forall>p \<in> set bk. p = \<lparr>r = 128, g = 128, b = 128\<rparr>"
    by auto
  have total: "sum_list (map length bs) = n"
    unfolding bs_def by (simp add: medianCutLoop_pixels)
  with assms have "map length bs \<noteq> []" by auto
  moreover have "medianCut (replicate n \<lparr>r = 128, g = 128, b = 128\<rparr>) 20
      = map (\<lambda>k. plainSwatch 128 128 128 k) (map length bs)"
    using nonempty map_filter_bucketColor_gray [OF ne gray]
    by (simp add: medianCut_def bs_def [symmetric] comp_def)
  ultimately show ?thesis using total by blast
qed

lemma gray_pixels_dull:
  "\<forall>p \<in> set (pixelsAfterMedianCut (replicate n \<lparr>r = 128, g = 128, b = 128\<rparr>) k).
     getSaturation (r p) (g p) (b p) = 0"
  by (auto simp: set_pixelsAfterMedianCut saturation_gray)

lemma gray_pipeline:
  assumes "1 \<le> n"
  shows "length (medianCut (replicate n \<lparr>r = 128, g = 128, b = 128\<rparr>) 20) = min n 20"
    and "removeDuplicates (medianCut (replicate n \<lparr>r = 128, g = 128, b = 128\<rparr>) 20) 30
         = [plainSwatch 128 128 128 n]"
    and "extractVibrantColors (pixelsAfterMedianCut (replicate n \<lparr>r = 128, g = 128, b = 128\<rparr>) 20)
           existingPalette = []"
    and "extractBrandColors (pixelsAfterMedianCut (replicate n \<lparr>r = 128, g = 128, b = 128\<rparr>) 20)
           existingPalette = []"
    and "assemblePalette (replicate n \<lparr>r = 128, g = 128, b = 128\<rparr>) = [plainSwatch 128 128 128 n]"
proof -
  from assms have nonempty: "replicate n \<lparr>r = 128, g = 128, b = 128\<rparr> \<noteq> []" by auto
  show "length (medianCut (replicate n \<lparr>r = 128, g = 128, b = 128\<rparr>) 20) = min n 20"
    using medianCut_length [OF nonempty, of 20] by simp
  from medianCut_gray [OF assms] obtain ks where ks: "ks \<noteq> []" "sum_list ks = n"
    "medianCut (replicate n \<lparr>r = 128, g = 128, b = 128\<rparr>) 20
       = map (\<lambda>k. plainSwatch 128 128 128 k) ks" by blast
  show dedup: "removeDuplicates (medianCut (replicate n \<lparr>r = 128, g = 128, b = 128\<rparr>) 20) 30
         = [plainSwatch 128 128 128 n]"
    using removeDuplicates_gray [OF ks(1)] ks(2,3) by simp
  show vib: "extractVibrantColors (pixelsAfterMedianCut (replicate n \<lparr>r = 128, g = 128, b = 128\<rparr>) 20)
           existingPalette = []" for existingPalette
    by (rule extractVibrantColors_dull) (use gray_pixels_dull [of n 20] in auto)
  show brand: "extractBrandColors (pixelsAfterMedianCut (replicate n \<lparr>r = 128, g = 128, b = 128\<rparr>) 20)
           existingPalette = []" for existingPalette
    by (rule extractBrandColors_dull) (use gray_pixels_dull [of n 20] in auto)
  show "assemblePalette (replicate n \<lparr>r = 128, g = 128, b = 128\<rparr>) = [plainSwatch 128 128 128 n]"
    by (simp add: assemblePalette_def Let_def dedup vib brand)
qed

subsection \<open>The tokens of a palette of one gray\<close>

lemma getContrastRatio_lum:
  "getContrastRatio x y
   = luminanceContrast (getLuminance (r x) (g x) (b x)) (getLuminance (r y) (g y) (b y))"
  by (simp add: getContrastRatio_def luminanceContrast_def Let_def)

lemma contrast_light_first:
  assumes "0 \<le> dlo" "dlo \<le> d" "d \<le> dhi" "dhi \<le> blo" "blo \<le> bb" "bb \<le> bhi"
  shows "(blo + 0.05) / (dhi + 0.05) \<le> luminanceContrast bb d"
    and "luminanceContrast bb d \<le> (bhi + 0.05) / (dlo + 0.05)"
proof -
  from assms have "d \<le> bb" by linarith
  then have eq: "luminanceContrast bb d = (bb + 0.05) / (d + 0.05)"
    by (simp add: luminanceContrast_def max_absorb1 min_absorb2)
  show "(blo + 0.05) / (dhi + 0.05) \<le> luminanceContrast bb d"
    unfolding eq using assms by (intro frac_le) simp_all
  show "luminanceContrast bb d \<le> (bhi + 0.05) / (dlo + 0.05)"
    unfolding eq using assms by (intro frac_le) simp_all
qed

lemma contrast_dark_first:
  assumes "0 \<le> dlo" "dlo \<le> d" "d \<le> dhi" "dhi \<le> blo" "blo \<le> bb" "bb \<le> bhi"
  shows "(blo + 0.05) / (dhi + 0.05) \<le> luminanceContrast d bb"
    and "luminanceContrast d bb \<le> (bhi + 0.05) / (dlo + 0.05)"
proof -
  have "luminanceContrast d bb = luminanceContrast bb d"
    by (simp add: luminanceContrast_def max.commute min.commute)
  with contrast_light_first [OF assms] show
    "(blo + 0.05) / (dhi + 0.05) \<le> luminanceContrast d bb"
    "luminanceContrast d bb \<le> (bhi + 0.05) / (dlo + 0.05)" by simp_all
qed

lemma lin_26: "0.0103 \<le> linearize 26" "linearize 26 \<le> 0.0104"
  by (rule linearize_lower; simp add: power_divide) (rule linearize_upper; simp add: power_divide)

lemma lin_51: "0.0331 \<le> linearize 51" "linearize 51 \<le> 0.0332"
  by (rule linearize_lower; simp add: power_divide) (rule linearize_upper; simp add: power_divide)

lemma lin_85: "0.0908 \<le> linearize 85" "linearize 85 \<le> 0.0909"
  by (rule linearize_lower; simp add: power_divide) (rule linearize_upper; simp add: power_divide)

lemma lin_113: "0.1651 \<le> linearize 113" "linearize 113 \<le> 0.1652"
  by (rule linearize_lower; simp add: power_divide) (rule linearize_upper; simp add: power_divide)

lemma lin_192: "0.5271 \<le> linearize 192" "linearize 192 \<le> 0.5272"
  by (rule linearize_lower; simp add: power_divide) (rule linearize_upper; simp add: power_divide)

lemma lin_208: "0.6307 \<le> linearize 208" "linearize 208 \<le> 0.6308"
  by (rule linearize_lower; simp add: power_divide) (rule linearize_upper; simp add: power_divide)

lemma lin_227: "0.7681 \<le> linearize 227" "linearize 227 \<le> 0.7682"
  by (rule linearize_lower; simp add: power_divide) (rule linearize_upper; simp add: power_divide)

lemma lin_247: "0.9301 \<le> linearize 247" "linearize 247 \<le> 0.9302"
  by (rule linearize_lower; simp add: power_divide) (rule linearize_upper; simp add: power_divide)

lemma lum_blue: "0.1735 \<le> getLuminance 0 113 227" "getLuminance 0 113 227 \<le> 0.1737"
  using lin_113 lin_227 by (simp_all add: getLuminance_def)


lemma contrast_bounds:
  "3.9 \<le> luminanceContrast (linearize 128) 1" "luminanceContrast (linearize 128) 1 \<le> 3.96"
  "17 \<le> luminanceContrast (linearize 26) 1"
  "12 \<le> luminanceContrast (linearize 51) 1"
  "7 \<le> luminanceContrast (linearize 85) 1"
  "16 \<le> luminanceContrast (linearize 26) (linearize 247)"
  "11 \<le> luminanceContrast (linearize 51) (linearize 247)"
  "6 \<le> luminanceContrast (linearize 85) (linearize 247)"
  "4.6 \<le> luminanceContrast (getLuminance 0 113 227) 1"
  using contrast_dark_first [where d = "linearize 128" and bb = 1 and dlo = "0.2158"
      and dhi = "0.2159" and blo = 1 and bhi = 1]
    contrast_dark_first [where d = "linearize 26" and bb = 1 and dlo = "0.0103"
      and dhi = "0.0104" and blo = 1 and bhi = 1]
    contrast_dark_first [where d = "linearize 51" and bb = 1 and dlo = "0.0331"
      and dhi = "0.0332" and blo = 1 and bhi = 1]
    contrast_dark_first [where d = "linearize 85" and bb = 1 and dlo = "0.0908"
      and dhi = "0.0909" and blo = 1 and bhi = 1]
    contrast_dark_first [where d = "linearize 26" and bb = "linearize 247" and dlo = "0.0103"
      and dhi = "0.0104" and blo = "0.9301" and bhi = "0.9302"]
    contrast_dark_first [where d = "linearize 51" and bb = "linearize 247" and dlo = "0.0331"
      and dhi = "0.0332" and blo = "0.9301" and bhi = "0.9302"]
    contrast_dark_first [where d = "linearize 85" and bb = "linearize 247" and dlo = "0.0908"
      and dhi = "0.0909" and blo = "0.9301" and bhi = "0.9302"]
    contrast_dark_first [where d = "getLuminance 0 113 227" and bb = 1 and dlo = "0.1735"
      and dhi = "0.1737" and blo = 1 and bhi = 1]
    lin_128 lin_128' lin_26 lin_51 lin_85 lin_247 lum_blue
  by simp_all

lemma contrast_bounds_dark:
  "4.6 \<le> luminanceContrast (linearize 128) (linearize 20)"
  "luminanceContrast (linearize 128) (linearize 20) \<le> 4.7"
  "11 \<le> luminanceContrast (linearize 208) (linearize 20)"
  "19 \<le> luminanceContrast 1 (linearize 11)"
  "10 \<le> luminanceContrast (linearize 192) (linearize 11)"
  "12 \<le> luminanceContrast (linearize 208) (linearize 11)"
  "3.9 \<le> luminanceContrast (getLuminance 0 113 227) (linearize 20)"
  using contrast_light_first [where bb = "linearize 128" and d = "linearize 20" and dlo = "0.0069"
      and dhi = "0.0071" and blo = "0.2158" and bhi = "0.2159"]
    contrast_light_first [where bb = "linearize 208" and d = "linearize 20" and dlo = "0.0069"
      and dhi = "0.0071" and blo = "0.6307" and bhi = "0.6308"]
    contrast_light_first [where bb = 1 and d = "linearize 11" and dlo = "0.0033"
      and dhi = "0.0034" and blo = 1 and bhi = 1]
    contrast_light_first [where bb = "linearize 192" and d = "linearize 11" and dlo = "0.0033"
      and dhi = "0.0034" and blo = "0.5271" and bhi = "0.5272"]
    contrast_light_first [where bb = "linearize 208" and d = "linearize 11" and dlo = "0.0033"
      and dhi = "0.0034" and blo = "0.6307" and bhi = "0.6308"]
    contrast_light_first [where bb = "getLuminance 0 113 227" and d = "linearize 20"
      and dlo = "0.0069" and dhi = "0.0071" and blo = "0.1735" and bhi = "0.1737"]
    lin_128 lin_128' lin_20 lin_20' lin_11 lin_11' lin_192 lin_208 lum_blue
  by simp_all

lemmas gray_facts = lin_128 lin_128' lin_26 lin_51 lin_85 lin_247 lin_20 lin_20' lin_11 lin_11'
  lin_192 lin_208 lum_blue contrast_bounds contrast_bounds_dark

lemma rgbToHex_gray: "rgbToHex 128 128 128 = ''#808080''"
  by code_simp

lemma analyze_gray:
  "analyze (plainSwatch 128 128 128 n)
   = \<lparr>r = 128, g = 128, b = 128, population = n, isVibrant = False, isBrandColor = False,
      hex = ''#808080'', luminance = linearize 128, saturation = 0\<rparr>"
  by (simp add: analyze_def rgbToHex_gray getLuminance_gray saturation_gray)

lemma light_gray_heading_text:
  "lightHeadingText [analyzedGray n] (Some white) = Some (''#1a1a1a'', ''#333333'')"
  using gray_facts
  by (simp add: lightHeadingText_def lightHeadingCandidates_def first_def ensureContrast_def
      parse_gray luminanceOfHex_def getContrastRatio_lum getLuminance_gray white_def)


lemma light_gray_muted:
  "lightMutedText [analyzedGray n] (Some white) ''#1a1a1a'' ''#333333'' = Some ''#555555''"
  using gray_facts
  by (simp add: lightMutedText_def first_def ensureContrast_def
      parse_gray luminanceOfHex_def getContrastRatio_lum getLuminance_gray white_def)

lemma light_gray_bg:
  "lightBgValidated [analyzedGray n] None ''#f7f7f7'' ''#1a1a1a'' ''#333333'' ''#555555'' = ''#f7f7f7''"
  using gray_facts
  by (simp add: lightBgValidated_def tokenFails_def isSet_def
      parse_gray getContrastRatio_lum getLuminance_gray)

lemma light_gray_primary:
  "lightPrimarySearch [analyzedGray n] [plainSwatch 128 128 128 n] white ''#1a1a1a'' ''#333333'' ''#555555''
   = Some lightDefaultPrimary"
  by (simp add: lightPrimarySearch_def first_def lightDefaultPrimary_def)

lemma light_gray_primary_tokens:
  "lightPrimaryTokens [analyzedGray n] None (Some lightDefaultPrimary) = (''#0071e3'', ''#ffffff'')"
  using gray_facts
  by (simp add: lightPrimaryTokens_def lightDefaultPrimary_def getContrastRatio_lum white_def)

lemma light_gray_mode:
  "lightMode [analyzedGray n] [plainSwatch 128 128 128 n] None None
   = Some (\<lparr>bg = ''#f7f7f7'', surface = ''#ffffff'', border = ''#e0e0e0'',
             heading = ''#1a1a1a'', text = ''#333333'', mutedText = ''#555555'',
             primary = ''#0071e3'', onPrimary = ''#ffffff''\<rparr>, Some lightDefaultPrimary)"
proof -
  have bgc: "lightBgCandidate [analyzedGray n] None = None"
    using gray_facts by (simp add: lightBgCandidate_def lockOr_def findBest_def)
  have sf: "lightSurface [analyzedGray n] None ''#f7f7f7'' = ''#ffffff''"
    using gray_facts by (simp add: lightSurface_def findBest_def useColor_def)
  have bd: "lightBorder [analyzedGray n] ''#f7f7f7'' ''#ffffff'' 1 = ''#e0e0e0''"
    using gray_facts by (simp add: lightBorder_def findBest_def useColor_def)
  show ?thesis
    by (simp add: lightMode_def bgc useColor_def luminanceOfHex_def parse_gray getLuminance_gray
        sf bd orElse_def Let_def lockOr_def light_gray_heading_text [unfolded white_def]
        light_gray_muted [unfolded white_def] light_gray_bg
        light_gray_primary [unfolded white_def] light_gray_primary_tokens)
qed

lemma variant_gray:
  "findMostVibrantVariant \<lparr>r = 0, g = 113, b = 227\<rparr> [plainSwatch 128 128 128 n]
   = plainSwatch 0 113 227 0"
  by (simp add: findMostVibrantVariant_def rgbToHsl_def Let_def)

lemma saturation_blue: "getSaturation 0 113 227 = 1"
  by (simp add: getSaturation_def)

lemma parse_808080: "hexToRgb ''#808080'' = Some \<lparr>r = 128, g = 128, b = 128\<rparr>"
  by (simp add: hexToRgb_def parseInt16_def hexVal_def)

lemma dark_gray_heading_text:
  "darkHeadingText [analyzedGray n] (Some \<lparr>r = 20, g = 20, b = 20\<rparr>) = Some (''#ffffff'', ''#c0c0c0'')"
  using gray_facts
  by (simp add: darkHeadingText_def darkHeadingCandidates_def first_def ensureContrast_def
      parse_gray parse_808080 luminanceOfHex_def getContrastRatio_lum getLuminance_gray)

lemma dark_gray_muted:
  "darkMutedText [analyzedGray n] (Some \<lparr>r = 20, g = 20, b = 20\<rparr>) ''#ffffff'' ''#c0c0c0'' = Some ''#d0d0d0''"
  using gray_facts
  by (simp add: darkMutedText_def first_def ensureContrast_def
      parse_gray parse_808080 luminanceOfHex_def getContrastRatio_lum getLuminance_gray)

lemma dark_gray_bg:
  "darkBgValidated [analyzedGray n] None ''#0b0b0b'' ''#ffffff'' ''#c0c0c0'' ''#d0d0d0'' = ''#0b0b0b''"
  using gray_facts
  by (simp add: darkBgValidated_def tokenFails_def isSet_def
      parse_gray getContrastRatio_lum getLuminance_gray)

lemma dark_gray_primary:
  "darkPrimarySearch [analyzedGray n] [plainSwatch 128 128 128 n] \<lparr>r = 20, g = 20, b = 20\<rparr>
     ''#ffffff'' ''#c0c0c0'' ''#d0d0d0'' (Some lightDefaultPrimary)
   = Some lightDefaultPrimary"
  using gray_facts
  by (simp add: darkPrimarySearch_def first_def lightDefaultPrimary_def parse_gray
      getContrastRatio_lum getLuminance_gray variant_gray saturation_blue)

lemma dark_gray_primary_tokens:
  "darkPrimaryTokens (Some lightDefaultPrimary) = (''#0071e3'', ''#ffffff'')"
  using gray_facts
  by (simp add: darkPrimaryTokens_def lightDefaultPrimary_def getContrastRatio_lum white_def)

lemma dark_gray_mode:
  "darkMode [analyzedGray n] [plainSwatch 128 128 128 n] None None (Some lightDefaultPrimary)
   = Some \<lparr>bg = ''#0b0b0b'', surface = ''#141414'', border = ''#808080'',
            heading = ''#ffffff'', text = ''#c0c0c0'', mutedText = ''#d0d0d0'',
            primary = ''#0071e3'', onPrimary = ''#ffffff''\<rparr>"
proof -
  have bgc: "darkBgCandidate [analyzedGray n] None = None"
    using gray_facts by (simp add: darkBgCandidate_def lockOr_def findBest_def)
  have sf: "darkSurface [analyzedGray n] None ''#0b0b0b'' (linearize 11) = ''#141414''"
    using gray_facts by (simp add: darkSurface_def findBest_def useColor_def)
  have bd: "darkBorder [analyzedGray n] ''#0b0b0b'' ''#141414'' (linearize 20) = ''#808080''"
    using gray_facts by (simp add: darkBorder_def findBest_def useColor_def)
  show ?thesis
    by (simp add: darkMode_def bgc useColor_def luminanceOfHex_def parse_gray getLuminance_gray
        sf bd orElse_def Let_def dark_gray_heading_text dark_gray_muted dark_gray_bg lockOr_def
        dark_gray_primary dark_gray_primary_tokens)
qed

lemma gray_tokens:
  "generateTokens [plainSwatch 128 128 128 n] None None None
   = Some \<lparr>light = \<lparr>bg = ''#f7f7f7'', surface = ''#ffffff'', border = ''#e0e0e0'',
                     heading = ''#1a1a1a'', text = ''#333333'', mutedText = ''#555555'',
                     primary = ''#0071e3'', onPrimary = ''#ffffff''\<rparr>,
            dark = \<lparr>bg = ''#0b0b0b'', surface = ''#141414'', border = ''#808080'',
                    heading = ''#ffffff'', text = ''#c0c0c0'', mutedText = ''#d0d0d0'',
                    primary = ''#0071e3'', onPrimary = ''#ffffff''\<rparr>\<rparr>"
  by (simp add: generateTokens_def analyze_gray light_gray_mode dark_gray_mode)

text \<open>Claim C3, as the code has it. For the pixel (128, 128, 128) repeated \<open>n\<close> times,
  \<open>n\<close> at least 1: median cut returns \<open>min n 20\<close> swatches, which \<^verbatim>\<open>removeDuplicates\<close>
  merges into one swatch of population \<open>n\<close>; the Vibrant and the brand pass add nothing,
  so the palette is that one swatch; and the tokens are the fallback constants except for
  the dark border, which is the palette's gray, the dark heading and text, which are the
  fixed pair for equal colours, and the dark primary, which is the primary of light
  mode.\<close>

theorem gray_scenario:
  assumes "1 \<le> n"
  shows "length (medianCut (replicate n \<lparr>r = 128, g = 128, b = 128\<rparr>) 20) = min n 20
    \<and> removeDuplicates (medianCut (replicate n \<lparr>r = 128, g = 128, b = 128\<rparr>) 20) 30
        = [plainSwatch 128 128 128 n]
    \<and> extractVibrantColors (pixelsAfterMedianCut (replicate n \<lparr>r = 128, g = 128, b = 128\<rparr>) 20)
          existingPalette = []
    \<and> extractBrandColors (pixelsAfterMedianCut (replicate n \<lparr>r = 128, g = 128, b = 128\<rparr>) 20)
          existingPalette = []
    \<and> assemblePalette (replicate n \<lparr>r = 128, g = 128, b = 128\<rparr>) = [plainSwatch 128 128 128 n]
    \<and> generateTokens (assemblePalette (replicate n \<lparr>r = 128, g = 128, b = 128\<rparr>)) None None None
        = Some \<lparr>light = \<lparr>bg = ''#f7f7f7'', surface = ''#ffffff'', border = ''#e0e0e0'',
                          heading = ''#1a1a1a'', text = ''#333333'', mutedText = ''#555555'',
                          primary = ''#0071e3'', onPrimary = ''#ffffff''\<rparr>,
                 dark = \<lparr>bg = ''#0b0b0b'', surface = ''#141414'', border = ''#808080'',
                         heading = ''#ffffff'', text = ''#c0c0c0'', mutedText = ''#d0d0d0'',
                         primary = ''#0071e3'', onPrimary = ''#ffffff''\<rparr>\<rparr>"
  using gray_pipeline [OF assms] gray_tokens [of n]
  by simp

theorem gray_scenario_witness:
  "1 \<le> (3::nat)
   \<and> length (medianCut (replicate 3 \<lparr>r = 128, g = 128, b = 128\<rparr>) 20) = 3
   \<and> generateTokens (assemblePalette (replicate 3 \<lparr>r = 128, g = 128, b = 128\<rparr>)) None None None
       = Some \<lparr>light = \<lparr>bg = ''#f7f7f7'', surface = ''#ffffff'', border = ''#e0e0e0'',
                         heading = ''#1a1a1a'', text = ''#333333'', mutedText = ''#555555'',
                         primary = ''#0071e3'', onPrimary = ''#ffffff''\<rparr>,
                dark = \<lparr>bg = ''#0b0b0b'', surface = ''#141414'', border = ''#808080'',
                        heading = ''#ffffff'', text = ''#c0c0c0'', mutedText = ''#d0d0d0'',
                        primary = ''#0071e3'', onPrimary = ''#ffffff''\<rparr>\<rparr>"
proof -
  have "1 \<le> (3::nat)" by simp
  note scenario = gray_scenario [OF this, of "[]"]
  from scenario [THEN conjunct1]
    scenario [THEN conjunct2, THEN conjunct2, THEN conjunct2, THEN conjunct2, THEN conjunct2]
  show ?thesis by simp
qed

text \<open>Claim C3 as the specification words it does not hold. For two pixels of the gray,
  median cut returns two swatches, not one; and the tokens of dark mode are not all
  fallback constants: the primary is \<^verbatim>\<open>#0071e3\<close>, not \<^verbatim>\<open>#409cff\<close>, and the border is
  the gray \<^verbatim>\<open>#808080\<close> of the palette, not \<^verbatim>\<open>#2a2a2a\<close>.\<close>

theorem gray_scenario_not_all_fallbacks:
  "length (medianCut [\<lparr>r = 128, g = 128, b = 128\<rparr>, \<lparr>r = 128, g = 128, b = 128\<rparr>] 20) = 2
   \<and> map_option (\<lambda>ts. (primary (dark ts), border (dark ts)))
        (generateTokens
           (assemblePalette [\<lparr>r = 128, g = 128, b = 128\<rparr>, \<lparr>r = 128, g = 128, b = 128\<rparr>])
           None None None)
       = Some (''#0071e3'', ''#808080'')
   \<and> ''#0071e3'' \<noteq> ''#409cff'' \<and> ''#808080'' \<noteq> ''#2a2a2a''"
proof -
  have two: "[\<lparr>r = 128, g = 128, b = 128\<rparr>, \<lparr>r = 128, g = 128, b = 128\<rparr>]
             = replicate 2 \<lparr>r = 128, g = 128, b = 128\<rparr>"
    by (simp add: numeral_2_eq_2)
  show ?thesis
    unfolding two using gray_pipeline [of 2] gray_tokens [of 2] by simp
qed

end
